theory Spec2Isabelle
  imports Main
begin

section \<open>Python values shared by both modules\<close>

text \<open>
  The exceptions of the interpreter that the modelled code can raise.  A run of a
  function of the source ends either normally or with one of them; the objects it
  has mutated in place up to that point keep their new contents, so every model
  below returns the state together with the way the run ended.
\<close>

datatype py_error = IndexError | ValueError | KeyError | TypeError | AttributeError
  | FileNotFoundError

text \<open>
  \<^verbatim>\<open>str.split()\<close> without arguments: the maximal runs of non-whitespace characters.
  Whitespace is what \<^verbatim>\<open>str.isspace\<close> accepts among the ASCII characters (codes 9 to 13,
  28 to 32).
\<close>

definition is_space :: "char \<Rightarrow> bool" where
  "is_space c = (let n = (of_char c :: nat) in (9 \<le> n \<and> n \<le> 13) \<or> (28 \<le> n \<and> n \<le> 32))"

function py_split :: "string \<Rightarrow> string list" where
  "py_split s =
     (case dropWhile is_space s of
        [] \<Rightarrow> []
      | c # cs \<Rightarrow> (c # takeWhile (\<lambda>d. \<not> is_space d) cs)
                  # py_split (dropWhile (\<lambda>d. \<not> is_space d) cs))"
  by pat_completeness auto
termination
proof (relation "measure length")
  show "wf (measure length)" by simp
next
  fix s :: string and c cs
  assume a: "dropWhile is_space s = c # cs"
  have "length (dropWhile (\<lambda>d. \<not> is_space d) cs) \<le> length cs"
    by (rule length_dropWhile_le)
  moreover have "length (c # cs) \<le> length s"
    using length_dropWhile_le [of is_space s] a by simp
  ultimately show "(dropWhile (\<lambda>d. \<not> is_space d) cs, s) \<in> measure length"
    by simp
qed

declare py_split.simps [simp del]

text \<open>
  \<^verbatim>\<open>int(s)\<close> on a token: an optional sign, then decimal digits, where single underscores
  may stand between two digits; anything else raises ValueError (\<open>None\<close> here).
  \<^verbatim>\<open>str(n)\<close> on a non-negative integer is its decimal numeral.  (The interpreter's limit on
  the length of the numerals it converts, 4300 digits unless configured otherwise, is
  beyond every tag, iteration count and file name that a run can meet.)
\<close>

definition is_digit :: "char \<Rightarrow> bool" where
  "is_digit c = (let n = (of_char c :: nat) in 48 \<le> n \<and> n \<le> 57)"

definition digit_val :: "char \<Rightarrow> nat" where
  "digit_val c = of_char c - 48"

definition digit_char :: "nat \<Rightarrow> char" where
  "digit_char d = char_of (48 + d)"

text \<open>The value of a digit string, most significant digit first.\<close>

definition digits_val :: "string \<Rightarrow> nat" where
  "digits_val ds = foldl (\<lambda>a c. 10 * a + digit_val c) 0 ds"

text \<open>Removes the underscores of a numeral; \<open>None\<close> when one is not between two digits.\<close>

fun strip_underscores :: "string \<Rightarrow> string option" where
  "strip_underscores [] = None"
| "strip_underscores [c] = (if is_digit c then Some [c] else None)"
| "strip_underscores (c # d # cs) =
     (if is_digit c then
        (if d = CHR ''_'' then map_option ((#) c) (strip_underscores cs)
         else map_option ((#) c) (strip_underscores (d # cs)))
      else None)"

definition py_nat :: "string \<Rightarrow> nat option" where
  "py_nat s = map_option digits_val (strip_underscores s)"

definition py_int :: "string \<Rightarrow> int option" where
  "py_int s =
     (case s of
        [] \<Rightarrow> None
      | c # cs \<Rightarrow>
          if c = CHR ''-'' then map_option (\<lambda>n. - int n) (py_nat cs)
          else if c = CHR ''+'' then map_option int (py_nat cs)
          else map_option int (py_nat s))"

function py_str :: "nat \<Rightarrow> string" where
  "py_str n = (if n < 10 then [digit_char n] else py_str (n div 10) @ [digit_char (n mod 10)])"
  by pat_completeness auto
termination
  by (relation "measure id") auto

declare py_str.simps [simp del]

section \<open>pysimm.amber\<close>

subsection \<open>The structural system\<close>

text \<open>
  A particle type record has a name and its force-field parameters (opaque here).  A particle has a type reference and a charge, both unset until assigned,
  and its other fields (position, element, ...) are the record's extension.  A system
  owns its particles, found by their integer tag, and its registry of particle types.
\<close>

record ptype =
  pt_name :: string
  pt_params :: string

record 'f particle =
  ptype_of :: "ptype option"
  charge :: "'f option"

text \<open>
  Modelled from the spec: the item containers of \<^verbatim>\<open>pysimm.system\<close> are not among the
  sources.  \<^verbatim>\<open>s.particles[tag]\<close> finds the particle of that tag and raises KeyError
  when there is none; \<^verbatim>\<open>particle_types.get(name)\<close> returns the list of the type records of
  that name (the spec: type-name matching is exact-string, case-sensitive);
  \<^verbatim>\<open>particle_types.add(pt)\<close> appends the record to the registry and returns it.
\<close>

definition get_types :: "ptype list \<Rightarrow> string \<Rightarrow> ptype list" where
  "get_types reg name = filter (\<lambda>t. pt_name t = name) reg"

definition add_type :: "ptype list \<Rightarrow> ptype \<Rightarrow> ptype list" where
  "add_type reg t = reg @ [t]"

subsection \<open>calc_charges\<close>

text \<open>
  \<^verbatim>\<open>calc_charges(s, charge_method, cleanup)\<close> writes the system to a file, runs the
  external tool and reads the tool's output file \<^verbatim>\<open>pysimm.tmp.ac\<close>.  The tool and the file
  system are outside the program: the model takes the lines of the output file as they
  are after the tool has run (\<open>None\<close> when the file cannot be opened).  \<^verbatim>\<open>float\<close> is the
  interpreter's conversion and is a parameter \<open>to_float\<close>, \<open>None\<close> for ValueError.  The
  cleanup removes temporary files and touches no particle.

  \<^verbatim>\<open>readline\<close> returns the empty string at the end of the file, and
  \<^verbatim>\<open>line.split()[0]\<close> raises IndexError on an empty or blank line: the loop ends normally
  only at a row whose first field is not \<^verbatim>\<open>ATOM\<close>.
\<close>

fun second_to_last :: "'a list \<Rightarrow> 'a option" where
  "second_to_last [] = None"
| "second_to_last [x] = None"
| "second_to_last [x, y] = Some x"
| "second_to_last (x # y # z # zs) = second_to_last (y # z # zs)"

fun charges_loop ::
  "(string \<Rightarrow> 'f option) \<Rightarrow> string list \<Rightarrow> (int \<rightharpoonup> ('f, 'z) particle_scheme)
     \<Rightarrow> (int \<rightharpoonup> ('f, 'z) particle_scheme) \<times> py_error option" where
  "charges_loop to_float [] ps = (ps, Some IndexError)"
| "charges_loop to_float (line # rest) ps =
     (case py_split line of
        [] \<Rightarrow> (ps, Some IndexError)
      | w # ws \<Rightarrow>
          if w \<noteq> ''ATOM'' then (ps, None)
          else (case ws of
              [] \<Rightarrow> (ps, Some IndexError)
            | t # _ \<Rightarrow>
               (case py_int t of
                  None \<Rightarrow> (ps, Some ValueError)
                | Some tag \<Rightarrow>
                   (case Option.bind (second_to_last (w # ws)) to_float of
                      None \<Rightarrow> (ps, Some ValueError)
                    | Some c \<Rightarrow>
                       (case ps tag of
                          None \<Rightarrow> (ps, Some KeyError)
                        | Some p \<Rightarrow>
                            charges_loop to_float rest (ps(tag \<mapsto> p\<lparr>charge := Some c\<rparr>)))))))"

definition calc_charges ::
  "(string \<Rightarrow> 'f option) \<Rightarrow> string list option \<Rightarrow> (int \<rightharpoonup> ('f, 'z) particle_scheme)
     \<Rightarrow> (int \<rightharpoonup> ('f, 'z) particle_scheme) \<times> py_error option" where
  "calc_charges to_float ac ps =
     (case ac of
        None \<Rightarrow> (ps, Some FileNotFoundError)
      | Some lines \<Rightarrow> charges_loop to_float (drop 2 lines) ps)"

text \<open>
  The words of the claim about \<^verbatim>\<open>calc_charges\<close>: the consecutive block of ATOM rows that
  begins at the third line of the output file, the tag a row lists (its second field) and
  the charge it gives (its second-to-last field).
\<close>

definition is_atom_row :: "string \<Rightarrow> bool" where
  "is_atom_row l = (case py_split l of [] \<Rightarrow> False | w # _ \<Rightarrow> w = ''ATOM'')"

definition row_tag :: "string \<Rightarrow> int option" where
  "row_tag l = (case py_split l of w # t # _ \<Rightarrow> py_int t | _ \<Rightarrow> None)"

definition row_charge :: "(string \<Rightarrow> 'f option) \<Rightarrow> string \<Rightarrow> 'f option" where
  "row_charge to_float l = Option.bind (second_to_last (py_split l)) to_float"

definition atom_block :: "string list option \<Rightarrow> string list" where
  "atom_block ac = (case ac of None \<Rightarrow> [] | Some lines \<Rightarrow> takeWhile is_atom_row (drop 2 lines))"


text \<open>A small output file of the tool and a system of three particles.\<close>

definition ac_example :: "string list" where
  "ac_example =
     [''CHARGE 0.00 ( 0 )'', ''Formula: C1 H1'',
      ''ATOM 1 C1 MOL 1 0.0 0.0 0.0 -0.12 c3'',
      ''ATOM 2 H1 MOL 1 1.0 0.0 0.0 0.12 hc'',
      ''BOND 1 1 2 1 C1 H1'']"

definition ps_example :: "int \<rightharpoonup> string particle" where
  "ps_example = [1 \<mapsto> \<lparr>ptype_of = None, charge = None\<rparr>,
                 2 \<mapsto> \<lparr>ptype_of = None, charge = Some ''0''\<rparr>,
                 3 \<mapsto> \<lparr>ptype_of = None, charge = Some ''7''\<rparr>]"


subsection \<open>get_forcefield_types\<close>

text \<open>
  What \<^verbatim>\<open>get_forcefield_types(s, types, f)\<close> does to the world besides the system: the
  files it writes, the external tool it runs and the messages it prints.  The messages
  are kept by kind, with the values interpolated into them:
  \<^item> \<open>WarnNotFound type_name types\<close>: \<^verbatim>\<open>Atom type {type_name} was not found in {types}\<close>;
  \<^item> \<open>WarnAlias type_name\<close>: \<^verbatim>\<open>Reading type as {type_name}, writing type as c3 ...\<close>;
  \<^item> \<open>WarnMissingPdb\<close>: \<^verbatim>\<open>writing Missing_Types.pdb. Please analyze ...\<close>;
  \<^item> \<open>ErrorCannotFind type_name\<close>: \<^verbatim>\<open>cannot find type {} in system or forcefield\<close>.

  The state of a run: the system's particles and type registry, the three local
  variables \<^verbatim>\<open>c5_c6_flag\<close>, \<^verbatim>\<open>warning_pdb_flag\<close> and \<^verbatim>\<open>missing_types\<close>, and the events so
  far.  The fallback force field \<open>f\<close> is given by its registry of particle types, \<open>None\<close>
  when no force field is passed.
\<close>

datatype amber_event =
    WritePdb string
  | RunAntechamber string
  | WarnNotFound string string
  | WarnAlias string
  | WarnMissingPdb
  | ErrorCannotFind string

record ('f, 'z) typing_state =
  particles :: "int \<rightharpoonup> ('f, 'z) particle_scheme"
  particle_types :: "ptype list"
  c5_c6_flag :: bool
  warning_pdb_flag :: bool
  missing_types :: "string list"
  events :: "amber_event list"

text \<open>
  \<^verbatim>\<open>s.particles[tag].type = t\<close>: the right-hand side is evaluated first, then the particle
  is looked up.
\<close>

definition set_type ::
  "('f, 'z) typing_state \<Rightarrow> int \<Rightarrow> ptype \<Rightarrow> ('f, 'z) typing_state \<times> py_error option" where
  "set_type st tag t =
     (case particles st tag of
        None \<Rightarrow> (st, Some KeyError)
      | Some p \<Rightarrow> (st\<lparr>particles := (particles st)(tag \<mapsto> p\<lparr>ptype_of := Some t\<rparr>)\<rparr>, None))"

definition emit :: "amber_event \<Rightarrow> ('f, 'z) typing_state \<Rightarrow> ('f, 'z) typing_state" where
  "emit e st = st\<lparr>events := events st @ [e]\<rparr>"

text \<open>
  The body of the loop after the registry of the system had no type of the reported
  name and a force field was passed, in the order of the source: the warning for a name
  the force field lacks (once per name), then either the branch of the deprecated names
  \<^verbatim>\<open>c5\<close> and \<^verbatim>\<open>c6\<close> under \<^verbatim>\<open>gaff2\<close> or, for a name the force field lacks, the snapshot
  \<^verbatim>\<open>Missing_Types.pdb\<close>, and at last the binding of the particle when \<^verbatim>\<open>pt\<close> is not empty.
\<close>

definition deprecated_alias :: "string \<Rightarrow> string \<Rightarrow> bool" where
  "deprecated_alias types type_name = (types = ''gaff2'' \<and> type_name \<in> set [''c5'', ''c6''])"

definition note_missing ::
  "string \<Rightarrow> string \<Rightarrow> ptype list \<Rightarrow> ('f, 'z) typing_state \<Rightarrow> ('f, 'z) typing_state" where
  "note_missing types type_name pt st =
     (if pt = [] \<and> type_name \<notin> set (missing_types st)
      then (emit (WarnNotFound type_name types) st)\<lparr>missing_types := type_name # missing_types st\<rparr>
      else st)"

definition substitute_or_report ::
  "string \<Rightarrow> ptype list \<Rightarrow> string \<Rightarrow> ptype list \<Rightarrow> ('f, 'z) typing_state
     \<Rightarrow> ptype list \<times> ('f, 'z) typing_state" where
  "substitute_or_report types ff type_name pt st =
     (if deprecated_alias types type_name then
        (if \<not> c5_c6_flag st
         then (get_types ff ''c3'', (emit (WarnAlias type_name) st)\<lparr>c5_c6_flag := True\<rparr>)
         else (pt, st))
      else if pt = [] then
        (pt, emit (WritePdb ''Missing_Types.pdb'')
               (if \<not> warning_pdb_flag st
                then (emit WarnMissingPdb st)\<lparr>warning_pdb_flag := True\<rparr>
                else st))
      else (pt, st))"

definition add_and_set ::
  "ptype list \<Rightarrow> int \<Rightarrow> ('f, 'z) typing_state \<Rightarrow> ('f, 'z) typing_state \<times> py_error option" where
  "add_and_set pt tag st =
     (case pt of
        [] \<Rightarrow> (st, None)
      | t # _ \<Rightarrow> set_type (st\<lparr>particle_types := add_type (particle_types st) t\<rparr>) tag t)"

definition type_row ::
  "string \<Rightarrow> ptype list option \<Rightarrow> int \<Rightarrow> string \<Rightarrow> ('f, 'z) typing_state
     \<Rightarrow> ('f, 'z) typing_state \<times> py_error option" where
  "type_row types f tag type_name st =
     (case get_types (particle_types st) type_name of
        t # _ \<Rightarrow> set_type st tag t
      | [] \<Rightarrow>
         (case f of
            None \<Rightarrow> (emit (ErrorCannotFind type_name) st, None)
          | Some ff \<Rightarrow>
              (case substitute_or_report types ff type_name (get_types ff type_name)
                      (note_missing types type_name (get_types ff type_name) st) of
                 (pt, st2) \<Rightarrow> add_and_set pt tag st2)))"

fun typing_loop ::
  "string \<Rightarrow> ptype list option \<Rightarrow> string list \<Rightarrow> ('f, 'z) typing_state
     \<Rightarrow> ('f, 'z) typing_state \<times> py_error option" where
  "typing_loop types f [] st = (st, Some IndexError)"
| "typing_loop types f (line # rest) st =
     (case py_split line of
        [] \<Rightarrow> (st, Some IndexError)
      | w # ws \<Rightarrow>
          if w \<noteq> ''ATOM'' then (st, None)
          else (case ws of
              [] \<Rightarrow> (st, Some IndexError)
            | t # _ \<Rightarrow>
               (case py_int t of
                  None \<Rightarrow> (st, Some ValueError)
                | Some tag \<Rightarrow>
                   (case type_row types f tag (last (w # ws)) st of
                      (st', Some e) \<Rightarrow> (st', Some e)
                    | (st', None) \<Rightarrow> typing_loop types f rest st'))))"

definition get_forcefield_types ::
  "string \<Rightarrow> ptype list option \<Rightarrow> string list option
     \<Rightarrow> (int \<rightharpoonup> ('f, 'z) particle_scheme) \<Rightarrow> ptype list
     \<Rightarrow> (('f, 'z) typing_state \<times> py_error option)" where
  "get_forcefield_types types f ac ps reg =
     (let st = \<lparr>particles = ps, particle_types = reg, c5_c6_flag = False,
                 warning_pdb_flag = False, missing_types = [],
                 events = [WritePdb ''pysimm.tmp.pdb'', RunAntechamber types]\<rparr>
      in case ac of
           None \<Rightarrow> (st, Some FileNotFoundError)
         | Some lines \<Rightarrow> typing_loop types f (drop 2 lines) st)"


text \<open>
  The words of the claims about \<^verbatim>\<open>get_forcefield_types\<close>: the type name a row reports (its
  last field), and a name that is absent from the registry of the system as it was
  passed and from the fallback force field, and is not a deprecated alias.
\<close>

definition row_name :: "string \<Rightarrow> string" where
  "row_name l = last (py_split l)"

definition missing_type :: "string \<Rightarrow> ptype list \<Rightarrow> ptype list \<Rightarrow> string \<Rightarrow> bool" where
  "missing_type types reg ff name =
     (get_types reg name = [] \<and> get_types ff name = [] \<and>
      \<not> deprecated_alias types name)"


text \<open>
  The invariant of the loop: the registry holds the names it began with and names of
  the force field only, and the two flags of the warnings agree with the warnings
  printed so far.  Then the effect of one row whose type is not missing, and the effect of
  a block of rows.
\<close>

definition typing_inv ::
  "string \<Rightarrow> ptype list \<Rightarrow> ptype list \<Rightarrow> ('f, 'z) typing_state \<Rightarrow> bool" where
  "typing_inv types reg ff st =
     (pt_name ` set (particle_types st) \<subseteq> pt_name ` set reg \<union> pt_name ` set ff \<and>
      pt_name ` set reg \<subseteq> pt_name ` set (particle_types st) \<and>
      count_list (events st) WarnMissingPdb = (if warning_pdb_flag st then 1 else 0) \<and>
      (\<forall>name. count_list (events st) (WarnNotFound name types) =
          (if name \<in> set (missing_types st) then 1 else 0)))"

definition quiet_step ::
  "string \<Rightarrow> ptype list \<Rightarrow> ptype list \<Rightarrow> int \<Rightarrow> ('f, 'z) typing_state \<Rightarrow> ('f, 'z) typing_state \<Rightarrow> bool" where
  "quiet_step types reg ff tag st st' =
     (typing_inv types reg ff st' \<and>
      warning_pdb_flag st' = warning_pdb_flag st \<and>
      count_list (events st') (WritePdb ''Missing_Types.pdb'') =
        count_list (events st) (WritePdb ''Missing_Types.pdb'') \<and>
      (\<forall>n. missing_type types reg ff n \<longrightarrow>
           (n \<in> set (missing_types st') \<longleftrightarrow> n \<in> set (missing_types st))) \<and>
      (\<forall>tg. tg \<noteq> tag \<longrightarrow> particles st' tg = particles st tg))"

definition block_effect ::
  "string \<Rightarrow> ptype list \<Rightarrow> ptype list \<Rightarrow> string list \<Rightarrow> ('f, 'z) typing_state \<Rightarrow> ('f, 'z) typing_state \<Rightarrow> bool" where
  "block_effect types reg ff block st st' =
     (typing_inv types reg ff st' \<and>
      count_list (events st') (WritePdb ''Missing_Types.pdb'') =
        count_list (events st) (WritePdb ''Missing_Types.pdb'') +
        length (filter (\<lambda>l. missing_type types reg ff (row_name l)) block) \<and>
      (warning_pdb_flag st' \<longleftrightarrow>
         warning_pdb_flag st \<or> (\<exists>l \<in> set block. missing_type types reg ff (row_name l))) \<and>
      (\<forall>n. missing_type types reg ff n \<longrightarrow>
          (n \<in> set (missing_types st') \<longleftrightarrow> n \<in> set (missing_types st) \<or> n \<in> row_name ` set block)) \<and>
      (\<forall>tg. (\<forall>l \<in> set block. row_tag l = Some tg \<longrightarrow> missing_type types reg ff (row_name l))
          \<longrightarrow> particles st' tg = particles st tg))"


text \<open>Systems and tool outputs used as concrete inputs.\<close>

definition ac_c6 :: "string list" where
  "ac_c6 = [''CHARGE 0.00 ( 0 )'', ''Formula: C2'',
      ''ATOM 1 C1 MOL 1 0.0 0.0 0.0 0.0 c6'',
      ''ATOM 2 C2 MOL 1 1.5 0.0 0.0 0.0 c6'',
      ''BOND 1 1 2 1 C1 C2'']"

definition ff_c3 :: "ptype list" where
  "ff_c3 = [\<lparr>pt_name = ''c3'', pt_params = ''sp3 carbon''\<rparr>]"

definition ps_two :: "int \<rightharpoonup> string particle" where
  "ps_two = [1 \<mapsto> \<lparr>ptype_of = None, charge = None\<rparr>, 2 \<mapsto> \<lparr>ptype_of = None, charge = None\<rparr>]"

definition ac_zz :: "string list" where
  "ac_zz = [''CHARGE 0.00 ( 0 )'', ''Formula: C2'',
      ''ATOM 1 X1 MOL 1 0.0 0.0 0.0 0.0 zz'',
      ''ATOM 2 X2 MOL 1 1.5 0.0 0.0 0.0 zz'',
      ''BOND 1 1 2 1 X1 X2'']"

definition ac_mixed :: "string list" where
  "ac_mixed = [''CHARGE 0.00 ( 0 )'', ''Formula: C2'',
      ''ATOM 1 X1 MOL 1 0.0 0.0 0.0 0.0 zz'',
      ''ATOM 2 C2 MOL 1 1.5 0.0 0.0 0.0 c3'',
      ''BOND 1 1 2 1 X1 C2'']"


section \<open>pysimm.apps.mc_md\<close>

subsection \<open>Arguments, external collaborators and observable effects\<close>

text \<open>
  The values the arguments of \<^verbatim>\<open>mc_md\<close> can hold, as far as the function looks at them: a
  structural system (\<open>PSys\<close>), a list, \<^verbatim>\<open>None\<close>, and scalars.  A system is given by the
  references to the \<^verbatim>\<open>ParticleType\<close> objects that iterating over its \<^verbatim>\<open>particle_types\<close>
  yields, in order: the only part of a system that \<^verbatim>\<open>mc_md\<close> itself reads or changes.  The
  objects live in a store that maps a reference to the name of the object, so an object
  reached through two systems, or twice through one, is one object, and a change of its
  name is seen through every reference.  \<open>truthy\<close> is the truth value Python gives a
  value in a condition, \<open>py_len\<close> is \<^verbatim>\<open>len\<close> (\<open>None\<close>: TypeError).
\<close>

datatype pyval = PNone | PBool bool | PInt int | PStr string | PList "pyval list"
  | PSys "nat list"

fun truthy :: "pyval \<Rightarrow> bool" where
  "truthy PNone = False"
| "truthy (PBool b) = b"
| "truthy (PInt i) = (i \<noteq> 0)"
| "truthy (PStr s) = (s \<noteq> [])"
| "truthy (PList xs) = (xs \<noteq> [])"
| "truthy (PSys g) = True"

fun py_len :: "pyval \<Rightarrow> nat option" where
  "py_len (PList xs) = Some (length xs)"
| "py_len (PStr s) = Some (length s)"
| "py_len _ = None"

text \<open>
  \<^verbatim>\<open>os.path.join\<close> of two components and the last component of a path
  (\<^verbatim>\<open>os.path.split(f)[1]\<close>), as \<^verbatim>\<open>posixpath\<close> has them, and the two file-name templates of lines
  42 and 43, which hold the folder name.
\<close>

definition path_join :: "string \<Rightarrow> string \<Rightarrow> string" where
  "path_join a b =
     (if b \<noteq> [] \<and> hd b = CHR ''/'' then b
      else if a = [] \<or> last a = CHR ''/'' then a @ b
      else a @ ''/'' @ b)"

definition basename :: "string \<Rightarrow> string" where
  "basename f = rev (takeWhile (\<lambda>ch. ch \<noteq> CHR ''/'') (rev f))"

definition lmps_fname :: "string \<Rightarrow> string" where
  "lmps_fname sim_folder = path_join sim_folder ''{:}.before_md.lmps''"

definition xyz_fname :: "string \<Rightarrow> string" where
  "xyz_fname sim_folder = path_join sim_folder ''{:}.md_out.xyz''"

text \<open>
  \<^verbatim>\<open>template.format(v)\<close> with one positional argument, given by \<^verbatim>\<open>str(v)\<close>.  The scan
  follows the interpreter from left to right, with the number of fields filled so far:
  a doubled brace stands for one brace; a field \<^verbatim>\<open>{}\<close> or \<^verbatim>\<open>{:}\<close> takes the next positional
  argument, and raises IndexError when the one argument is used up; a single closing
  brace, and an opening brace at the end, raise ValueError.  A field of any other form
  (a name, an index, a conversion, a format specification) leaves the part of
  \<^verbatim>\<open>str.format\<close> that is written out here: the scan answers \<open>None\<close>.
\<close>

definition puts :: "string \<Rightarrow> (py_error + string) option \<Rightarrow> (py_error + string) option" where
  "puts s r = (case r of None \<Rightarrow> None | Some (Inl e) \<Rightarrow> Some (Inl e) | Some (Inr t) \<Rightarrow> Some (Inr (s @ t)))"

fun format_scan :: "string \<Rightarrow> nat \<Rightarrow> string \<Rightarrow> (py_error + string) option" where
  "format_scan a i [] = Some (Inr [])"
| "format_scan a i (c # cs) =
     (if c = CHR ''{'' then
        (case cs of
           [] \<Rightarrow> Some (Inl ValueError)
         | d # ds \<Rightarrow>
            if d = CHR ''{'' then puts ''{'' (format_scan a i ds)
            else if d = CHR ''}'' then
              (if i = 0 then puts a (format_scan a (Suc i) ds) else Some (Inl IndexError))
            else if d = CHR '':'' then
              (case ds of
                 [] \<Rightarrow> None
               | e # es \<Rightarrow>
                  if e = CHR ''}'' then
                    (if i = 0 then puts a (format_scan a (Suc i) es) else Some (Inl IndexError))
                  else None)
            else None)
      else if c = CHR ''}'' then
        (case cs of
           [] \<Rightarrow> Some (Inl ValueError)
         | d # ds \<Rightarrow>
            if d = CHR ''}'' then puts ''}'' (format_scan a i ds) else Some (Inl ValueError))
      else puts [c] (format_scan a i cs))"

text \<open>
  The engines are black boxes.  A system is known by how it was produced: the working
  system of a new \<^verbatim>\<open>Cassandra\<close> object; the result of the Monte-Carlo run of iteration \<open>l\<close>
  started from a system; the state of the job of iteration \<open>l\<close> as \<^verbatim>\<open>upd_simulation\<close> re-reads
  it (\<open>Reread\<close>), and that state with the positions and the box taken from a pre-MD file
  (\<open>Resynced\<close>); the result of the MD run of iteration \<open>l\<close> on a system; and a system after
  \<^verbatim>\<open>unwrap_gas\<close>.  \<^verbatim>\<open>copy()\<close> yields an equal value.  The starting composition of a
  Monte-Carlo job is \<^verbatim>\<open>[1] + [0] * n\<close> or \<^verbatim>\<open>[1] + made_ins\<close> of the job of iteration \<open>l\<close>.
  A job is built from the gas systems (\<open>species\<close>); \<open>species_names\<close> are the names their
  particle types bear when the job is built.
\<close>

datatype sysval = CssInitial | AfterMc nat sysval | Reread nat | Resynced nat string
  | AfterMd nat sysval | Unwrapped sysval

datatype composition = Zeros nat | MadeIns nat

record gcmc_job =
  run_name :: string
  props_file :: string
  out_folder :: string
  species :: "nat list list"
  species_names :: "string list list"
  chem_pot :: pyval
  is_rigid :: pyval
  start_species :: composition
  start_file :: "string option"

text \<open>
  The MD settings the function reads: \<^verbatim>\<open>timestep\<close> and \<^verbatim>\<open>length\<close>, each absent, a scalar or a
  list, and \<^verbatim>\<open>dump\<close>, given as the value of \<^verbatim>\<open>int(mdp.get('dump'))\<close> (\<open>None\<close> when the
  conversion raises).  Settings that are only passed through to the adapter (temperature,
  pressure, thermo, cutoff, ...) are not recorded.  The commands added to a simulation
  are kept in order; \<open>RunFor v\<close> is \<^verbatim>\<open>add_custom('run {:}\n'.format(v))\<close>.
\<close>

datatype 'v setting = Unset | Scalar 'v | Seq "'v list"

record 'v md_props =
  timestep :: "'v setting"
  length_of :: "'v setting"
  dump :: "int option"

record 'v md_fix =
  fix_name :: string
  ensemble :: string
  fix_group :: string
  fix_timestep :: "'v setting"
  dilate_all :: bool

datatype 'v cmd =
    Init
  | Custom string
  | RunFor "'v setting"
  | Group string
  | OutputSettings string int
  | Velocity string
  | MolecularDynamics "'v md_fix"

text \<open>
  The calls into the adapters whose failure is followed, by iteration, and what the
  function does to the world, in order.  \<open>SimRun l log cmds np prefix omp\<close> is \<^verbatim>\<open>sim.run\<close> of the
  simulation of iteration \<open>l\<close>, with the value of \<^verbatim>\<open>OMP_NUM_THREADS\<close> at the time of the call.
  A run of \<^verbatim>\<open>mc_md\<close> returns, exits (\<^verbatim>\<open>exit(1)\<close>), or ends with an exception, raised by
  an adapter or by the interpreter.
\<close>

datatype ext_call = CallCssRun nat | CallUpdSimulation nat | CallReadLammps nat | CallSimRun nat

datatype 'v event =
    Print string
  | Remove string
  | Wrap
  | AddGcmc gcmc_job
  | UpdSimulation nat
  | ReadLammps string
  | CssRun nat
  | WriteLammps string sysval
  | SimRun nat string "'v cmd list" "nat option" string "string option"
  | WriteXyz string sysval

datatype outcome = Returned "sysval option" | Exit nat | Raised ext_call | Error py_error

text \<open>
  The arguments.  \<open>mc_props\<close> and \<open>md_props\<close> are \<open>None\<close> when the argument is not given
  or is an empty dictionary; a key that is absent reads as \<^verbatim>\<open>None\<close>, as \<^verbatim>\<open>dict.get\<close> does.
  \<open>restart\<close> is the truth value of \<^verbatim>\<open>kwargs.get('restart')\<close>.

  What the function takes from outside the sources: \<^verbatim>\<open>cassandra.make_iterable\<close>, of which
  the sources give the name only; what \<^verbatim>\<open>glob.glob\<close> answers for a pattern in the file
  system in which the function runs; \<^verbatim>\<open>str.format\<close> on a template with fields that
  \<open>format_scan\<close> does not cover; whether a call into an adapter raises; and the truth value
  of the rigid group \<^verbatim>\<open>css.run_queue[0].group_by_id('rigid')[0]\<close> in iteration \<open>l\<close>.
\<close>

record mc_props =
  chemical_potential_info :: pyval
  rigid_type :: pyval

record 'v args =
  gas_sst :: pyval
  fixed_sst :: pyval
  mc_props :: "mc_props option"
  md_props :: "'v md_props option"
  np :: "nat option"
  prefix :: "string option"
  mcmd_niter :: "int option"
  sim_folder :: "string option"
  restart :: bool

record ext =
  make_iterable :: "pyval \<Rightarrow> pyval"
  glob :: "string \<Rightarrow> string list"
  format_other :: "string \<Rightarrow> string \<Rightarrow> py_error + string"
  fails :: "ext_call \<Rightarrow> bool"
  rigid_mols :: "nat \<Rightarrow> bool"

definition py_format :: "ext \<Rightarrow> string \<Rightarrow> string \<Rightarrow> py_error + string" where
  "py_format x t a = (case format_scan a 0 t of Some r \<Rightarrow> r | None \<Rightarrow> format_other x t a)"

text \<open>
  What INIT leaves for the loop (the iteration count, the folder, the gas systems,
  \<^verbatim>\<open>CHEM_POT\<close>, the rigid flags passed to every job, the MD settings, \<^verbatim>\<open>np\<close>, \<^verbatim>\<open>prefix\<close> and
  the first starting composition), and the variables of the loop: the counter \<^verbatim>\<open>l\<close>,
  \<^verbatim>\<open>is_restart\<close>, \<^verbatim>\<open>css.system\<close>, the two entries of \<^verbatim>\<open>mcp['Start_Type']\<close>, \<^verbatim>\<open>prefix\<close>, the system
  of \<^verbatim>\<open>sim\<close> (\<open>None\<close> while \<^verbatim>\<open>sim\<close> is \<^verbatim>\<open>None\<close>), \<^verbatim>\<open>os.environ\<close>, the names of the particle-type
  objects, and the events so far.
\<close>

record 'v config =
  n_iter :: int
  folder :: string
  gases :: "nat list list"
  CHEM_POT :: pyval
  rigid_flags :: pyval
  mdp :: "'v md_props"
  np_arg :: "nat option"
  prefix_arg :: "string option"
  start0 :: composition

record 'v loop_state =
  l_iter :: nat
  is_restart :: bool
  css_system :: sysval
  start_type_species :: composition
  start_type_file :: "string option"
  prefix_now :: "string option"
  sim :: "sysval option"
  environ :: "string \<rightharpoonup> string"
  type_names :: "nat \<Rightarrow> string"
  trace :: "'v event list"

definition log :: "'v event \<Rightarrow> 'v loop_state \<Rightarrow> 'v loop_state" where
  "log e st = st\<lparr>trace := trace st @ [e]\<rparr>"

subsection \<open>Restart scan\<close>

text \<open>
  Lines 46 to 55.  The pattern of line 49 is the template of the pre-MD file, which holds
  the folder name, after \<^verbatim>\<open>.format('*')\<close>.  For each path that \<^verbatim>\<open>glob\<close> answers,
  \<^verbatim>\<open>re.match('\A\d+', name).group()\<close> is the leading run of digits of its last component and
  raises AttributeError when there is none (among the characters of a \<open>string\<close>, those below
  256, the decimal digits are \<^verbatim>\<open>0\<close> to \<^verbatim>\<open>9\<close>).  The files to remove are what \<^verbatim>\<open>glob\<close> answers
  for the folder joined with \<^verbatim>\<open>'{:}.*'.format(l + 1)\<close> and with \<^verbatim>\<open>'{:}.md*'.format(l)\<close>.
\<close>

fun scan_max :: "string list \<Rightarrow> nat \<Rightarrow> py_error + nat" where
  "scan_max [] l = Inr l"
| "scan_max (f # fs) l =
     (case takeWhile is_digit (basename f) of
        [] \<Rightarrow> Inl AttributeError
      | d # ds \<Rightarrow> scan_max fs (max l (digits_val (d # ds))))"

definition to_purge :: "ext \<Rightarrow> string \<Rightarrow> nat \<Rightarrow> string list" where
  "to_purge x fld l =
     glob x (path_join fld (py_str (l + 1) @ ''.*'')) @
     glob x (path_join fld (py_str l @ ''.md*''))"

definition restart_scan :: "ext \<Rightarrow> string \<Rightarrow> py_error + (nat \<times> string list)" where
  "restart_scan x fld =
     (case py_format x (lmps_fname fld) ''*'' of
        Inl e \<Rightarrow> Inl e
      | Inr pattern \<Rightarrow>
         (case scan_max (glob x pattern) 1 of
            Inl e \<Rightarrow> Inl e
          | Inr l \<Rightarrow> Inr (l, to_purge x fld l)))"

subsection \<open>INIT\<close>

text \<open>
  Lines 56 to 103: the fixed system, the gas systems, the checks of the Monte-Carlo and
  MD settings with their \<^verbatim>\<open>exit(1)\<close>, and the renaming of the particle types of the gases.

  The package is written for Python 3 (\<^verbatim>\<open>amber.py\<close> uses f-strings), whose module \<^verbatim>\<open>types\<close>
  has no attribute \<^verbatim>\<open>ListType\<close>.  So for a true \<^verbatim>\<open>gas_sst\<close> that is not a system the test of
  line 70 raises AttributeError when \<^verbatim>\<open>types.ListType\<close> is evaluated, and lines 71 to 73
  are never reached.

  The renaming \<^verbatim>\<open>pt.name += '_g' + str(gi + 1)\<close> changes the object in place: it is a change
  of the store, made once for each reference that the iteration over the particle types
  of a gas system yields.
\<close>

definition collect_gases :: "pyval \<Rightarrow> py_error + nat list list" where
  "collect_gases g =
     (if truthy g then
        (case g of
           PSys pts \<Rightarrow> Inr [pts]
         | _ \<Rightarrow> Inl AttributeError)
      else Inr [])"

fun rename_system :: "nat \<Rightarrow> nat list \<Rightarrow> (nat \<Rightarrow> string) \<Rightarrow> (nat \<Rightarrow> string)" where
  "rename_system gi [] names = names"
| "rename_system gi (pt # pts) names =
     rename_system gi pts (names(pt := names pt @ ''_g'' @ py_str (gi + 1)))"

fun rename_types :: "nat \<Rightarrow> nat list list \<Rightarrow> (nat \<Rightarrow> string) \<Rightarrow> (nat \<Rightarrow> string)" where
  "rename_types gi [] names = names"
| "rename_types gi (g # gs) names = rename_types (gi + 1) gs (rename_system gi g names)"

definition no_gas_message :: string where
  "no_gas_message = ''There are no gas molecules were specified correctely'' @ [CHR 0x0A] @
     ''The gas molecules are needed to start the MC-MD simulations'' @ [CHR 0x0A] @ ''Exiting...''"

definition mc_md_init ::
  "ext \<Rightarrow> (nat \<Rightarrow> string) \<Rightarrow> 'v args \<Rightarrow>
     (outcome \<times> 'v event list) + ('v config \<times> (nat \<Rightarrow> string) \<times> 'v event list)" where
  "mc_md_init x names a =
     (let ev1 = (if truthy (fixed_sst a)
                 then (case fixed_sst a of
                         PSys _ \<Rightarrow> [Wrap]
                       | _ \<Rightarrow> [Print ''Cannot setup the fixed system for the simulations. Skipping this''])
                 else [])
      in case collect_gases (gas_sst a) of
           Inl e \<Rightarrow> Inl (Error e, ev1)
         | Inr gs \<Rightarrow>
            if gs = [] then Inl (Exit 1, ev1 @ [Print no_gas_message])
            else (case mc_props a of
               None \<Rightarrow> Inl (Exit 1, ev1 @ [Print (''Missing the MC Simulation settings'' @ [CHR 0x0A] @ ''Exiting...'')])
             | Some mcp \<Rightarrow>
                let cp = make_iterable x (chemical_potential_info mcp) in
                if \<not> truthy cp
                then Inl (Exit 1, ev1 @ [Print (''Missing chemical potential info'' @ [CHR 0x0A] @ ''Exiting...'')])
                else (case py_len cp of
                   None \<Rightarrow> Inl (Error TypeError, ev1)
                 | Some k \<Rightarrow>
                    (case md_props a of
                       None \<Rightarrow> Inl (Exit 1, ev1 @ [Print (''Missing the MD Simulation settings'' @ [CHR 0x0A] @ ''Exiting...'')])
                     | Some m \<Rightarrow>
                        Inr (\<lparr>n_iter = (case mcmd_niter a of None \<Rightarrow> 10 | Some i \<Rightarrow> i),
                              folder = (case sim_folder a of None \<Rightarrow> ''results'' | Some f \<Rightarrow> f),
                              gases = gs,
                              CHEM_POT = cp,
                              rigid_flags = (if truthy (rigid_type mcp) then rigid_type mcp
                                             else PList (replicate (length gs) (PBool False))),
                              mdp = m,
                              np_arg = np a,
                              prefix_arg = prefix a,
                              start0 = Zeros k\<rparr>, rename_types 0 gs names, ev1)))))"

subsection \<open>The Monte-Carlo phase\<close>

text \<open>
  Lines 107 to 127: the job is added to the queue; then, on the resumed first iteration,
  the job's state is re-read and becomes the working system, the frame positions and the
  box are taken from the pre-MD file of the iteration, and \<^verbatim>\<open>is_restart\<close> is cleared; on
  every other iteration the engine is run and its system is written to the pre-MD file.
  The name of the pre-MD file is \<^verbatim>\<open>lmps_fname.format(l)\<close>, which can raise.
\<close>

definition mc_phase ::
  "ext \<Rightarrow> 'v config \<Rightarrow> 'v loop_state \<Rightarrow> outcome option \<times> 'v loop_state" where
  "mc_phase x c st =
     (let l = l_iter st;
          st1 = log (AddGcmc \<lparr>run_name = py_str l @ ''.gcmc'',
                              props_file = py_str l @ ''.gcmc_props.inp'',
                              out_folder = folder c,
                              species = gases c,
                              species_names = map (map (type_names st)) (gases c),
                              chem_pot = CHEM_POT c,
                              is_rigid = rigid_flags c,
                              start_species = start_type_species st,
                              start_file = start_type_file st\<rparr>) st
      in if is_restart st then
           (let st2 = log (UpdSimulation l) st1 in
            if fails x (CallUpdSimulation l) then (Some (Raised (CallUpdSimulation l)), st2)
            else
              (let st3 = st2\<lparr>css_system := Reread l\<rparr> in
               case py_format x (lmps_fname (folder c)) (py_str l) of
                 Inl e \<Rightarrow> (Some (Error e), st3)
               | Inr fname \<Rightarrow>
                  (let st4 = log (ReadLammps fname) st3 in
                   if fails x (CallReadLammps l) then (Some (Raised (CallReadLammps l)), st4)
                   else (None, st4\<lparr>css_system := Resynced l fname, is_restart := False\<rparr>))))
         else
           (let st2 = log (CssRun l) st1 in
            if fails x (CallCssRun l) then (Some (Raised (CallCssRun l)), st2)
            else
              (let sys = AfterMc l (css_system st);
                   st3 = st2\<lparr>css_system := sys\<rparr>
               in case py_format x (lmps_fname (folder c)) (py_str l) of
                    Inl e \<Rightarrow> (Some (Error e), st3)
                  | Inr fname \<Rightarrow> (None, log (WriteLammps fname sys) st3))))"

subsection \<open>The Molecular-Dynamics phase\<close>

text \<open>
  Lines 129 to 231.  \<open>stage\<close> is the body of the loop over the (timestep, length) pairs,
  \<open>md_script\<close> the commands added to the simulation of iteration \<open>l\<close> (\<^verbatim>\<open>sim.add\<close>,
  \<^verbatim>\<open>sim.add_md\<close> and \<^verbatim>\<open>sim.add_custom\<close> alike append one command), and \<open>md_phase\<close> the phase
  with the environment variable and the run.
\<close>

definition nonrig_group_name :: string where
  "nonrig_group_name = ''nonrigid_b''"

definition rig_group_name :: string where
  "rig_group_name = ''rigid_b''"

definition neighbor_settings :: string where
  "neighbor_settings = ''neighbor 2.0 bin '' @ [CHR 0x0A] @
     ''neigh_modify delay 0 every 1 check yes '' @ [CHR 0x0A] @ ''run_style verlet''"

definition stage :: "bool \<Rightarrow> nat \<times> 'v \<times> 'v \<Rightarrow> 'v cmd list" where
  "stage rigid = (\<lambda>(it, t, lng).
     [Velocity ''create''] @
     (if rigid then [Custom ''run 0'', Velocity ''scale''] else []) @
     (if rigid
      then [MolecularDynamics \<lparr>fix_name = ''rig_fix_'' @ py_str it,
                               ensemble = ''rigid/nvt/small molecule'',
                               fix_group = rig_group_name,
                               fix_timestep = Scalar t,
                               dilate_all = False\<rparr>]
      else []) @
     [MolecularDynamics \<lparr>fix_name = ''main_fix_'' @ py_str it,
                          ensemble = ''npt'',
                          fix_group = (if rigid then nonrig_group_name else ''all''),
                          fix_timestep = Scalar t,
                          dilate_all = rigid\<rparr>,
      Custom (''fix        tether_fix_'' @ py_str it @ '' matrix spring tether 30.0 0.0 0.0 0.0 0.0''),
      RunFor (Scalar lng),
      Custom (''unfix main_fix_'' @ py_str it),
      Custom (''unfix rig_fix_'' @ py_str it),
      Custom (''unfix tether_fix_'' @ py_str it)])"

definition md_script :: "'v md_props \<Rightarrow> string \<Rightarrow> nat \<Rightarrow> bool \<Rightarrow> py_error + 'v cmd list" where
  "md_script m sim_dir l rigid =
     (let head = [Init, Custom neighbor_settings, Group ''matrix'', Group nonrig_group_name] @
                 (if rigid then [Group rig_group_name] else []);
          dump_file = path_join sim_dir (py_str l @ ''.md.dump'')
      in case timestep m of
           Seq ts \<Rightarrow>
             (case dump m of
                None \<Rightarrow> Inl TypeError
              | Some freq \<Rightarrow>
                 (case length_of m of
                    Seq ls \<Rightarrow>
                      Inr (head @ [OutputSettings dump_file freq] @
                           concat (map (stage rigid) (enumerate 0 (zip ts ls))))
                  | _ \<Rightarrow> Inl TypeError))
         | _ \<Rightarrow>
             (case dump m of
                None \<Rightarrow> Inl TypeError
              | Some freq \<Rightarrow>
                 Inr (head @
                      (if rigid
                       then [MolecularDynamics \<lparr>fix_name = ''rig_fix'',
                                                ensemble = ''rigid/nvt/small molecule'',
                                                fix_group = rig_group_name,
                                                fix_timestep = timestep m,
                                                dilate_all = False\<rparr>]
                       else []) @
                      [MolecularDynamics \<lparr>fix_name = ''main_fix'',
                                           ensemble = ''npt'',
                                           fix_group = (if rigid then nonrig_group_name else ''all''),
                                           fix_timestep = timestep m,
                                           dilate_all = rigid\<rparr>,
                       Custom ''fix tether_fix matrix spring tether 30.0 0.0 0.0 0.0 0.0'',
                       OutputSettings dump_file freq,
                       RunFor (length_of m)])))"

definition md_phase ::
  "ext \<Rightarrow> 'v config \<Rightarrow> 'v loop_state \<Rightarrow> outcome option \<times> 'v loop_state" where
  "md_phase x c st =
     (let l = l_iter st;
          nm_treads = (case environ st ''OMP_NUM_THREADS'' of None \<Rightarrow> ''1'' | Some v \<Rightarrow> v);
          st1 = st\<lparr>environ := (environ st)(''OMP_NUM_THREADS'' \<mapsto> ''1'')\<rparr>;
          sim_sst = css_system st;
          st2 = log (WriteLammps (path_join (folder c) (py_str l @ ''.before_md.lmps'')) sim_sst) st1
      in case md_script (mdp c) (folder c) l (rigid_mols x l) of
           Inl e \<Rightarrow> (Some (Error e), st2)
         | Inr script \<Rightarrow>
            (let st3 = (case np_arg c of
                          None \<Rightarrow> log (Print ''[INFO]: np not specified, defaulting to serial'') st2
                        | Some n \<Rightarrow>
                           (case prefix_now st2 of
                              None \<Rightarrow> (log (Print ''[INFO]: Prefix not specified, defaulting to mpiexec'') st2)
                                        \<lparr>prefix_now := Some ''mpiexec''\<rparr>
                            | Some p \<Rightarrow> st2));
                 st4 = log (SimRun l (path_join (folder c) (py_str l @ ''.md.log'')) script
                              (np_arg c)
                              (case np_arg c of None \<Rightarrow> ''[]''
                               | Some n \<Rightarrow> (case prefix_now st3 of None \<Rightarrow> [] | Some p \<Rightarrow> p))
                              (environ st3 ''OMP_NUM_THREADS'')) st3
             in if fails x (CallSimRun l) then (Some (Raised (CallSimRun l)), st4)
                else (None, st4\<lparr>environ := (environ st4)(''OMP_NUM_THREADS'' \<mapsto> nm_treads),
                                sim := Some (AfterMd l sim_sst)\<rparr>)))"

text \<open>
  Lines 233 to 241: the working system becomes a copy of the system of \<^verbatim>\<open>sim\<close> with the
  gas molecules unwrapped, it is written to the post-MD coordinate file, whose name
  \<^verbatim>\<open>xyz_fname.format(l)\<close> can raise, the next starting composition is set and the counter
  is advanced.  (\<^verbatim>\<open>sim.system\<close> raises AttributeError while \<^verbatim>\<open>sim\<close> is \<^verbatim>\<open>None\<close>.)
\<close>

definition hand_over ::
  "ext \<Rightarrow> 'v config \<Rightarrow> 'v loop_state \<Rightarrow> outcome option \<times> 'v loop_state" where
  "hand_over x c st =
     (let l = l_iter st in
      case sim st of
        None \<Rightarrow> (Some (Error AttributeError), st)
      | Some out \<Rightarrow>
         (let st1 = st\<lparr>css_system := Unwrapped out\<rparr> in
          case py_format x (xyz_fname (folder c)) (py_str l) of
            Inl e \<Rightarrow> (Some (Error e), st1)
          | Inr fname \<Rightarrow>
             (None, (log (WriteXyz fname (Unwrapped out)) st1)
                      \<lparr>start_type_file := Some fname,
                       start_type_species := MadeIns l,
                       l_iter := l + 1\<rparr>)))"

subsection \<open>The loop and the whole function\<close>

definition iteration ::
  "ext \<Rightarrow> 'v config \<Rightarrow> 'v loop_state \<Rightarrow> outcome option \<times> 'v loop_state" where
  "iteration x c st =
     (case mc_phase x c st of
        (Some e, st1) \<Rightarrow> (Some e, st1)
      | (None, st1) \<Rightarrow>
         (case md_phase x c st1 of
            (Some e, st2) \<Rightarrow> (Some e, st2)
          | (None, st2) \<Rightarrow> hand_over x c st2))"

lemma mc_phase_l: "mc_phase x c st = (r, st1) \<Longrightarrow> l_iter st1 = l_iter st"
  by (auto simp add: mc_phase_def Let_def log_def split: if_splits sum.splits)

lemma md_phase_l: "md_phase x c st = (r, st1) \<Longrightarrow> l_iter st1 = l_iter st"
  by (auto simp add: md_phase_def Let_def log_def split: if_splits sum.splits option.splits)

lemma hand_over_l: "hand_over x c st = (None, st1) \<Longrightarrow> l_iter st1 = l_iter st + 1"
  by (auto simp add: hand_over_def Let_def log_def split: sum.splits option.splits)

lemma iteration_l:
  assumes "iteration x c st = (None, st3)"
  shows "l_iter st3 = l_iter st + 1"
proof -
  obtain r1 st1 where mc: "mc_phase x c st = (r1, st1)" by (cases "mc_phase x c st") blast
  obtain r2 st2 where md: "md_phase x c st1 = (r2, st2)" by (cases "md_phase x c st1") blast
  from assms mc have r1: "r1 = None" by (cases r1) (simp_all add: iteration_def)
  from assms mc md r1 have r2: "r2 = None" by (cases r2) (simp_all add: iteration_def)
  from assms mc md r1 r2 have ho: "hand_over x c st2 = (None, st3)" by (simp add: iteration_def)
  from mc_phase_l [OF mc] md_phase_l [OF md] hand_over_l [OF ho] show ?thesis by simp
qed

function mc_md_loop ::
  "ext \<Rightarrow> 'v config \<Rightarrow> 'v loop_state \<Rightarrow> outcome \<times> 'v loop_state" where
  "mc_md_loop x c st =
     (if int (l_iter st) < n_iter c + 1 then
        (case iteration x c st of
           (Some e, st1) \<Rightarrow> (e, st1)
         | (None, st1) \<Rightarrow> mc_md_loop x c st1)
      else (Returned (sim st), st))"
  by pat_completeness auto
termination
proof (relation "measure (\<lambda>(x, c, st). nat (n_iter c + 1 - int (l_iter st)))", goal_cases)
  case 1
  show ?case by simp
next
  case (2 x c st p st1)
  then have "iteration x c st = (None, st1)" by simp
  then have "l_iter st1 = l_iter st + 1" by (rule iteration_l)
  with 2 show ?case by simp
qed

declare mc_md_loop.simps [simp del]

text \<open>
  The whole function: the scan when restart is requested, INIT, and the loop, started
  with the counter the scan has left.  A run is observed by the way it ends, the
  environment and the names of the particle-type objects it leaves, and its events.
\<close>

record 'v result =
  outcome_of :: outcome
  final_environ :: "string \<rightharpoonup> string"
  final_names :: "nat \<Rightarrow> string"
  final_trace :: "'v event list"

definition mc_md ::
  "ext \<Rightarrow> (string \<rightharpoonup> string) \<Rightarrow> (nat \<Rightarrow> string) \<Rightarrow> 'v args \<Rightarrow> 'v result" where
  "mc_md x env names a =
     (let fld = (case sim_folder a of None \<Rightarrow> ''results'' | Some f \<Rightarrow> f) in
      case (if restart a then restart_scan x fld else Inr (1, [])) of
        Inl e \<Rightarrow> \<lparr>outcome_of = Error e, final_environ = env, final_names = names, final_trace = []\<rparr>
      | Inr (l, purge) \<Rightarrow>
         (let ev0 = map Remove purge
          in case mc_md_init x names a of
               Inl (out, ev) \<Rightarrow>
                 \<lparr>outcome_of = out, final_environ = env, final_names = names, final_trace = ev0 @ ev\<rparr>
             | Inr (c, names1, ev) \<Rightarrow>
                (case mc_md_loop x c
                        \<lparr>l_iter = l, is_restart = restart a, css_system = CssInitial,
                         start_type_species = start0 c, start_type_file = None,
                         prefix_now = prefix_arg c, sim = None, environ = env,
                         type_names = names1, trace = ev0 @ ev\<rparr> of
                   (out, st) \<Rightarrow>
                     \<lparr>outcome_of = out, final_environ = environ st, final_names = type_names st,
                      final_trace = trace st\<rparr>)))"

subsection \<open>What the claims about mc_md speak of\<close>

text \<open>
  The artifacts of a run, read off its events in order: the files it deletes, the run
  name and the properties file of each Monte-Carlo job, each launch of the Monte-Carlo
  engine, each re-reading of a job's state and of a checkpoint, each pre-MD file written
  and the system written to it, the log and the dump file of each MD run, and each
  post-MD coordinate file written and the system written to it.
\<close>

datatype artifact =
    Deleted string
  | McRunName string
  | McPropsFile string
  | McLaunch nat
  | StateReread nat
  | CheckpointRead string
  | PreMd string sysval
  | MdLog string
  | MdDump string
  | PostMd string sysval

fun dump_file_of :: "'v cmd \<Rightarrow> string list" where
  "dump_file_of (OutputSettings f freq) = [f]"
| "dump_file_of _ = []"

fun digest :: "'v event \<Rightarrow> artifact list" where
  "digest (Remove p) = [Deleted p]"
| "digest (AddGcmc job) = [McRunName (run_name job), McPropsFile (props_file job)]"
| "digest (CssRun l) = [McLaunch l]"
| "digest (UpdSimulation l) = [StateReread l]"
| "digest (ReadLammps p) = [CheckpointRead p]"
| "digest (WriteLammps p s) = [PreMd p s]"
| "digest (SimRun l lg cmds n p e) = MdLog lg # map MdDump (concat (map dump_file_of cmds))"
| "digest (WriteXyz p s) = [PostMd p s]"
| "digest _ = []"

definition digests :: "'v event list \<Rightarrow> artifact list" where
  "digests tr = concat (map digest tr)"

text \<open>
  The artifacts of iteration \<open>i\<close> in the spec's naming convention.  The MD phase on a
  working system \<open>s\<close> writes \<open>s\<close> to the pre-MD file, runs the engine with its log and
  dump, and writes the unwrapped result of the run to the post-MD file.  An iteration that
  starts from the working system \<open>s\<close> and launches the Monte-Carlo engine hands the result
  of the Monte-Carlo run to the MD phase (the pre-MD file is written after the Monte-Carlo
  run and again before the MD run); an iteration resumed from its checkpoint hands over
  the re-read state of its job with the positions and the box of its pre-MD file.
  \<open>fresh_run\<close> are the artifacts of successive iterations with launches, each starting
  from the unwrapped result of the one before, and \<open>last_sim\<close> is the system of the last MD
  run among them.
\<close>

definition md_artifacts :: "string \<Rightarrow> nat \<Rightarrow> sysval \<Rightarrow> artifact list" where
  "md_artifacts sim_dir i s =
     [PreMd (path_join sim_dir (py_str i @ ''.before_md.lmps'')) s,
      MdLog (path_join sim_dir (py_str i @ ''.md.log'')),
      MdDump (path_join sim_dir (py_str i @ ''.md.dump'')),
      PostMd (path_join sim_dir (py_str i @ ''.md_out.xyz'')) (Unwrapped (AfterMd i s))]"

definition fresh_iteration :: "string \<Rightarrow> nat \<Rightarrow> sysval \<Rightarrow> artifact list" where
  "fresh_iteration sim_dir i s =
     [McRunName (py_str i @ ''.gcmc''), McPropsFile (py_str i @ ''.gcmc_props.inp''),
      McLaunch i, PreMd (path_join sim_dir (py_str i @ ''.before_md.lmps'')) (AfterMc i s)] @
     md_artifacts sim_dir i (AfterMc i s)"

definition resynced :: "string \<Rightarrow> nat \<Rightarrow> sysval" where
  "resynced sim_dir i = Resynced i (path_join sim_dir (py_str i @ ''.before_md.lmps''))"

definition resumed_iteration :: "string \<Rightarrow> nat \<Rightarrow> artifact list" where
  "resumed_iteration sim_dir i =
     [McRunName (py_str i @ ''.gcmc''), McPropsFile (py_str i @ ''.gcmc_props.inp''),
      StateReread i, CheckpointRead (path_join sim_dir (py_str i @ ''.before_md.lmps''))] @
     md_artifacts sim_dir i (resynced sim_dir i)"

fun fresh_run :: "string \<Rightarrow> sysval \<Rightarrow> nat list \<Rightarrow> artifact list" where
  "fresh_run sim_dir s [] = []"
| "fresh_run sim_dir s (i # js) =
     fresh_iteration sim_dir i s @ fresh_run sim_dir (Unwrapped (AfterMd i (AfterMc i s))) js"

fun last_sim :: "sysval option \<Rightarrow> sysval \<Rightarrow> nat list \<Rightarrow> sysval option" where
  "last_sim r s [] = r"
| "last_sim r s (i # js) =
     last_sim (Some (AfterMd i (AfterMc i s))) (Unwrapped (AfterMd i (AfterMc i s))) js"

text \<open>
  MD settings from which the MD job can be built: \<^verbatim>\<open>dump\<close> converts to an integer, and
  \<^verbatim>\<open>length\<close> is a list when \<^verbatim>\<open>timestep\<close> is.  A folder name without braces, which
  \<^verbatim>\<open>str.format\<close> leaves as it is.  The simulation folder and the iteration count with their
  defaults, the scan as \<^verbatim>\<open>mc_md\<close> performs it, and the state in which the loop starts.
\<close>

definition md_settings_ok :: "'v md_props \<Rightarrow> bool" where
  "md_settings_ok m =
     (dump m \<noteq> None \<and>
      (case timestep m of Seq ts \<Rightarrow> (case length_of m of Seq ls \<Rightarrow> True | _ \<Rightarrow> False) | _ \<Rightarrow> True))"

definition brace_free :: "string \<Rightarrow> bool" where
  "brace_free s = (CHR ''{'' \<notin> set s \<and> CHR ''}'' \<notin> set s)"

definition sim_dir :: "'v args \<Rightarrow> string" where
  "sim_dir a = (case sim_folder a of None \<Rightarrow> ''results'' | Some f \<Rightarrow> f)"

definition iterations :: "'v args \<Rightarrow> int" where
  "iterations a = (case mcmd_niter a of None \<Rightarrow> 10 | Some i \<Rightarrow> i)"

definition scan_of :: "ext \<Rightarrow> 'v args \<Rightarrow> py_error + (nat \<times> string list)" where
  "scan_of x a = (if restart a then restart_scan x (sim_dir a) else Inr (1, []))"

definition start_state ::
  "'v config \<Rightarrow> nat \<Rightarrow> bool \<Rightarrow> (string \<rightharpoonup> string) \<Rightarrow> (nat \<Rightarrow> string) \<Rightarrow> 'v event list \<Rightarrow>
     'v loop_state" where
  "start_state c l r env names tr =
     \<lparr>l_iter = l, is_restart = r, css_system = CssInitial,
      start_type_species = start0 c, start_type_file = None,
      prefix_now = prefix_arg c, sim = None, environ = env, type_names = names, trace = tr\<rparr>"

text \<open>
  The pre-MD checkpoint files of the simulation folder, as \<^verbatim>\<open>glob\<close> lists them.
\<close>

definition checkpoints :: "ext \<Rightarrow> 'v args \<Rightarrow> string list" where
  "checkpoints x a = glob x (path_join (sim_dir a) ''*.before_md.lmps'')"

text \<open>
  What holds of every event the loop adds when it starts in iteration \<open>l\<close>, resuming
  (\<open>r\<close>) or not, with the particle types named by \<open>names\<close>: every Monte-Carlo job is
  given the gas systems, whose particle types bear these names when the job is built;
  and the Monte-Carlo engine is launched for iterations from \<open>l\<close> on only, and not for
  \<open>l\<close> itself when resuming.
\<close>

fun ev_ok :: "'v config \<Rightarrow> (nat \<Rightarrow> string) \<Rightarrow> nat \<Rightarrow> bool \<Rightarrow> 'v event \<Rightarrow> bool" where
  "ev_ok c names l r (AddGcmc job) =
     (species job = gases c \<and> species_names job = map (map names) (gases c))"
| "ev_ok c names l r (CssRun i) = (l \<le> i \<and> (r \<longrightarrow> l < i))"
| "ev_ok c names l r _ = True"

fun not_exit :: "outcome \<Rightarrow> bool" where
  "not_exit (Exit n) = False"
| "not_exit _ = True"

text \<open>
  Concrete arguments, collaborators and states.  The arguments name one gas system with
  the particle types \<^verbatim>\<open>C1\<close> and \<^verbatim>\<open>H1\<close> and a fixed system with the type \<^verbatim>\<open>c3\<close>.  In the file
  system of \<open>ext_example\<close> no pattern matches; in that of \<open>ext_resume\<close> the simulation
  folder \<^verbatim>\<open>results\<close> is as left after iteration 1 completed and iteration 2 began.
\<close>

definition ext_example :: ext where
  "ext_example = \<lparr>make_iterable = (\<lambda>v. case v of PList _ \<Rightarrow> v | PStr _ \<Rightarrow> v | _ \<Rightarrow> PList [v]),
     glob = (\<lambda>_. []), format_other = (\<lambda>_ _. Inl ValueError),
     fails = (\<lambda>_. False), rigid_mols = (\<lambda>_. False)\<rparr>"

definition glob_resume :: "string \<Rightarrow> string list" where
  "glob_resume p =
     (if p = ''results/*.before_md.lmps'' then [''results/1.before_md.lmps'']
      else if p = ''results/2.*'' then [''results/2.gcmc.chk'']
      else if p = ''results/1.md*'' then [''results/1.md.log'', ''results/1.md_out.xyz'']
      else [])"

definition ext_resume :: ext where
  "ext_resume = ext_example\<lparr>glob := glob_resume\<rparr>"

definition names_example :: "nat \<Rightarrow> string" where
  "names_example pt = (if pt = 0 then ''C1'' else if pt = 1 then ''H1'' else ''c3'')"

definition args_example :: "nat args" where
  "args_example = \<lparr>gas_sst = PSys [0, 1],
     fixed_sst = PSys [2],
     mc_props = Some \<lparr>chemical_potential_info = PList [PInt (-30)], rigid_type = PNone\<rparr>,
     md_props = Some \<lparr>timestep = Seq [1, 2], length_of = Seq [1000, 2000], dump = Some 100\<rparr>,
     np = None, prefix = None, mcmd_niter = Some 2, sim_folder = None, restart = False\<rparr>"

definition cfg_example :: "nat config" where
  "cfg_example = \<lparr>n_iter = 3, folder = ''results'', gases = [[0]],
     CHEM_POT = PList [PInt (-30)], rigid_flags = PList [PBool False],
     mdp = \<lparr>timestep = Seq [1], length_of = Seq [1000], dump = Some 100\<rparr>,
     np_arg = None, prefix_arg = None, start0 = Zeros 1\<rparr>"

definition st_example :: "nat loop_state" where
  "st_example = \<lparr>l_iter = 3, is_restart = False, css_system = AfterMc 3 CssInitial,
     start_type_species = Zeros 1, start_type_file = None, prefix_now = None, sim = None,
     environ = [''OMP_NUM_THREADS'' \<mapsto> ''8''], type_names = (\<lambda>_. ''C1_g1''), trace = []\<rparr>"

section \<open>Properties of pysimm.amber\<close>

subsection \<open>calc_charges\<close>

lemma charges_loop_frame:
  "charges_loop F ls ps = (ps', r) \<Longrightarrow>
     dom ps' = dom ps \<and>
     (\<forall>tag p p'. ps tag = Some p \<and> ps' tag = Some p' \<longrightarrow> ptype_of p' = ptype_of p \<and> particle.more p' = particle.more p) \<and>
     (\<forall>tag. (\<forall>l \<in> set (takeWhile is_atom_row ls). row_tag l \<noteq> Some tag) \<longrightarrow> ps' tag = ps tag)"
proof (induction ls arbitrary: ps)
  case Nil
  then show ?case by auto
next
  case (Cons line rest)
  show ?case
  proof (cases "py_split line")
    case Nil
    with Cons.prems show ?thesis by (auto simp add: is_atom_row_def)
  next
    case (Cons w ws)
    note sp = this
    show ?thesis
    proof (cases "w = ''ATOM''")
      case False
      with Cons.prems sp show ?thesis by (auto simp add: is_atom_row_def)
    next
      case True
      note atom = this
      have row: "is_atom_row line" using sp atom by (simp add: is_atom_row_def)
      show ?thesis
      proof (cases "\<exists>t ts tag c p. ws = t # ts \<and> py_int t = Some tag \<and>
             Option.bind (second_to_last (w # ws)) F = Some c \<and> ps tag = Some p")
        case False
        have "ps' = ps"
        proof (cases ws)
          case Nil
          with Cons.prems sp atom show ?thesis by simp
        next
          case (Cons t ts)
          with Cons.prems sp atom False show ?thesis
            by (simp split: option.splits)
        qed
        then show ?thesis by auto
      next
        case True
        then obtain t ts tag c p where h: "ws = t # ts" "py_int t = Some tag"
          "Option.bind (second_to_last (w # ws)) F = Some c" "ps tag = Some p" by blast
        let ?ps1 = "ps(tag \<mapsto> p\<lparr>charge := Some c\<rparr>)"
        have run: "charges_loop F rest ?ps1 = (ps', r)"
          using Cons.prems sp atom h by simp
        note ih0 = Cons.IH [OF run]
        note ih1 = ih0 [THEN conjunct1]
        note ih = ih0 [THEN conjunct2, THEN conjunct1]
        note ih3 = ih0 [THEN conjunct2, THEN conjunct2]
        have rt: "row_tag line = Some tag" using sp h by (simp add: row_tag_def)
        have "tag \<in> dom ps" using h(4) by blast
        then have "dom ?ps1 = dom ps" by (simp only: dom_fun_upd option.simps if_False insert_absorb)
        with ih1 have d: "dom ps' = dom ps" by (rule_tac trans)
        have f: "\<forall>tg q q'. ps tg = Some q \<and> ps' tg = Some q' \<longrightarrow> ptype_of q' = ptype_of q \<and> particle.more q' = particle.more q"
        proof (intro allI impI)
          fix tg q q'
          assume a: "ps tg = Some q \<and> ps' tg = Some q'"
          show "ptype_of q' = ptype_of q \<and> particle.more q' = particle.more q"
          proof (cases "tg = tag")
            case True
            then have "?ps1 tg = Some (p\<lparr>charge := Some c\<rparr>)" by simp
            with ih a have "ptype_of q' = ptype_of (p\<lparr>charge := Some c\<rparr>) \<and>
                 particle.more q' = particle.more (p\<lparr>charge := Some c\<rparr>)" by blast
            moreover have "q = p" using a h True by simp
            ultimately show ?thesis by simp
          next
            case False
            then have "?ps1 tg = Some q" using a by simp
            with ih a show ?thesis by blast
          qed
        qed
        have u: "\<forall>tg. (\<forall>l \<in> set (takeWhile is_atom_row (line # rest)). row_tag l \<noteq> Some tg) \<longrightarrow> ps' tg = ps tg"
        proof (intro allI impI)
          fix tg
          assume a: "\<forall>l \<in> set (takeWhile is_atom_row (line # rest)). row_tag l \<noteq> Some tg"
          then have ne: "tg \<noteq> tag" using row rt by auto
          from a row have "\<forall>l \<in> set (takeWhile is_atom_row rest). row_tag l \<noteq> Some tg" by simp
          with ih3 have "ps' tg = ?ps1 tg" by blast
          with ne show "ps' tg = ps tg" by simp
        qed
        from d f u show ?thesis by blast
      qed
    qed
  qed
qed


lemma find_snoc:
  "find P (xs @ [x]) = (case find P xs of None \<Rightarrow> (if P x then Some x else None) | Some y \<Rightarrow> Some y)"
  by (induction xs) auto

lemma charges_loop_ok:
  "charges_loop F ls ps = (ps', None) \<Longrightarrow>
     (\<exists>stop rest. ls = takeWhile is_atom_row ls @ stop # rest \<and> py_split stop \<noteq> [] \<and> \<not> is_atom_row stop) \<and>
     (\<forall>tag. ps' tag =
        (case find (\<lambda>l. row_tag l = Some tag) (rev (takeWhile is_atom_row ls)) of
           None \<Rightarrow> ps tag
         | Some l \<Rightarrow> map_option (\<lambda>p. p\<lparr>charge := row_charge F l\<rparr>) (ps tag)))"
proof (induction ls arbitrary: ps)
  case Nil
  then show ?case by simp
next
  case (Cons line rest)
  show ?case
  proof (cases "py_split line")
    case Nil
    with Cons.prems show ?thesis by simp
  next
    case (Cons w ws)
    note sp = this
    show ?thesis
    proof (cases "w = ''ATOM''")
      case False
      with Cons.prems sp have "ps' = ps" by simp
      moreover have "\<not> is_atom_row line" using sp False by (simp add: is_atom_row_def)
      ultimately show ?thesis using sp by simp
    next
      case True
      note atom = this
      have row: "is_atom_row line" using sp atom by (simp add: is_atom_row_def)
      have "\<exists>t ts tag c p. ws = t # ts \<and> py_int t = Some tag \<and>
             Option.bind (second_to_last (w # ws)) F = Some c \<and> ps tag = Some p"
      proof (cases ws)
        case Nil
        with Cons.prems sp atom show ?thesis by simp
      next
        case (Cons t ts)
        with Cons.prems sp atom show ?thesis
          by (simp split: option.splits)
      qed
      then obtain t ts tag c p where h: "ws = t # ts" "py_int t = Some tag"
          "Option.bind (second_to_last (w # ws)) F = Some c" "ps tag = Some p" by blast
      let ?ps1 = "ps(tag \<mapsto> p\<lparr>charge := Some c\<rparr>)"
      have run: "charges_loop F rest ?ps1 = (ps', None)"
        using Cons.prems sp atom h by simp
      note ih0 = Cons.IH [OF run]
      note ih1 = ih0 [THEN conjunct1]
      note ih2 = ih0 [THEN conjunct2]
      have rt: "row_tag line = Some tag" using sp h by (simp add: row_tag_def)
      have rc: "row_charge F line = Some c" using sp h by (simp add: row_charge_def)
      from ih1 obtain stop rest' where st: "rest = takeWhile is_atom_row rest @ stop # rest'"
        "py_split stop \<noteq> []" "\<not> is_atom_row stop" by blast
      have a: "\<exists>stop rest'. line # rest = takeWhile is_atom_row (line # rest) @ stop # rest' \<and>
            py_split stop \<noteq> [] \<and> \<not> is_atom_row stop"
        using st row by auto
      have b: "\<forall>tg. ps' tg =
        (case find (\<lambda>l. row_tag l = Some tg) (rev (takeWhile is_atom_row (line # rest))) of
           None \<Rightarrow> ps tg
         | Some l \<Rightarrow> map_option (\<lambda>p. p\<lparr>charge := row_charge F l\<rparr>) (ps tg))"
      proof
        fix tg
        from ih2 have e: "ps' tg =
          (case find (\<lambda>l. row_tag l = Some tg) (rev (takeWhile is_atom_row rest)) of
             None \<Rightarrow> ?ps1 tg
           | Some l \<Rightarrow> map_option (\<lambda>p. p\<lparr>charge := row_charge F l\<rparr>) (?ps1 tg))" by blast
        show "ps' tg =
          (case find (\<lambda>l. row_tag l = Some tg) (rev (takeWhile is_atom_row (line # rest))) of
             None \<Rightarrow> ps tg
           | Some l \<Rightarrow> map_option (\<lambda>p. p\<lparr>charge := row_charge F l\<rparr>) (ps tg))"
          using e row rt rc h(4)
          by (cases "tg = tag") (simp_all add: find_snoc split: option.splits)
      qed
      from a b show ?thesis by blast
    qed
  qed
qed


lemma calc_charges_frame_aux:
  assumes "calc_charges to_float ac ps = (ps', r)"
  shows "dom ps' = dom ps \<and>
     (\<forall>tag p p'. ps tag = Some p \<and> ps' tag = Some p' \<longrightarrow>
            ptype_of p' = ptype_of p \<and> particle.more p' = particle.more p) \<and>
     (\<forall>tag. (\<forall>l \<in> set (atom_block ac). row_tag l \<noteq> Some tag) \<longrightarrow> ps' tag = ps tag)"
proof (cases ac)
  case None
  with assms have "ps' = ps" by (simp add: calc_charges_def)
  then show ?thesis by auto
next
  case (Some lines)
  with assms have "charges_loop to_float (drop 2 lines) ps = (ps', r)"
    by (simp add: calc_charges_def)
  from charges_loop_frame [OF this] Some show ?thesis by (simp add: atom_block_def)
qed

lemma calc_charges_ok_aux:
  assumes "calc_charges to_float ac ps = (ps', None)"
  shows "(\<exists>lines stop rest. ac = Some lines \<and> drop 2 lines = atom_block ac @ stop # rest \<and>
               py_split stop \<noteq> [] \<and> \<not> is_atom_row stop) \<and>
           (\<forall>tag. ps' tag =
              (case find (\<lambda>l. row_tag l = Some tag) (rev (atom_block ac)) of
                 None \<Rightarrow> ps tag
               | Some l \<Rightarrow> map_option (\<lambda>p. p\<lparr>charge := row_charge to_float l\<rparr>) (ps tag)))"
proof (cases ac)
  case None
  with assms show ?thesis by (simp add: calc_charges_def)
next
  case (Some lines)
  with assms have "charges_loop to_float (drop 2 lines) ps = (ps', None)"
    by (simp add: calc_charges_def)
  from charges_loop_ok [OF this] Some show ?thesis by (simp add: atom_block_def)
qed

text \<open>
  C10.  However the run of \<^verbatim>\<open>calc_charges\<close> ends, it adds and removes no particle, it
  changes no field of any particle other than the charge, and a particle whose tag
  is listed by no row of the block of ATOM rows that begins at the third line keeps
  its charge as well.  When the run ends normally, the block is followed by a row that
  is not blank and does not start with ATOM, where parsing stopped, and the charge of
  every listed particle is the second-to-last field of the (last) row listing it.
\<close>

theorem calc_charges_frame:
  assumes "calc_charges to_float ac ps = (ps', r)"
  shows "dom ps' = dom ps \<and>
     (\<forall>tag p p'. ps tag = Some p \<and> ps' tag = Some p' \<longrightarrow>
            ptype_of p' = ptype_of p \<and> particle.more p' = particle.more p) \<and>
     (\<forall>tag. (\<forall>l \<in> set (atom_block ac). row_tag l \<noteq> Some tag) \<longrightarrow> ps' tag = ps tag) \<and>
     (r = None \<longrightarrow>
           (\<exists>lines stop rest. ac = Some lines \<and> drop 2 lines = atom_block ac @ stop # rest \<and>
               py_split stop \<noteq> [] \<and> \<not> is_atom_row stop) \<and>
           (\<forall>tag. ps' tag =
              (case find (\<lambda>l. row_tag l = Some tag) (rev (atom_block ac)) of
                 None \<Rightarrow> ps tag
               | Some l \<Rightarrow> map_option (\<lambda>p. p\<lparr>charge := row_charge to_float l\<rparr>) (ps tag))))"
  using calc_charges_frame_aux [OF assms] calc_charges_ok_aux [of to_float ac ps ps'] assms
  by blast


theorem calc_charges_frame_witness:
  "snd (calc_charges Some (Some ac_example) ps_example) = None \<and>
   dom (fst (calc_charges Some (Some ac_example) ps_example)) = {1, 2, 3} \<and>
   fst (calc_charges Some (Some ac_example) ps_example) 3 = ps_example 3 \<and>
   map_option charge (fst (calc_charges Some (Some ac_example) ps_example) 1) = Some (Some ''-0.12'')"
proof -
  obtain ps' r where run: "calc_charges Some (Some ac_example) ps_example = (ps', r)"
    by (cases "calc_charges Some (Some ac_example) ps_example") blast
  have s1: "py_split ''ATOM 1 C1 MOL 1 0.0 0.0 0.0 -0.12 c3'' =
      [''ATOM'', ''1'', ''C1'', ''MOL'', ''1'', ''0.0'', ''0.0'', ''0.0'', ''-0.12'', ''c3'']"
    by (simp add: py_split.simps is_space_def)
  have s2: "py_split ''ATOM 2 H1 MOL 1 1.0 0.0 0.0 0.12 hc'' =
      [''ATOM'', ''2'', ''H1'', ''MOL'', ''1'', ''1.0'', ''0.0'', ''0.0'', ''0.12'', ''hc'']"
    by (simp add: py_split.simps is_space_def)
  have s3: "py_split ''BOND 1 1 2 1 C1 H1'' = [''BOND'', ''1'', ''1'', ''2'', ''1'', ''C1'', ''H1'']"
    by (simp add: py_split.simps is_space_def)
  have i1: "py_int ''1'' = Some 1" and i2: "py_int ''2'' = Some 2"
    by (simp_all add: py_int_def py_nat_def digits_val_def digit_val_def is_digit_def)
  have r: "r = None"
    using run
    by (simp add: calc_charges_def ac_example_def ps_example_def s1 s2 s3 i1 i2)
  have blk: "atom_block (Some ac_example) =
      [''ATOM 1 C1 MOL 1 0.0 0.0 0.0 -0.12 c3'', ''ATOM 2 H1 MOL 1 1.0 0.0 0.0 0.12 hc'']"
    by (simp add: atom_block_def ac_example_def is_atom_row_def s1 s2 s3)
  have t1: "row_tag ''ATOM 1 C1 MOL 1 0.0 0.0 0.0 -0.12 c3'' = Some 1"
    by (simp add: row_tag_def s1 i1)
  have t2: "row_tag ''ATOM 2 H1 MOL 1 1.0 0.0 0.0 0.12 hc'' = Some 2"
    by (simp add: row_tag_def s2 i2)
  have c1: "row_charge Some ''ATOM 1 C1 MOL 1 0.0 0.0 0.0 -0.12 c3'' = Some ''-0.12''"
    by (simp add: row_charge_def s1)
  note th = calc_charges_frame [OF run]
  have d: "dom ps' = {1, 2, 3}"
    using th [THEN conjunct1] by (auto simp add: ps_example_def)
  have u: "ps' 3 = ps_example 3"
    using th [THEN conjunct2, THEN conjunct2, THEN conjunct1] by (simp add: blk t1 t2)
  have "ps' 1 = map_option (\<lambda>p. p\<lparr>charge := Some ''-0.12''\<rparr>) (ps_example 1)"
    using th [THEN conjunct2, THEN conjunct2, THEN conjunct2] r
    by (simp add: blk t1 t2 c1)
  then have c: "map_option charge (ps' 1) = Some (Some ''-0.12'')"
    by (simp add: ps_example_def)
  from run r d u c show ?thesis by simp
qed

subsection \<open>get_forcefield_types\<close>

lemma get_types_empty: "get_types reg name = [] \<longleftrightarrow> name \<notin> pt_name ` set reg"
  by (auto simp add: get_types_def filter_empty_conv)

lemma get_types_hd: "get_types reg name = t # ts \<Longrightarrow> pt_name t = name \<and> t \<in> set reg"
proof -
  assume "get_types reg name = t # ts"
  then have "t \<in> set (filter (\<lambda>t. pt_name t = name) reg)" by (simp add: get_types_def)
  then show ?thesis by simp
qed



lemma set_type_same:
  assumes "set_type st1 tag t = (st', r)"
  shows "events st' = events st1 \<and> particle_types st' = particle_types st1 \<and>
     warning_pdb_flag st' = warning_pdb_flag st1 \<and> missing_types st' = missing_types st1 \<and>
     c5_c6_flag st' = c5_c6_flag st1 \<and>
     (\<forall>tg. tg \<noteq> tag \<longrightarrow> particles st' tg = particles st1 tg)"
proof (cases "particles st1 tag")
  case None
  with assms have "st' = st1" by (simp add: set_type_def)
  then show ?thesis by simp
next
  case (Some p)
  with assms have "st' = st1\<lparr>particles := (particles st1)(tag \<mapsto> p\<lparr>ptype_of := Some t\<rparr>)\<rparr>"
    by (simp add: set_type_def)
  then show ?thesis by simp
qed

lemma quiet_cong:
  assumes q: "quiet_step types reg ff tag st st1"
    and e: "events st' = events st1" "particle_types st' = particle_types st1"
      "warning_pdb_flag st' = warning_pdb_flag st1" "missing_types st' = missing_types st1"
      "\<forall>tg. tg \<noteq> tag \<longrightarrow> particles st' tg = particles st1 tg"
  shows "quiet_step types reg ff tag st st'"
  using q unfolding quiet_step_def typing_inv_def e(1-4) using e(5) by simp

lemma set_type_quiet:
  assumes "set_type st1 tag t = (st', r)"
    and "quiet_step types reg ff tag st st1"
  shows "quiet_step types reg ff tag st st'"
  using quiet_cong [OF assms(2)] set_type_same [OF assms(1)] by blast

lemma quiet_refl: "typing_inv types reg ff st \<Longrightarrow> quiet_step types reg ff tag st st"
  by (simp add: quiet_step_def)

lemma quiet_add:
  assumes "quiet_step types reg ff tag st st1" and "t \<in> set ff"
  shows "quiet_step types reg ff tag st (st1\<lparr>particle_types := add_type (particle_types st1) t\<rparr>)"
proof -
  have "pt_name ` set (add_type (particle_types st1) t) = insert (pt_name t) (pt_name ` set (particle_types st1))"
    by (simp add: add_type_def)
  moreover have "pt_name t \<in> pt_name ` set ff" using assms(2) by blast
  ultimately show ?thesis
    using assms(1) unfolding quiet_step_def typing_inv_def by auto
qed

lemma add_and_set_quiet:
  assumes "add_and_set pt tag st1 = (st', r)"
    and "quiet_step types reg ff tag st st1"
    and "\<forall>t \<in> set pt. t \<in> set ff"
  shows "quiet_step types reg ff tag st st'"
proof (cases pt)
  case Nil
  with assms show ?thesis by (simp add: add_and_set_def)
next
  case (Cons t ts)
  with assms(1) have "set_type (st1\<lparr>particle_types := add_type (particle_types st1) t\<rparr>) tag t = (st', r)"
    by (simp add: add_and_set_def)
  moreover have "t \<in> set ff" using Cons assms(3) by simp
  ultimately show ?thesis using set_type_quiet quiet_add [OF assms(2)] by blast
qed

lemma count_list_snoc: "count_list (xs @ [x]) y = count_list xs y + (if x = y then 1 else 0)"
  by (induction xs) auto

lemma note_missing_quiet:
  assumes inv: "typing_inv types reg ff st" and nm: "\<not> missing_type types reg ff name"
  shows "quiet_step types reg ff tag st (note_missing types name pt st)"
proof (cases "pt = [] \<and> name \<notin> set (missing_types st)")
  case False
  then have "note_missing types name pt st = st" by (auto simp add: note_missing_def)
  with inv show ?thesis by (simp add: quiet_refl)
next
  case True
  then have e: "note_missing types name pt st =
      (emit (WarnNotFound name types) st)\<lparr>missing_types := name # missing_types st\<rparr>"
    by (simp add: note_missing_def)
  have "typing_inv types reg ff ((emit (WarnNotFound name types) st)\<lparr>missing_types := name # missing_types st\<rparr>)"
    using inv True by (simp add: typing_inv_def emit_def count_list_snoc)
  moreover have "\<forall>n. missing_type types reg ff n \<longrightarrow> n \<noteq> name" using nm by blast
  ultimately show ?thesis
    unfolding e quiet_step_def by (simp add: emit_def count_list_snoc)
qed

lemma substitute_quiet:
  assumes q: "quiet_step types reg ff tag st st1"
    and np: "deprecated_alias types name \<or> pt \<noteq> []"
    and run: "substitute_or_report types ff name pt st1 = (pt2, st2)"
    and ptff: "\<forall>t \<in> set pt. t \<in> set ff"
  shows "quiet_step types reg ff tag st st2 \<and> (\<forall>t \<in> set pt2. t \<in> set ff)"
proof (cases "deprecated_alias types name")
  case False
  with np run have "pt2 = pt" "st2 = st1" by (simp_all add: substitute_or_report_def)
  with q ptff show ?thesis by simp
next
  case True
  note al = this
  show ?thesis
  proof (cases "c5_c6_flag st1")
    case True
    with al run have "pt2 = pt" "st2 = st1" by (simp_all add: substitute_or_report_def)
    with q ptff show ?thesis by simp
  next
    case False
    with al run have e: "pt2 = get_types ff ''c3''"
       "st2 = (emit (WarnAlias name) st1)\<lparr>c5_c6_flag := True\<rparr>"
      by (simp_all add: substitute_or_report_def)
    have "quiet_step types reg ff tag st st2"
      using q unfolding e quiet_step_def typing_inv_def
      by (simp add: emit_def count_list_snoc)
    moreover have "\<forall>t \<in> set pt2. t \<in> set ff" unfolding e by (simp add: get_types_def)
    ultimately show ?thesis by simp
  qed
qed

lemma type_row_quiet:
  assumes nm: "\<not> missing_type types reg ff name"
    and inv: "typing_inv types reg ff st"
    and run: "type_row types (Some ff) tag name st = (st', r)"
  shows "quiet_step types reg ff tag st st'"
proof (cases "get_types (particle_types st) name")
  case (Cons t ts)
  with run have "set_type st tag t = (st', r)" by (simp add: type_row_def)
  from set_type_quiet [OF this quiet_refl [OF inv]] show ?thesis .
next
  case Nil
  note a = this
  define pt where "pt = get_types ff name"
  define st1 where "st1 = note_missing types name pt st"
  obtain pt2 st2 where sub: "substitute_or_report types ff name pt st1 = (pt2, st2)"
    by (cases "substitute_or_report types ff name pt st1") blast
  have fin: "add_and_set pt2 tag st2 = (st', r)"
    using run a sub by (simp add: type_row_def pt_def st1_def)
  have q1: "quiet_step types reg ff tag st st1"
    unfolding st1_def by (rule note_missing_quiet [OF inv nm])
  have ptff: "\<forall>t \<in> set pt. t \<in> set ff" by (simp add: pt_def get_types_def)
  have "get_types reg name = []"
    using a inv unfolding typing_inv_def get_types_empty by blast
  with nm have np: "deprecated_alias types name \<or> pt \<noteq> []"
    by (auto simp add: missing_type_def pt_def)
  from substitute_quiet [OF q1 np sub ptff] add_and_set_quiet [OF fin]
  show ?thesis by blast
qed

lemma type_row_missing_eq:
  assumes a: "get_types (particle_types st) name = []"
    and b: "get_types ff name = []"
    and c: "\<not> deprecated_alias types name"
  shows "type_row types (Some ff) tag name st =
    (let st1 = (if name \<notin> set (missing_types st)
                then (emit (WarnNotFound name types) st)\<lparr>missing_types := name # missing_types st\<rparr>
                else st)
     in (emit (WritePdb ''Missing_Types.pdb'')
           (if \<not> warning_pdb_flag st1
            then (emit WarnMissingPdb st1)\<lparr>warning_pdb_flag := True\<rparr> else st1), None))"
  using c by (simp add: type_row_def a b Let_def note_missing_def substitute_or_report_def add_and_set_def)

lemma type_row_missing:
  assumes m: "missing_type types reg ff name"
    and inv: "typing_inv types reg ff st"
    and run: "type_row types (Some ff) tag name st = (st', r)"
  shows "r = None \<and> particles st' = particles st \<and> typing_inv types reg ff st' \<and>
     warning_pdb_flag st' \<and>
     set (missing_types st') = insert name (set (missing_types st)) \<and>
     count_list (events st') (WritePdb ''Missing_Types.pdb'') =
       count_list (events st) (WritePdb ''Missing_Types.pdb'') + 1"
proof -
  have a: "get_types (particle_types st) name = []"
    using m inv unfolding missing_type_def typing_inv_def get_types_empty by blast
  have b: "get_types ff name = []" using m by (simp add: missing_type_def)
  have c: "\<not> deprecated_alias types name"
    using m by (simp add: missing_type_def)
  note eq = type_row_missing_eq [OF a b c, of tag]
  show ?thesis
  proof (cases "name \<in> set (missing_types st)")
    case True
    note in_m = this
    show ?thesis
    proof (cases "warning_pdb_flag st")
      case True
      with in_m eq run have "st' = emit (WritePdb ''Missing_Types.pdb'') st" "r = None"
        by (simp_all add: Let_def)
      with inv True in_m show ?thesis
        by (auto simp add: emit_def typing_inv_def)
    next
      case False
      with in_m eq run have "st' = emit (WritePdb ''Missing_Types.pdb'')
          ((emit WarnMissingPdb st)\<lparr>warning_pdb_flag := True\<rparr>)" "r = None"
        by (simp_all add: Let_def)
      with inv False in_m show ?thesis
        by (auto simp add: emit_def typing_inv_def)
    qed
  next
    case False
    note not_m = this
    let ?st1 = "(emit (WarnNotFound name types) st)\<lparr>missing_types := name # missing_types st\<rparr>"
    show ?thesis
    proof (cases "warning_pdb_flag st")
      case True
      with not_m eq run have "st' = emit (WritePdb ''Missing_Types.pdb'') ?st1" "r = None"
        by (simp_all add: Let_def emit_def)
      with inv True not_m show ?thesis
        by (auto simp add: emit_def typing_inv_def)
    next
      case False
      with not_m eq run have "st' = emit (WritePdb ''Missing_Types.pdb'')
          ((emit WarnMissingPdb ?st1)\<lparr>warning_pdb_flag := True\<rparr>)" "r = None"
        by (simp_all add: Let_def emit_def)
      with inv False not_m show ?thesis
        by (auto simp add: emit_def typing_inv_def)
    qed
  qed
qed




lemma typing_loop_step:
  assumes "typing_loop types f (line # rest) st = (st', None)"
  shows "(\<not> is_atom_row line \<and> py_split line \<noteq> [] \<and> st' = st) \<or>
     (is_atom_row line \<and> (\<exists>tag st1. row_tag line = Some tag \<and>
         type_row types f tag (row_name line) st = (st1, None) \<and>
         typing_loop types f rest st1 = (st', None)))"
proof (cases "py_split line")
  case Nil
  with assms show ?thesis by simp
next
  case (Cons w ws)
  note sp = this
  show ?thesis
  proof (cases "w = ''ATOM''")
    case False
    with assms sp show ?thesis by (simp add: is_atom_row_def)
  next
    case True
    note atom = this
    show ?thesis
    proof (cases ws)
      case Nil
      with assms sp atom show ?thesis by simp
    next
      case (Cons t ts)
      note ws = this
      show ?thesis
      proof (cases "py_int t")
        case None
        with assms sp atom ws show ?thesis by simp
      next
        case (Some tag)
        obtain st1 r1 where tr: "type_row types f tag (last (w # ws)) st = (st1, r1)"
          by (cases "type_row types f tag (last (w # ws)) st") blast
        have r1: "r1 = None"
          using assms sp atom ws Some tr by (cases r1) simp_all
        have lp: "typing_loop types f rest st1 = (st', None)"
          using assms sp atom ws Some tr r1 by simp
        have "is_atom_row line" using sp atom by (simp add: is_atom_row_def)
        moreover have "row_tag line = Some tag" using sp ws Some by (simp add: row_tag_def)
        moreover have "row_name line = last (w # ws)" using sp by (simp add: row_name_def)
        ultimately show ?thesis using tr r1 lp by simp
      qed
    qed
  qed
qed

lemma block_effect_nil: "typing_inv types reg ff st \<Longrightarrow> block_effect types reg ff [] st st"
  by (simp add: block_effect_def)

lemma block_effect_missing:
  assumes m: "missing_type types reg ff (row_name line)"
    and inv: "typing_inv types reg ff st"
    and run: "type_row types (Some ff) tag (row_name line) st = (st1, r)"
    and rest: "block_effect types reg ff block st1 st'"
  shows "block_effect types reg ff (line # block) st st'"
proof -
  note s = type_row_missing [OF m inv run]
  have p: "particles st1 = particles st" and f: "warning_pdb_flag st1"
    and ms: "set (missing_types st1) = insert (row_name line) (set (missing_types st))"
    and c: "count_list (events st1) (WritePdb ''Missing_Types.pdb'') =
       count_list (events st) (WritePdb ''Missing_Types.pdb'') + 1"
    using s by simp_all
  show ?thesis
    using rest m f unfolding block_effect_def p ms c by auto
qed

lemma block_effect_quiet:
  assumes nm: "\<not> missing_type types reg ff (row_name line)"
    and inv: "typing_inv types reg ff st"
    and run: "type_row types (Some ff) tag (row_name line) st = (st1, r)"
    and rt: "row_tag line = Some tag"
    and rest: "block_effect types reg ff block st1 st'"
  shows "block_effect types reg ff (line # block) st st'"
proof -
  note s = type_row_quiet [OF nm inv run, unfolded quiet_step_def]
  have f: "warning_pdb_flag st1 = warning_pdb_flag st"
    and c: "count_list (events st1) (WritePdb ''Missing_Types.pdb'') =
       count_list (events st) (WritePdb ''Missing_Types.pdb'')"
    and ms: "\<forall>n. missing_type types reg ff n \<longrightarrow>
           (n \<in> set (missing_types st1) \<longleftrightarrow> n \<in> set (missing_types st))"
    and p: "\<forall>tg. tg \<noteq> tag \<longrightarrow> particles st1 tg = particles st tg"
    using s by simp_all
  have a1: "typing_inv types reg ff st'" using rest by (simp add: block_effect_def)
  have a2: "count_list (events st') (WritePdb ''Missing_Types.pdb'') =
        count_list (events st) (WritePdb ''Missing_Types.pdb'') +
        length (filter (\<lambda>l. missing_type types reg ff (row_name l)) (line # block))"
    using rest nm c by (simp add: block_effect_def)
  have a3: "warning_pdb_flag st' \<longleftrightarrow>
         warning_pdb_flag st \<or> (\<exists>l \<in> set (line # block). missing_type types reg ff (row_name l))"
    using rest nm f by (simp add: block_effect_def)
  have a4: "\<forall>n. missing_type types reg ff n \<longrightarrow>
          (n \<in> set (missing_types st') \<longleftrightarrow>
             n \<in> set (missing_types st) \<or> n \<in> row_name ` set (line # block))"
  proof (intro allI impI)
    fix n assume mn: "missing_type types reg ff n"
    then have "n \<noteq> row_name line" using nm by blast
    moreover from rest mn have "n \<in> set (missing_types st') \<longleftrightarrow>
        n \<in> set (missing_types st1) \<or> n \<in> row_name ` set block"
      unfolding block_effect_def by blast
    ultimately show "n \<in> set (missing_types st') \<longleftrightarrow>
             n \<in> set (missing_types st) \<or> n \<in> row_name ` set (line # block)"
      using ms mn by auto
  qed
  have a5: "\<forall>tg. (\<forall>l \<in> set (line # block). row_tag l = Some tg \<longrightarrow>
              missing_type types reg ff (row_name l)) \<longrightarrow> particles st' tg = particles st tg"
  proof (intro allI impI)
    fix tg
    assume h: "\<forall>l \<in> set (line # block). row_tag l = Some tg \<longrightarrow>
              missing_type types reg ff (row_name l)"
    then have "tg \<noteq> tag" using rt nm by auto
    with p have "particles st1 tg = particles st tg" by blast
    moreover from h have "\<forall>l \<in> set block. row_tag l = Some tg \<longrightarrow>
              missing_type types reg ff (row_name l)" by simp
    with rest have "particles st' tg = particles st1 tg" unfolding block_effect_def by blast
    ultimately show "particles st' tg = particles st tg" by simp
  qed
  from a1 a2 a3 a4 a5 show ?thesis unfolding block_effect_def by blast
qed

lemma typing_inv_step:
  assumes inv: "typing_inv types reg ff st"
    and run: "type_row types (Some ff) tag name st = (st1, r)"
  shows "typing_inv types reg ff st1"
proof (cases "missing_type types reg ff name")
  case True
  from type_row_missing [OF True inv run] show ?thesis by simp
next
  case False
  from type_row_quiet [OF False inv run] show ?thesis by (simp add: quiet_step_def)
qed

lemma typing_loop_effect:
  "typing_loop types (Some ff) ls st = (st', None) \<Longrightarrow> typing_inv types reg ff st \<Longrightarrow>
     block_effect types reg ff (takeWhile is_atom_row ls) st st'"
proof (induction ls arbitrary: st)
  case Nil
  then show ?case by simp
next
  case (Cons line rest)
  from typing_loop_step [OF Cons.prems(1)] show ?case
  proof
    assume "\<not> is_atom_row line \<and> py_split line \<noteq> [] \<and> st' = st"
    with Cons.prems(2) show ?thesis by (simp add: block_effect_nil)
  next
    assume "is_atom_row line \<and> (\<exists>tag st1. row_tag line = Some tag \<and>
         type_row types (Some ff) tag (row_name line) st = (st1, None) \<and>
         typing_loop types (Some ff) rest st1 = (st', None))"
    then obtain tag st1 where row: "is_atom_row line" and rt: "row_tag line = Some tag"
      and tr: "type_row types (Some ff) tag (row_name line) st = (st1, None)"
      and lp: "typing_loop types (Some ff) rest st1 = (st', None)" by blast
    have inv1: "typing_inv types reg ff st1" by (rule typing_inv_step [OF Cons.prems(2) tr])
    note ih = Cons.IH [OF lp inv1]
    have "block_effect types reg ff (line # takeWhile is_atom_row rest) st st'"
    proof (cases "missing_type types reg ff (row_name line)")
      case True
      from block_effect_missing [OF True Cons.prems(2) tr ih] show ?thesis .
    next
      case False
      from block_effect_quiet [OF False Cons.prems(2) tr rt ih] show ?thesis .
    qed
    with row show ?thesis by simp
  qed
qed


lemma split_c6_1: "py_split ''ATOM 1 C1 MOL 1 0.0 0.0 0.0 0.0 c6'' =
    [''ATOM'', ''1'', ''C1'', ''MOL'', ''1'', ''0.0'', ''0.0'', ''0.0'', ''0.0'', ''c6'']"
  by (simp add: py_split.simps is_space_def)

lemma split_c6_2: "py_split ''ATOM 2 C2 MOL 1 1.5 0.0 0.0 0.0 c6'' =
    [''ATOM'', ''2'', ''C2'', ''MOL'', ''1'', ''1.5'', ''0.0'', ''0.0'', ''0.0'', ''c6'']"
  by (simp add: py_split.simps is_space_def)

lemma split_bond_c: "py_split ''BOND 1 1 2 1 C1 C2'' = [''BOND'', ''1'', ''1'', ''2'', ''1'', ''C1'', ''C2'']"
  by (simp add: py_split.simps is_space_def)

lemma split_zz_1: "py_split ''ATOM 1 X1 MOL 1 0.0 0.0 0.0 0.0 zz'' =
    [''ATOM'', ''1'', ''X1'', ''MOL'', ''1'', ''0.0'', ''0.0'', ''0.0'', ''0.0'', ''zz'']"
  by (simp add: py_split.simps is_space_def)

lemma split_zz_2: "py_split ''ATOM 2 X2 MOL 1 1.5 0.0 0.0 0.0 zz'' =
    [''ATOM'', ''2'', ''X2'', ''MOL'', ''1'', ''1.5'', ''0.0'', ''0.0'', ''0.0'', ''zz'']"
  by (simp add: py_split.simps is_space_def)

lemma split_bond_x: "py_split ''BOND 1 1 2 1 X1 X2'' = [''BOND'', ''1'', ''1'', ''2'', ''1'', ''X1'', ''X2'']"
  by (simp add: py_split.simps is_space_def)

lemma split_c3_2: "py_split ''ATOM 2 C2 MOL 1 1.5 0.0 0.0 0.0 c3'' =
    [''ATOM'', ''2'', ''C2'', ''MOL'', ''1'', ''1.5'', ''0.0'', ''0.0'', ''0.0'', ''c3'']"
  by (simp add: py_split.simps is_space_def)

lemma split_bond_xc: "py_split ''BOND 1 1 2 1 X1 C2'' = [''BOND'', ''1'', ''1'', ''2'', ''1'', ''X1'', ''C2'']"
  by (simp add: py_split.simps is_space_def)

lemma py_int_1: "py_int ''1'' = Some 1"
  by (simp add: py_int_def py_nat_def digits_val_def digit_val_def is_digit_def)

lemma py_int_2: "py_int ''2'' = Some 2"
  by (simp add: py_int_def py_nat_def digits_val_def digit_val_def is_digit_def)

lemmas typing_eval = get_forcefield_types_def type_row_def note_missing_def
  substitute_or_report_def add_and_set_def set_type_def emit_def deprecated_alias_def
  get_types_def add_type_def py_int_1 py_int_2


text \<open>
  C3.  The run on two particles that the tool both reports as \<^verbatim>\<open>c6\<close>, under \<^verbatim>\<open>gaff2\<close>, with a
  force field that has \<^verbatim>\<open>c3\<close> and not \<^verbatim>\<open>c6\<close>: the first particle is bound to \<^verbatim>\<open>c3\<close> and the
  alias warning is printed once, but the second particle keeps no type, because the
  substitution of \<^verbatim>\<open>c3\<close> stands under the same once-only flag as the warning.
\<close>

theorem c6_second_particle_unbound:
  "get_forcefield_types ''gaff2'' (Some ff_c3) (Some ac_c6) ps_two [] =
     (\<lparr>particles = [1 \<mapsto> \<lparr>ptype_of = Some \<lparr>pt_name = ''c3'', pt_params = ''sp3 carbon''\<rparr>, charge = None\<rparr>,
                     2 \<mapsto> \<lparr>ptype_of = None, charge = None\<rparr>],
       particle_types = [\<lparr>pt_name = ''c3'', pt_params = ''sp3 carbon''\<rparr>],
       c5_c6_flag = True, warning_pdb_flag = False, missing_types = [''c6''],
       events = [WritePdb ''pysimm.tmp.pdb'', RunAntechamber ''gaff2'',
                 WarnNotFound ''c6'' ''gaff2'', WarnAlias ''c6'']\<rparr>, None)"
  by (simp add: typing_eval ac_c6_def ff_c3_def ps_two_def split_c6_1 split_c6_2 split_bond_c fun_upd_twist)


text \<open>
  C8, as stated, fails: with two particles of the same missing type the snapshot
  \<^verbatim>\<open>Missing_Types.pdb\<close> is written twice.
\<close>

theorem missing_pdb_written_twice:
  "snd (get_forcefield_types ''gaff'' (Some ff_c3) (Some ac_zz) ps_two []) = None \<and>
   count_list (events (fst (get_forcefield_types ''gaff'' (Some ff_c3) (Some ac_zz) ps_two [])))
     (WritePdb ''Missing_Types.pdb'') = 2"
  by (simp add: typing_eval ac_zz_def ff_c3_def ps_two_def split_zz_1 split_zz_2 split_bond_x)


text \<open>
  C8, amended.  With a fallback force field, in a run that ends normally: the snapshot
  \<^verbatim>\<open>Missing_Types.pdb\<close> is written once for every row of the ATOM block whose type name is
  missing (absent from the registry and from the force field, and no deprecated alias);
  the warning that announces the snapshot is printed once when there is such a row and
  never otherwise; the warning that a missing name was not found is printed once for each
  distinct missing name the block reports; and a particle that only such rows list is left
  as it was.
\<close>

theorem missing_type_reports:
  assumes "get_forcefield_types types (Some ff) ac ps reg = (st', None)"
  shows "count_list (events st') (WritePdb ''Missing_Types.pdb'') =
       length (filter (\<lambda>l. missing_type types reg ff (row_name l)) (atom_block ac)) \<and>
     count_list (events st') WarnMissingPdb =
       (if \<exists>l \<in> set (atom_block ac). missing_type types reg ff (row_name l) then 1 else 0) \<and>
     (\<forall>n. missing_type types reg ff n \<longrightarrow>
        count_list (events st') (WarnNotFound n types) =
          (if n \<in> row_name ` set (atom_block ac) then 1 else 0)) \<and>
     (\<forall>tg. (\<forall>l \<in> set (atom_block ac). row_tag l = Some tg \<longrightarrow>
                missing_type types reg ff (row_name l)) \<longrightarrow> particles st' tg = ps tg)"
proof -
  let ?st = "\<lparr>particles = ps, particle_types = reg, c5_c6_flag = False,
                 warning_pdb_flag = False, missing_types = [],
                 events = [WritePdb ''pysimm.tmp.pdb'', RunAntechamber types]\<rparr>"
  obtain lines where ac: "ac = Some lines"
    using assms by (cases ac) (simp_all add: get_forcefield_types_def)
  have run: "typing_loop types (Some ff) (drop 2 lines) ?st = (st', None)"
    using assms ac by (simp add: get_forcefield_types_def)
  have inv: "typing_inv types reg ff ?st" by (simp add: typing_inv_def)
  have blk: "atom_block ac = takeWhile is_atom_row (drop 2 lines)"
    using ac by (simp add: atom_block_def)
  note e = typing_loop_effect [OF run inv, folded blk, unfolded block_effect_def]
  have inv': "typing_inv types reg ff st'" using e by blast
  have c1: "count_list (events st') (WritePdb ''Missing_Types.pdb'') =
       length (filter (\<lambda>l. missing_type types reg ff (row_name l)) (atom_block ac))"
    using e by simp
  have f: "warning_pdb_flag st' \<longleftrightarrow> (\<exists>l \<in> set (atom_block ac). missing_type types reg ff (row_name l))"
    using e by simp
  have c2: "count_list (events st') WarnMissingPdb =
       (if \<exists>l \<in> set (atom_block ac). missing_type types reg ff (row_name l) then 1 else 0)"
    using inv' f by (simp add: typing_inv_def)
  have m: "\<forall>n. missing_type types reg ff n \<longrightarrow>
          (n \<in> set (missing_types st') \<longleftrightarrow> n \<in> row_name ` set (atom_block ac))"
    using e by simp
  have c3: "\<forall>n. missing_type types reg ff n \<longrightarrow>
        count_list (events st') (WarnNotFound n types) =
          (if n \<in> row_name ` set (atom_block ac) then 1 else 0)"
  proof (intro allI impI)
    fix n assume mn: "missing_type types reg ff n"
    have "count_list (events st') (WarnNotFound n types) =
         (if n \<in> set (missing_types st') then 1 else 0)"
      using inv' by (simp add: typing_inv_def)
    with m mn show "count_list (events st') (WarnNotFound n types) =
          (if n \<in> row_name ` set (atom_block ac) then 1 else 0)" by simp
  qed
  have c4: "\<forall>tg. (\<forall>l \<in> set (atom_block ac). row_tag l = Some tg \<longrightarrow>
                missing_type types reg ff (row_name l)) \<longrightarrow> particles st' tg = ps tg"
    using e by simp
  from c1 c2 c3 c4 show ?thesis by blast
qed

theorem missing_type_reports_witness:
  "snd (get_forcefield_types ''gaff'' (Some ff_c3) (Some ac_mixed) ps_two []) = None \<and>
   count_list (events (fst (get_forcefield_types ''gaff'' (Some ff_c3) (Some ac_mixed) ps_two [])))
     (WritePdb ''Missing_Types.pdb'') = 1 \<and>
   count_list (events (fst (get_forcefield_types ''gaff'' (Some ff_c3) (Some ac_mixed) ps_two [])))
     (WarnNotFound ''zz'' ''gaff'') = 1 \<and>
   particles (fst (get_forcefield_types ''gaff'' (Some ff_c3) (Some ac_mixed) ps_two [])) 1 = ps_two 1"
proof -
  obtain st' r where run: "get_forcefield_types ''gaff'' (Some ff_c3) (Some ac_mixed) ps_two [] = (st', r)"
    by (cases "get_forcefield_types ''gaff'' (Some ff_c3) (Some ac_mixed) ps_two []") blast
  have r: "r = None"
    using run
    by (simp add: typing_eval ac_mixed_def ff_c3_def ps_two_def split_zz_1 split_c3_2 split_bond_xc)
  have blk: "atom_block (Some ac_mixed) =
      [''ATOM 1 X1 MOL 1 0.0 0.0 0.0 0.0 zz'', ''ATOM 2 C2 MOL 1 1.5 0.0 0.0 0.0 c3'']"
    by (simp add: atom_block_def ac_mixed_def is_atom_row_def split_zz_1 split_c3_2 split_bond_xc)
  have n1: "row_name ''ATOM 1 X1 MOL 1 0.0 0.0 0.0 0.0 zz'' = ''zz''"
    by (simp add: row_name_def split_zz_1)
  have n2: "row_name ''ATOM 2 C2 MOL 1 1.5 0.0 0.0 0.0 c3'' = ''c3''"
    by (simp add: row_name_def split_c3_2)
  have t1: "row_tag ''ATOM 1 X1 MOL 1 0.0 0.0 0.0 0.0 zz'' = Some 1"
    by (simp add: row_tag_def split_zz_1 py_int_1)
  have t2: "row_tag ''ATOM 2 C2 MOL 1 1.5 0.0 0.0 0.0 c3'' = Some 2"
    by (simp add: row_tag_def split_c3_2 py_int_2)
  have m1: "missing_type ''gaff'' [] ff_c3 ''zz''"
    by (simp add: missing_type_def get_types_def ff_c3_def deprecated_alias_def)
  have m2: "\<not> missing_type ''gaff'' [] ff_c3 ''c3''"
    by (simp add: missing_type_def get_types_def ff_c3_def)
  note th = missing_type_reports [OF run [unfolded r]]
  have a: "count_list (events st') (WritePdb ''Missing_Types.pdb'') = 1"
    using th [THEN conjunct1] by (simp add: blk n1 n2 m1 m2)
  have b: "count_list (events st') (WarnNotFound ''zz'' ''gaff'') = 1"
    using th [THEN conjunct2, THEN conjunct2, THEN conjunct1] m1 by (simp add: blk n1 n2)
  have c: "particles st' 1 = ps_two 1"
    using th [THEN conjunct2, THEN conjunct2, THEN conjunct2] by (simp add: blk n1 n2 t1 t2 m1)
  from run r a b c show ?thesis by simp
qed


section \<open>Properties of pysimm.apps.mc_md\<close>

lemma md_phase_environ_aux:
  assumes "md_phase x c st = (r, st')"
  shows "(r = None \<longrightarrow>
           environ st' = (environ st)(''OMP_NUM_THREADS'' \<mapsto>
              (case environ st ''OMP_NUM_THREADS'' of None \<Rightarrow> ''1'' | Some v \<Rightarrow> v))) \<and>
         (r \<noteq> None \<longrightarrow> environ st' = (environ st)(''OMP_NUM_THREADS'' \<mapsto> ''1''))"
proof (cases "md_script (mdp c) (folder c) (l_iter st) (rigid_mols x (l_iter st))")
  case (Inl e)
  with assms show ?thesis by (auto simp add: md_phase_def Let_def log_def)
next
  case (Inr script)
  show ?thesis
  proof (cases "fails x (CallSimRun (l_iter st))")
    case True
    with assms Inr show ?thesis
      by (auto simp add: md_phase_def Let_def log_def split: option.splits)
  next
    case False
    with assms Inr show ?thesis
      by (auto simp add: md_phase_def Let_def log_def split: option.splits)
  qed
qed

lemma md_phase_sim_run_env:
  assumes "md_phase x c st = (r, st')"
  shows "\<exists>new. trace st' = trace st @ new \<and>
           (\<forall>l lg sc n p e. SimRun l lg sc n p e \<in> set new \<longrightarrow> e = Some ''1'')"
proof (cases "md_script (mdp c) (folder c) (l_iter st) (rigid_mols x (l_iter st))")
  case (Inl e)
  with assms show ?thesis by (auto simp add: md_phase_def Let_def log_def)
next
  case (Inr script)
  show ?thesis
  proof (cases "fails x (CallSimRun (l_iter st))")
    case True
    with assms Inr show ?thesis
      by (auto simp add: md_phase_def Let_def log_def split: option.splits)
  next
    case False
    with assms Inr show ?thesis
      by (auto simp add: md_phase_def Let_def log_def split: option.splits)
  qed
qed

text \<open>
  C7, as stated, fails: when the variable was unset before the MD phase, it is set to
  \<^verbatim>\<open>1\<close> after the phase, not absent.
\<close>

theorem omp_left_set_when_unset:
  "environ (st_example\<lparr>environ := Map.empty\<rparr>) ''OMP_NUM_THREADS'' = None \<and>
   fst (md_phase ext_example cfg_example (st_example\<lparr>environ := Map.empty\<rparr>)) = None \<and>
   environ (snd (md_phase ext_example cfg_example (st_example\<lparr>environ := Map.empty\<rparr>)))
     ''OMP_NUM_THREADS'' = Some ''1''"
  by (simp add: md_phase_def md_script_def Let_def cfg_example_def ext_example_def st_example_def
        log_def)

text \<open>
  C7, amended.  In every MD phase the variable \<^verbatim>\<open>OMP_NUM_THREADS\<close> is \<^verbatim>\<open>1\<close> when the engine is
  run; when the phase completes the variable holds its prior value if it had one and
  \<^verbatim>\<open>1\<close> if it was unset; when building the job or running the engine raises, the variable
  is left at \<^verbatim>\<open>1\<close>.
\<close>

theorem md_phase_environ:
  assumes "md_phase x c st = (r, st')"
  shows "(r = None \<longrightarrow>
           environ st' = (environ st)(''OMP_NUM_THREADS'' \<mapsto>
              (case environ st ''OMP_NUM_THREADS'' of None \<Rightarrow> ''1'' | Some v \<Rightarrow> v))) \<and>
         (r \<noteq> None \<longrightarrow> environ st' = (environ st)(''OMP_NUM_THREADS'' \<mapsto> ''1'')) \<and>
         (\<exists>new. trace st' = trace st @ new \<and>
           (\<forall>l lg sc n p e. SimRun l lg sc n p e \<in> set new \<longrightarrow> e = Some ''1''))"
  using md_phase_environ_aux [OF assms] md_phase_sim_run_env [OF assms] by blast

theorem md_phase_environ_witness:
  "fst (md_phase ext_example cfg_example st_example) = None \<and>
   environ st_example ''OMP_NUM_THREADS'' = Some ''8'' \<and>
   environ (snd (md_phase ext_example cfg_example st_example)) ''OMP_NUM_THREADS'' = Some ''8''"
proof -
  obtain r st' where run: "md_phase ext_example cfg_example st_example = (r, st')"
    by (cases "md_phase ext_example cfg_example st_example") blast
  have r: "r = None"
    using run
    by (simp add: md_phase_def md_script_def Let_def cfg_example_def ext_example_def st_example_def)
  have e: "environ st_example ''OMP_NUM_THREADS'' = Some ''8''"
    by (simp add: st_example_def)
  from md_phase_environ [OF run] r e
  have "environ st' ''OMP_NUM_THREADS'' = Some ''8''" by simp
  with run r e show ?thesis by simp
qed

text \<open>
  C5.  The MD job for a one-stage list of timesteps when no rigid group exists: the stage
  defines \<^verbatim>\<open>main_fix_0\<close> and \<^verbatim>\<open>tether_fix_0\<close> only, and removes \<^verbatim>\<open>main_fix_0\<close>, \<^verbatim>\<open>rig_fix_0\<close>
  and \<^verbatim>\<open>tether_fix_0\<close>: the removal of the rigid fix is not under the condition that
  guards its definition.
\<close>

theorem unfix_rig_fix_without_rigid_group:
  "md_script \<lparr>timestep = Seq [1::nat], length_of = Seq [1000], dump = Some 100\<rparr> ''results'' 1 False =
     Inr [Init, Custom neighbor_settings, Group ''matrix'', Group ''nonrigid_b'',
          OutputSettings ''results/1.md.dump'' 100,
          Velocity ''create'',
          MolecularDynamics \<lparr>fix_name = ''main_fix_0'', ensemble = ''npt'', fix_group = ''all'',
                              fix_timestep = Scalar 1, dilate_all = False\<rparr>,
          Custom ''fix        tether_fix_0 matrix spring tether 30.0 0.0 0.0 0.0 0.0'',
          RunFor (Scalar 1000),
          Custom ''unfix main_fix_0'',
          Custom ''unfix rig_fix_0'',
          Custom ''unfix tether_fix_0'']"
  by code_simp


lemma digests_append [simp]: "digests (xs @ ys) = digests xs @ digests ys"
  by (simp add: digests_def)

lemma digests_Nil [simp]: "digests [] = []"
  by (simp add: digests_def)

lemma digests_Cons [simp]: "digests (e # es) = digest e @ digests es"
  by (simp add: digests_def)

lemma stage_no_dump: "concat (map dump_file_of (stage rigid p)) = []"
  by (cases p) (auto simp add: stage_def)

lemma stages_no_dump: "concat (map dump_file_of (concat (map (stage rigid) ps))) = []"
  by (induction ps) (simp_all add: stage_no_dump)

lemma md_script_dump:
  assumes "md_settings_ok m"
  shows "\<exists>sc. md_script m fld l rigid = Inr sc \<and>
           concat (map dump_file_of sc) = [path_join fld (py_str l @ ''.md.dump'')]"
proof -
  from assms obtain freq where d: "dump m = Some freq" by (auto simp add: md_settings_ok_def)
  show ?thesis
  proof (cases "timestep m")
    case (Seq ts)
    with assms obtain ls where "length_of m = Seq ls"
      by (cases "length_of m") (simp_all add: md_settings_ok_def)
    with Seq d show ?thesis
      by (simp add: md_script_def Let_def stages_no_dump)
  next
    case Unset
    with d show ?thesis by (simp add: md_script_def Let_def)
  next
    case (Scalar v)
    with d show ?thesis by (simp add: md_script_def Let_def)
  qed
qed

lemma digit_char_props: "d < 10 \<Longrightarrow> is_digit (digit_char d) \<and> digit_val (digit_char d) = d"
  by (simp add: is_digit_def digit_val_def digit_char_def)

lemma py_str_small: "n < 10 \<Longrightarrow> py_str n = [digit_char n]"
  by (subst py_str.simps) simp

lemma py_str_big: "\<not> n < 10 \<Longrightarrow> py_str n = py_str (n div 10) @ [digit_char (n mod 10)]"
  by (subst py_str.simps) simp

lemma py_str_digits: "\<forall>ch \<in> set (py_str n). is_digit ch"
proof (induction n rule: py_str.induct)
  case (1 n)
  show ?case
  proof (cases "n < 10")
    case True
    then show ?thesis by (simp add: py_str_small digit_char_props)
  next
    case False
    then have "n mod 10 < 10" by simp
    with 1 False show ?thesis by (simp add: py_str_big digit_char_props)
  qed
qed

lemma py_str_nonempty: "py_str n \<noteq> []"
  by (cases "n < 10") (simp_all add: py_str_small py_str_big)

lemma digits_val_snoc: "digits_val (ds @ [ch]) = 10 * digits_val ds + digit_val ch"
  by (simp add: digits_val_def)

lemma digits_val_py_str: "digits_val (py_str n) = n"
proof (induction n rule: py_str.induct)
  case (1 n)
  show ?case
  proof (cases "n < 10")
    case True
    then show ?thesis by (simp add: py_str_small digits_val_def digit_char_props)
  next
    case False
    with 1 have a: "digits_val (py_str (n div 10)) = n div 10" by simp
    have b: "digit_val (digit_char (n mod 10)) = n mod 10" by (simp add: digit_char_props)
    have "digits_val (py_str n) = 10 * (n div 10) + n mod 10"
      unfolding py_str_big [OF False] digits_val_snoc a b ..
    then show ?thesis by simp
  qed
qed

lemma py_str_inj:
  assumes "py_str m = py_str n"
  shows "m = n"
proof -
  have "digits_val (py_str m) = digits_val (py_str n)" using assms by (rule arg_cong)
  then show ?thesis unfolding digits_val_py_str .
qed

lemma leading_digits:
  assumes "\<not> is_digit ch"
  shows "takeWhile is_digit (py_str i @ ch # rest) = py_str i"
  using assms py_str_digits [of i] by (simp add: takeWhile_append2)

lemma not_digit_dot: "\<not> is_digit CHR ''.''"
  by (simp add: is_digit_def)


lemma not_digit_slash: "\<not> is_digit CHR ''/''"
  by (simp add: is_digit_def)

lemma py_str_1: "py_str 1 = ''1''"
  by code_simp

lemma py_str_2: "py_str 2 = ''2''"
  by code_simp

lemma py_str_Suc_0: "py_str (Suc 0) = ''1''"
  using py_str_1 by simp

lemma py_str_Suc_Suc_0: "py_str (Suc (Suc 0)) = ''2''"
  using py_str_2 by (simp add: numeral_2_eq_2)

lemma py_str_hd: "hd (py_str n) \<noteq> CHR ''/''"
proof -
  obtain d ds where e: "py_str n = d # ds" using py_str_nonempty [of n] by (cases "py_str n") auto
  have "is_digit d" using py_str_digits [of n] e by simp
  then have "d \<noteq> CHR ''/''" using not_digit_slash by auto
  with e show ?thesis by simp
qed

lemma puts_Nil: "puts [] r = r"
  by (simp add: puts_def split: option.splits sum.splits)

lemma puts_puts: "puts s (puts t r) = puts (s @ t) r"
  by (simp add: puts_def split: option.splits sum.splits)

lemma format_scan_plain:
  "brace_free p \<Longrightarrow> format_scan a i (p @ t) = puts p (format_scan a i t)"
proof (induction p)
  case Nil
  show ?case by (simp add: puts_Nil)
next
  case (Cons ch p)
  then have "ch \<noteq> CHR ''{''" and "ch \<noteq> CHR ''}''" and "brace_free p"
    by (auto simp add: brace_free_def)
  with Cons.IH show ?case by (simp add: puts_puts)
qed

lemma format_scan_field:
  assumes "brace_free s"
  shows "format_scan a 0 (''{:}'' @ s) = Some (Inr (a @ s))"
proof -
  have "format_scan a (Suc 0) (s @ []) = puts s (format_scan a (Suc 0) [])"
    using assms by (rule format_scan_plain)
  then have "format_scan a (Suc 0) s = Some (Inr s)" by (simp add: puts_def)
  then show ?thesis by (simp add: puts_def)
qed

lemma py_format_template:
  assumes d: "brace_free d" and s: "brace_free s" and a: "a \<noteq> []" "hd a \<noteq> CHR ''/''"
  shows "py_format x (path_join d (''{:}'' @ s)) a = Inr (path_join d (a @ s))"
proof -
  define pre where "pre = (if d = [] \<or> last d = CHR ''/'' then d else d @ ''/'')"
  have bp: "brace_free pre" using d by (simp add: pre_def brace_free_def)
  have t: "path_join d (''{:}'' @ s) = pre @ ''{:}'' @ s"
    by (simp add: path_join_def pre_def)
  have r: "path_join d (a @ s) = pre @ a @ s"
    using a by (simp add: path_join_def pre_def)
  have "format_scan a 0 (pre @ ''{:}'' @ s) = puts pre (format_scan a 0 (''{:}'' @ s))"
    using bp by (rule format_scan_plain)
  also have "\<dots> = Some (Inr (pre @ a @ s))"
    unfolding format_scan_field [OF s] by (simp add: puts_def)
  finally show ?thesis unfolding t r by (simp add: py_format_def)
qed

lemma lmps_name:
  assumes "brace_free d"
  shows "py_format x (lmps_fname d) (py_str l) = Inr (path_join d (py_str l @ ''.before_md.lmps''))"
proof -
  have "brace_free ''.before_md.lmps''" by (simp add: brace_free_def)
  from py_format_template [OF assms this py_str_nonempty [of l] py_str_hd [of l], of x]
  show ?thesis by (simp add: lmps_fname_def)
qed

lemma xyz_name:
  assumes "brace_free d"
  shows "py_format x (xyz_fname d) (py_str l) = Inr (path_join d (py_str l @ ''.md_out.xyz''))"
proof -
  have "brace_free ''.md_out.xyz''" by (simp add: brace_free_def)
  from py_format_template [OF assms this py_str_nonempty [of l] py_str_hd [of l], of x]
  show ?thesis by (simp add: xyz_fname_def)
qed

lemma scan_pattern:
  assumes "brace_free d"
  shows "py_format x (lmps_fname d) ''*'' = Inr (path_join d ''*.before_md.lmps'')"
proof -
  have "brace_free ''.before_md.lmps''" by (simp add: brace_free_def)
  from py_format_template [OF assms this, of "''*''" x]
  show ?thesis by (simp add: lmps_fname_def)
qed

lemma mc_phase_fresh:
  assumes "\<not> is_restart st" and "\<not> fails x (CallCssRun (l_iter st))" and "brace_free (folder c)"
  shows "\<exists>st1. mc_phase x c st = (None, st1) \<and>
     digests (trace st1) = digests (trace st) @
        [McRunName (py_str (l_iter st) @ ''.gcmc''), McPropsFile (py_str (l_iter st) @ ''.gcmc_props.inp''),
         McLaunch (l_iter st),
         PreMd (path_join (folder c) (py_str (l_iter st) @ ''.before_md.lmps''))
               (AfterMc (l_iter st) (css_system st))] \<and>
     l_iter st1 = l_iter st \<and> \<not> is_restart st1 \<and>
     css_system st1 = AfterMc (l_iter st) (css_system st) \<and> environ st1 = environ st"
  using assms(1,2) by (simp add: mc_phase_def Let_def log_def lmps_name [OF assms(3)])

lemma mc_phase_resume:
  assumes "is_restart st" and "\<not> fails x (CallUpdSimulation (l_iter st))"
    and "\<not> fails x (CallReadLammps (l_iter st))" and "brace_free (folder c)"
  shows "\<exists>st1. mc_phase x c st = (None, st1) \<and>
     digests (trace st1) = digests (trace st) @
        [McRunName (py_str (l_iter st) @ ''.gcmc''), McPropsFile (py_str (l_iter st) @ ''.gcmc_props.inp''),
         StateReread (l_iter st),
         CheckpointRead (path_join (folder c) (py_str (l_iter st) @ ''.before_md.lmps''))] \<and>
     l_iter st1 = l_iter st \<and> \<not> is_restart st1 \<and>
     css_system st1 = resynced (folder c) (l_iter st) \<and> environ st1 = environ st"
  using assms(1,2,3)
  by (simp add: mc_phase_def Let_def log_def lmps_name [OF assms(4)] resynced_def)

lemma md_phase_ok:
  assumes "md_settings_ok (mdp c)" and "\<not> fails x (CallSimRun (l_iter st))"
  shows "\<exists>st2. md_phase x c st = (None, st2) \<and>
     digests (trace st2) = digests (trace st) @
        [PreMd (path_join (folder c) (py_str (l_iter st) @ ''.before_md.lmps'')) (css_system st),
         MdLog (path_join (folder c) (py_str (l_iter st) @ ''.md.log'')),
         MdDump (path_join (folder c) (py_str (l_iter st) @ ''.md.dump''))] \<and>
     l_iter st2 = l_iter st \<and> is_restart st2 = is_restart st \<and>
     css_system st2 = css_system st \<and>
     sim st2 = Some (AfterMd (l_iter st) (css_system st))"
proof -
  from md_script_dump [OF assms(1)] obtain sc where
    sc: "md_script (mdp c) (folder c) (l_iter st) (rigid_mols x (l_iter st)) = Inr sc"
    and d: "concat (map dump_file_of sc) = [path_join (folder c) (py_str (l_iter st) @ ''.md.dump'')]"
    by blast
  show ?thesis
  proof (cases "np_arg c")
    case None
    with sc d assms(2) show ?thesis
      by (simp add: md_phase_def Let_def log_def)
  next
    case (Some n)
    note np = this
    show ?thesis
    proof (cases "prefix_now st")
      case None
      with np sc d assms(2) show ?thesis
        by (simp add: md_phase_def Let_def log_def)
    next
      case (Some p)
      with np sc d assms(2) show ?thesis
        by (simp add: md_phase_def Let_def log_def)
    qed
  qed
qed

lemma hand_over_ok:
  assumes "brace_free (folder c)" and "sim st = Some out"
  shows "\<exists>st3. hand_over x c st = (None, st3) \<and>
     digests (trace st3) = digests (trace st) @
        [PostMd (path_join (folder c) (py_str (l_iter st) @ ''.md_out.xyz'')) (Unwrapped out)] \<and>
     l_iter st3 = l_iter st + 1 \<and> is_restart st3 = is_restart st \<and>
     css_system st3 = Unwrapped out \<and> sim st3 = Some out"
  using assms(2) by (simp add: hand_over_def Let_def log_def xyz_name [OF assms(1)])

lemma hand_over_environ: "hand_over x c st = (r, st1) \<Longrightarrow> environ st1 = environ st"
  by (auto simp add: hand_over_def Let_def log_def split: sum.splits option.splits)

lemma md_then_hand_over:
  assumes "md_settings_ok (mdp c)" and "\<not> fails x (CallSimRun (l_iter st))"
    and "brace_free (folder c)"
  shows "\<exists>st2 st3. md_phase x c st = (None, st2) \<and> hand_over x c st2 = (None, st3) \<and>
     digests (trace st3) = digests (trace st) @ md_artifacts (folder c) (l_iter st) (css_system st) \<and>
     l_iter st3 = l_iter st + 1 \<and> is_restart st3 = is_restart st \<and>
     css_system st3 = Unwrapped (AfterMd (l_iter st) (css_system st)) \<and>
     sim st3 = Some (AfterMd (l_iter st) (css_system st))"
proof -
  from md_phase_ok [OF assms(1,2)] obtain st2 where
    a: "md_phase x c st = (None, st2)"
    and b: "digests (trace st2) = digests (trace st) @
        [PreMd (path_join (folder c) (py_str (l_iter st) @ ''.before_md.lmps'')) (css_system st),
         MdLog (path_join (folder c) (py_str (l_iter st) @ ''.md.log'')),
         MdDump (path_join (folder c) (py_str (l_iter st) @ ''.md.dump''))]"
    and l2: "l_iter st2 = l_iter st" and r2: "is_restart st2 = is_restart st"
    and s2: "sim st2 = Some (AfterMd (l_iter st) (css_system st))" by blast
  from hand_over_ok [OF assms(3) s2, of x] obtain st3 where
    c: "hand_over x c st2 = (None, st3)"
    and d: "digests (trace st3) = digests (trace st2) @
        [PostMd (path_join (folder c) (py_str (l_iter st2) @ ''.md_out.xyz''))
                (Unwrapped (AfterMd (l_iter st) (css_system st)))]"
    and l3: "l_iter st3 = l_iter st2 + 1" and r3: "is_restart st3 = is_restart st2"
    and c3: "css_system st3 = Unwrapped (AfterMd (l_iter st) (css_system st))"
    and s3: "sim st3 = Some (AfterMd (l_iter st) (css_system st))" by blast
  have "digests (trace st3) = digests (trace st) @ md_artifacts (folder c) (l_iter st) (css_system st)"
    using b d l2 by (simp add: md_artifacts_def)
  with a c l2 l3 r2 r3 c3 s3 show ?thesis by simp
qed

lemma loop_stop:
  "\<not> int (l_iter st) < n_iter c + 1 \<Longrightarrow> mc_md_loop x c st = (Returned (sim st), st)"
  by (simp add: mc_md_loop.simps)

lemma loop_step:
  "int (l_iter st) < n_iter c + 1 \<Longrightarrow> iteration x c st = (None, st1) \<Longrightarrow>
     mc_md_loop x c st = mc_md_loop x c st1"
  by (simp add: mc_md_loop.simps [of x c st])

lemma loop_raise:
  "int (l_iter st) < n_iter c + 1 \<Longrightarrow> iteration x c st = (Some e, st1) \<Longrightarrow>
     mc_md_loop x c st = (e, st1)"
  by (simp add: mc_md_loop.simps [of x c st])

lemma iteration_fresh:
  assumes "\<not> is_restart st" and "\<not> fails x (CallCssRun (l_iter st))"
    and "\<not> fails x (CallSimRun (l_iter st))" and "md_settings_ok (mdp c)"
    and "brace_free (folder c)"
  shows "\<exists>st3. iteration x c st = (None, st3) \<and>
     digests (trace st3) = digests (trace st) @ fresh_iteration (folder c) (l_iter st) (css_system st) \<and>
     l_iter st3 = l_iter st + 1 \<and> \<not> is_restart st3 \<and>
     css_system st3 = Unwrapped (AfterMd (l_iter st) (AfterMc (l_iter st) (css_system st))) \<and>
     sim st3 = Some (AfterMd (l_iter st) (AfterMc (l_iter st) (css_system st)))"
proof -
  from mc_phase_fresh [OF assms(1,2,5)] obtain st1 where
    a: "mc_phase x c st = (None, st1)"
    and b: "digests (trace st1) = digests (trace st) @
        [McRunName (py_str (l_iter st) @ ''.gcmc''), McPropsFile (py_str (l_iter st) @ ''.gcmc_props.inp''),
         McLaunch (l_iter st),
         PreMd (path_join (folder c) (py_str (l_iter st) @ ''.before_md.lmps''))
               (AfterMc (l_iter st) (css_system st))]"
    and l1: "l_iter st1 = l_iter st" and r1: "\<not> is_restart st1"
    and s1: "css_system st1 = AfterMc (l_iter st) (css_system st)" by blast
  from assms(3) l1 have "\<not> fails x (CallSimRun (l_iter st1))" by simp
  from md_then_hand_over [OF assms(4) this assms(5)] obtain st2 st3 where
    c: "md_phase x c st1 = (None, st2)" and h: "hand_over x c st2 = (None, st3)"
    and d: "digests (trace st3) = digests (trace st1) @
              md_artifacts (folder c) (l_iter st1) (css_system st1)"
    and l3: "l_iter st3 = l_iter st1 + 1" and r3: "is_restart st3 = is_restart st1"
    and c3: "css_system st3 = Unwrapped (AfterMd (l_iter st1) (css_system st1))"
    and s3: "sim st3 = Some (AfterMd (l_iter st1) (css_system st1))" by blast
  have "iteration x c st = (None, st3)" using a c h by (simp add: iteration_def)
  moreover have "digests (trace st3) =
      digests (trace st) @ fresh_iteration (folder c) (l_iter st) (css_system st)"
    using b d l1 s1 by (simp add: fresh_iteration_def)
  ultimately show ?thesis using l1 l3 r1 r3 s1 c3 s3 by simp
qed

lemma iteration_resume:
  assumes "is_restart st" and "\<not> fails x (CallUpdSimulation (l_iter st))"
    and "\<not> fails x (CallReadLammps (l_iter st))"
    and "\<not> fails x (CallSimRun (l_iter st))" and "md_settings_ok (mdp c)"
    and "brace_free (folder c)"
  shows "\<exists>st3. iteration x c st = (None, st3) \<and>
     digests (trace st3) = digests (trace st) @ resumed_iteration (folder c) (l_iter st) \<and>
     l_iter st3 = l_iter st + 1 \<and> \<not> is_restart st3 \<and>
     css_system st3 = Unwrapped (AfterMd (l_iter st) (resynced (folder c) (l_iter st))) \<and>
     sim st3 = Some (AfterMd (l_iter st) (resynced (folder c) (l_iter st)))"
proof -
  from mc_phase_resume [OF assms(1,2,3,6)] obtain st1 where
    a: "mc_phase x c st = (None, st1)"
    and b: "digests (trace st1) = digests (trace st) @
        [McRunName (py_str (l_iter st) @ ''.gcmc''), McPropsFile (py_str (l_iter st) @ ''.gcmc_props.inp''),
         StateReread (l_iter st),
         CheckpointRead (path_join (folder c) (py_str (l_iter st) @ ''.before_md.lmps''))]"
    and l1: "l_iter st1 = l_iter st" and r1: "\<not> is_restart st1"
    and s1: "css_system st1 = resynced (folder c) (l_iter st)" by blast
  from assms(4) l1 have "\<not> fails x (CallSimRun (l_iter st1))" by simp
  from md_then_hand_over [OF assms(5) this assms(6)] obtain st2 st3 where
    c: "md_phase x c st1 = (None, st2)" and h: "hand_over x c st2 = (None, st3)"
    and d: "digests (trace st3) = digests (trace st1) @
              md_artifacts (folder c) (l_iter st1) (css_system st1)"
    and l3: "l_iter st3 = l_iter st1 + 1" and r3: "is_restart st3 = is_restart st1"
    and c3: "css_system st3 = Unwrapped (AfterMd (l_iter st1) (css_system st1))"
    and s3: "sim st3 = Some (AfterMd (l_iter st1) (css_system st1))" by blast
  have "iteration x c st = (None, st3)" using a c h by (simp add: iteration_def)
  moreover have "digests (trace st3) = digests (trace st) @ resumed_iteration (folder c) (l_iter st)"
    using b d l1 s1 by (simp add: resumed_iteration_def)
  ultimately show ?thesis using l1 l3 r1 r3 s1 c3 s3 by simp
qed

lemma fresh_loop:
  assumes nf: "\<forall>k. \<not> fails x k" and ok: "md_settings_ok (mdp c)" and n: "n_iter c = int N"
    and bf: "brace_free (folder c)"
  shows "\<not> is_restart st \<Longrightarrow>
     \<exists>st'. mc_md_loop x c st =
             (Returned (last_sim (sim st) (css_system st) [l_iter st..<N + 1]), st') \<and>
       digests (trace st') = digests (trace st) @
          fresh_run (folder c) (css_system st) [l_iter st..<N + 1] \<and>
       (N < l_iter st \<longrightarrow> st' = st)"
proof (induction "N + 1 - l_iter st" arbitrary: st)
  case 0
  then have gt: "N < l_iter st" by simp
  then have "\<not> int (l_iter st) < n_iter c + 1" using n by simp
  from loop_stop [OF this] gt show ?case by simp
next
  case (Suc d)
  then have le: "l_iter st \<le> N" by simp
  then have cont: "int (l_iter st) < n_iter c + 1" using n by simp
  from iteration_fresh [OF Suc.prems _ _ ok bf] nf obtain st2 where
    it: "iteration x c st = (None, st2)"
    and dg: "digests (trace st2) =
               digests (trace st) @ fresh_iteration (folder c) (l_iter st) (css_system st)"
    and l2: "l_iter st2 = l_iter st + 1" and r2: "\<not> is_restart st2"
    and c2: "css_system st2 = Unwrapped (AfterMd (l_iter st) (AfterMc (l_iter st) (css_system st)))"
    and s2: "sim st2 = Some (AfterMd (l_iter st) (AfterMc (l_iter st) (css_system st)))"
    by blast
  have "d = N + 1 - l_iter st2" using Suc.hyps(2) l2 by simp
  from Suc.hyps(1) [OF this r2] obtain st' where
    lp: "mc_md_loop x c st2 =
           (Returned (last_sim (sim st2) (css_system st2) [l_iter st2..<N + 1]), st')"
    and dg': "digests (trace st') = digests (trace st2) @
          fresh_run (folder c) (css_system st2) [l_iter st2..<N + 1]" by blast
  have u: "[l_iter st..<N + 1] = l_iter st # [l_iter st2..<N + 1]"
    using le l2 by (simp add: upt_rec)
  have a: "mc_md_loop x c st =
             (Returned (last_sim (sim st) (css_system st) [l_iter st..<N + 1]), st')"
    unfolding u using loop_step [OF cont it] lp c2 s2 by simp
  have b: "digests (trace st') = digests (trace st) @
          fresh_run (folder c) (css_system st) [l_iter st..<N + 1]"
    unfolding u using dg dg' c2 by simp
  from a b le show ?case by auto
qed

lemma resume_loop:
  assumes nf: "\<forall>k. \<not> fails x k" and ok: "md_settings_ok (mdp c)" and n: "n_iter c = int N"
    and bf: "brace_free (folder c)" and r: "is_restart st" and le: "l_iter st \<le> N"
  shows "\<exists>st'. mc_md_loop x c st =
           (Returned (last_sim (Some (AfterMd (l_iter st) (resynced (folder c) (l_iter st))))
                        (Unwrapped (AfterMd (l_iter st) (resynced (folder c) (l_iter st))))
                        [l_iter st + 1..<N + 1]), st') \<and>
       digests (trace st') = digests (trace st) @ resumed_iteration (folder c) (l_iter st) @
          fresh_run (folder c) (Unwrapped (AfterMd (l_iter st) (resynced (folder c) (l_iter st))))
            [l_iter st + 1..<N + 1]"
proof -
  have cont: "int (l_iter st) < n_iter c + 1" using n le by simp
  from iteration_resume [OF r _ _ _ ok bf] nf obtain st2 where
    it: "iteration x c st = (None, st2)"
    and dg: "digests (trace st2) = digests (trace st) @ resumed_iteration (folder c) (l_iter st)"
    and l2: "l_iter st2 = l_iter st + 1" and r2: "\<not> is_restart st2"
    and c2: "css_system st2 = Unwrapped (AfterMd (l_iter st) (resynced (folder c) (l_iter st)))"
    and s2: "sim st2 = Some (AfterMd (l_iter st) (resynced (folder c) (l_iter st)))"
    by blast
  from fresh_loop [OF nf ok n bf r2] obtain st' where
    lp: "mc_md_loop x c st2 =
           (Returned (last_sim (sim st2) (css_system st2) [l_iter st2..<N + 1]), st')"
    and dg': "digests (trace st') = digests (trace st2) @
          fresh_run (folder c) (css_system st2) [l_iter st2..<N + 1]" by blast
  have a: "mc_md_loop x c st =
           (Returned (last_sim (Some (AfterMd (l_iter st) (resynced (folder c) (l_iter st))))
                        (Unwrapped (AfterMd (l_iter st) (resynced (folder c) (l_iter st))))
                        [l_iter st + 1..<N + 1]), st')"
    using loop_step [OF cont it] lp l2 c2 s2 by simp
  have b: "digests (trace st') = digests (trace st) @ resumed_iteration (folder c) (l_iter st) @
          fresh_run (folder c) (Unwrapped (AfterMd (l_iter st) (resynced (folder c) (l_iter st))))
            [l_iter st + 1..<N + 1]"
    using dg dg' l2 c2 by simp
  from a b show ?thesis by blast
qed

lemma last_sim_last:
  "js \<noteq> [] \<Longrightarrow> \<exists>s. last_sim r s0 js = Some (AfterMd (last js) (AfterMc (last js) s))"
proof (induction js arbitrary: r s0)
  case Nil
  then show ?case by simp
next
  case (Cons i js)
  show ?case
  proof (cases "js = []")
    case True
    then show ?thesis by simp
  next
    case False
    from Cons.IH [OF False] False show ?thesis by simp
  qed
qed

lemma last_sim_upto:
  assumes "l \<le> N"
  shows "\<exists>s. last_sim r s0 [l..<N + 1] = Some (AfterMd N (AfterMc N s))"
proof -
  have ne: "[l..<N + 1] \<noteq> []" using assms by simp
  have "last [l..<N + 1] = N" using assms by simp
  with last_sim_last [OF ne, of r s0] show ?thesis by simp
qed

lemma mc_md_init_events:
  assumes "mc_md_init x names a = Inr (c, names1, ev)"
  shows "ev = (if truthy (fixed_sst a)
                 then (case fixed_sst a of
                         PSys _ \<Rightarrow> [Wrap]
                       | _ \<Rightarrow> [Print ''Cannot setup the fixed system for the simulations. Skipping this''])
                 else [])"
  using assms
  by (simp add: mc_md_init_def Let_def split: sum.splits if_splits option.splits)

lemma mc_md_init_digests: "mc_md_init x names a = Inr (c, names1, ev) \<Longrightarrow> digests ev = []"
  by (drule mc_md_init_events) (simp split: pyval.splits)

lemma collect_gases_Inr:
  assumes "collect_gases g = Inr gs" and "gs \<noteq> []"
  shows "\<exists>pts. g = PSys pts \<and> gs = [pts]"
  using assms by (cases g) (auto simp add: collect_gases_def split: if_splits)

lemma mc_md_init_config:
  assumes "mc_md_init x names a = Inr (c, names1, ev)"
  shows "folder c = sim_dir a \<and> n_iter c = iterations a \<and> md_props a = Some (mdp c) \<and>
     np_arg c = np a \<and> prefix_arg c = prefix a \<and>
     (\<exists>pts. gas_sst a = PSys pts \<and> gases c = [pts] \<and> names1 = rename_types 0 [pts] names)"
proof -
  from assms obtain gs where g: "collect_gases (gas_sst a) = Inr gs" and ne: "gs \<noteq> []"
    by (cases "collect_gases (gas_sst a)")
       (auto simp add: mc_md_init_def Let_def split: if_splits)
  from collect_gases_Inr [OF g ne] obtain pts where p: "gas_sst a = PSys pts" "gs = [pts]"
    by blast
  from assms g p have
    "folder c = sim_dir a \<and> n_iter c = iterations a \<and> md_props a = Some (mdp c) \<and>
     np_arg c = np a \<and> prefix_arg c = prefix a \<and> gases c = [pts] \<and>
     names1 = rename_types 0 [pts] names"
    by (auto simp add: mc_md_init_def Let_def sim_dir_def iterations_def
          split: if_splits option.splits)
  with p show ?thesis by blast
qed

lemma mc_md_fresh_eq:
  assumes "\<not> restart a" and "mc_md_init x names a = Inr (c, names1, ev)"
    and "mc_md_loop x c (start_state c 1 False env names1 ev) = (out, st)"
  shows "mc_md x env names a =
     \<lparr>outcome_of = out, final_environ = environ st, final_names = type_names st,
      final_trace = trace st\<rparr>"
  using assms by (simp add: mc_md_def start_state_def Let_def)

lemma mc_md_restart_eq:
  assumes "restart a" and "restart_scan x (sim_dir a) = Inr (l, purge)"
    and "mc_md_init x names a = Inr (c, names1, ev)"
    and "mc_md_loop x c (start_state c l True env names1 (map Remove purge @ ev)) = (out, st)"
  shows "mc_md x env names a =
     \<lparr>outcome_of = out, final_environ = environ st, final_names = type_names st,
      final_trace = trace st\<rparr>"
  using assms by (simp add: mc_md_def start_state_def Let_def sim_dir_def)

lemma digests_removes: "digests (map Remove fs) = map Deleted fs"
  by (induction fs) simp_all

lemma mc_md_fresh_run:
  assumes nr: "\<not> restart a" and init: "mc_md_init x names a = Inr (c, names1, ev)"
    and ok: "md_settings_ok (mdp c)" and nf: "\<forall>k. \<not> fails x k" and n: "iterations a = int N"
    and bf: "brace_free (sim_dir a)"
  shows "digests (final_trace (mc_md x env names a)) = fresh_run (sim_dir a) CssInitial [1..<N + 1] \<and>
         outcome_of (mc_md x env names a) = Returned (last_sim None CssInitial [1..<N + 1]) \<and>
         (N = 0 \<longrightarrow> final_trace (mc_md x env names a) = ev)"
proof -
  note cfg = mc_md_init_config [OF init]
  have n': "n_iter c = int N" using cfg n by simp
  have bf': "brace_free (folder c)" using cfg bf by simp
  let ?st0 = "start_state c 1 False env names1 ev"
  have "\<not> is_restart ?st0" by (simp add: start_state_def)
  from fresh_loop [OF nf ok n' bf' this] obtain st' where
    lp: "mc_md_loop x c ?st0 =
           (Returned (last_sim (sim ?st0) (css_system ?st0) [l_iter ?st0..<N + 1]), st')"
    and dg: "digests (trace st') = digests (trace ?st0) @
          fresh_run (folder c) (css_system ?st0) [l_iter ?st0..<N + 1]"
    and same: "N < l_iter ?st0 \<longrightarrow> st' = ?st0" by blast
  note eq = mc_md_fresh_eq [OF nr init lp]
  have a: "digests (final_trace (mc_md x env names a)) =
             fresh_run (sim_dir a) CssInitial [1..<N + 1]"
    using eq dg cfg mc_md_init_digests [OF init] by (simp add: start_state_def)
  have b: "outcome_of (mc_md x env names a) = Returned (last_sim None CssInitial [1..<N + 1])"
    using eq by (simp add: start_state_def)
  have c: "N = 0 \<longrightarrow> final_trace (mc_md x env names a) = ev"
    using eq same by (auto simp add: start_state_def)
  from a b c show ?thesis by blast
qed

text \<open>
  C2.  Without restart, when INIT accepts the arguments, the folder name holds no
  brace, the MD job can be built and no call into an adapter raises, a run configured for
  \<open>N\<close> iterations produces the artifacts of iterations 1 to \<open>N\<close> in order, each named by
  the convention and each iteration starting from the unwrapped result of the one
  before, and nothing else; it returns the system of the last MD run: for \<open>N \<ge> 1\<close> the
  result of the MD run of iteration \<open>N\<close> on the result of the Monte-Carlo run of iteration
  \<open>N\<close>, and for \<open>N = 0\<close> no system, the loop adding no event.
\<close>

theorem fixed_iteration_count:
  assumes "\<not> restart a" and "mc_md_init x names a = Inr (c, names1, ev)"
    and "md_settings_ok (mdp c)" and "\<forall>k. \<not> fails x k" and "iterations a = int N"
    and "brace_free (sim_dir a)"
  shows "digests (final_trace (mc_md x env names a)) =
           fresh_run (sim_dir a) CssInitial [1..<N + 1] \<and>
         outcome_of (mc_md x env names a) = Returned (last_sim None CssInitial [1..<N + 1]) \<and>
         (1 \<le> N \<longrightarrow> (\<exists>s. outcome_of (mc_md x env names a) =
                            Returned (Some (AfterMd N (AfterMc N s))))) \<and>
         (N = 0 \<longrightarrow> outcome_of (mc_md x env names a) = Returned None \<and>
                     final_trace (mc_md x env names a) = ev)"
proof -
  note run = mc_md_fresh_run [OF assms, of env]
  have a: "1 \<le> N \<longrightarrow> (\<exists>s. outcome_of (mc_md x env names a) =
                            Returned (Some (AfterMd N (AfterMc N s))))"
  proof
    assume "1 \<le> N"
    from last_sim_upto [OF this, of None CssInitial] run
    show "\<exists>s. outcome_of (mc_md x env names a) = Returned (Some (AfterMd N (AfterMc N s)))"
      by auto
  qed
  have b: "N = 0 \<longrightarrow> outcome_of (mc_md x env names a) = Returned None \<and>
                     final_trace (mc_md x env names a) = ev"
    using run by auto
  from run a b show ?thesis by blast
qed

lemma init_example:
  "\<exists>c names1 ev. mc_md_init ext_example names_example args_example = Inr (c, names1, ev)"
  by (simp add: mc_md_init_def collect_gases_def ext_example_def args_example_def Let_def)

lemma args_example_facts:
  "\<not> restart args_example"
  "iterations args_example = int 2"
  "sim_dir args_example = ''results''"
  "md_props args_example =
     Some \<lparr>timestep = Seq [1, 2], length_of = Seq [1000, 2000], dump = Some 100\<rparr>"
  "brace_free (sim_dir args_example)"
  by (simp_all add: args_example_def iterations_def sim_dir_def brace_free_def)

lemma ext_example_no_fails: "\<forall>q. \<not> fails ext_example q"
  by (simp add: ext_example_def)

theorem fixed_iteration_count_witness:
  "digests (final_trace (mc_md ext_example Map.empty names_example args_example)) =
     [McRunName ''1.gcmc'', McPropsFile ''1.gcmc_props.inp'', McLaunch 1,
      PreMd ''results/1.before_md.lmps'' (AfterMc 1 CssInitial),
      PreMd ''results/1.before_md.lmps'' (AfterMc 1 CssInitial),
      MdLog ''results/1.md.log'', MdDump ''results/1.md.dump'',
      PostMd ''results/1.md_out.xyz'' (Unwrapped (AfterMd 1 (AfterMc 1 CssInitial))),
      McRunName ''2.gcmc'', McPropsFile ''2.gcmc_props.inp'', McLaunch 2,
      PreMd ''results/2.before_md.lmps'' (AfterMc 2 (Unwrapped (AfterMd 1 (AfterMc 1 CssInitial)))),
      PreMd ''results/2.before_md.lmps'' (AfterMc 2 (Unwrapped (AfterMd 1 (AfterMc 1 CssInitial)))),
      MdLog ''results/2.md.log'', MdDump ''results/2.md.dump'',
      PostMd ''results/2.md_out.xyz''
        (Unwrapped (AfterMd 2 (AfterMc 2 (Unwrapped (AfterMd 1 (AfterMc 1 CssInitial))))))] \<and>
   outcome_of (mc_md ext_example Map.empty names_example args_example) =
     Returned (Some (AfterMd 2 (AfterMc 2 (Unwrapped (AfterMd 1 (AfterMc 1 CssInitial))))))"
proof -
  from init_example obtain c names1 ev where
    init: "mc_md_init ext_example names_example args_example = Inr (c, names1, ev)" by blast
  have "md_props args_example = Some (mdp c)" using mc_md_init_config [OF init] by simp
  then have "mdp c = \<lparr>timestep = Seq [1, 2], length_of = Seq [1000, 2000], dump = Some 100\<rparr>"
    by (simp add: args_example_facts)
  then have ok: "md_settings_ok (mdp c)"
    by (simp add: md_settings_ok_def)
  have e: "fresh_run ''results'' CssInitial [1..<2 + 1] =
     [McRunName ''1.gcmc'', McPropsFile ''1.gcmc_props.inp'', McLaunch 1,
      PreMd ''results/1.before_md.lmps'' (AfterMc 1 CssInitial),
      PreMd ''results/1.before_md.lmps'' (AfterMc 1 CssInitial),
      MdLog ''results/1.md.log'', MdDump ''results/1.md.dump'',
      PostMd ''results/1.md_out.xyz'' (Unwrapped (AfterMd 1 (AfterMc 1 CssInitial))),
      McRunName ''2.gcmc'', McPropsFile ''2.gcmc_props.inp'', McLaunch 2,
      PreMd ''results/2.before_md.lmps'' (AfterMc 2 (Unwrapped (AfterMd 1 (AfterMc 1 CssInitial)))),
      PreMd ''results/2.before_md.lmps'' (AfterMc 2 (Unwrapped (AfterMd 1 (AfterMc 1 CssInitial)))),
      MdLog ''results/2.md.log'', MdDump ''results/2.md.dump'',
      PostMd ''results/2.md_out.xyz''
        (Unwrapped (AfterMd 2 (AfterMc 2 (Unwrapped (AfterMd 1 (AfterMc 1 CssInitial))))))]"
    by code_simp
  have f: "last_sim None CssInitial [1..<2 + 1] =
     Some (AfterMd 2 (AfterMc 2 (Unwrapped (AfterMd 1 (AfterMc 1 CssInitial)))))"
    by code_simp
  note th = fixed_iteration_count [OF args_example_facts(1) init ok ext_example_no_fails
      args_example_facts(2) args_example_facts(5), of Map.empty, unfolded args_example_facts(3) e f]
  from th [THEN conjunct1] th [THEN conjunct2, THEN conjunct1] show ?thesis by simp
qed

lemma scan_max_bounded:
  assumes "\<forall>f \<in> set fs. \<exists>i \<le> k. basename f = py_str i @ ''.before_md.lmps''" and "l \<le> k"
  shows "\<exists>m. scan_max fs l = Inr m \<and> l \<le> m \<and> m \<le> k \<and>
           ((\<exists>f \<in> set fs. basename f = py_str k @ ''.before_md.lmps'') \<longrightarrow> m = k)"
  using assms
proof (induction fs arbitrary: l)
  case Nil
  then show ?case by simp
next
  case (Cons f fs)
  from Cons.prems(1) obtain i where i: "i \<le> k" "basename f = py_str i @ ''.before_md.lmps''"
    by auto
  have tw: "takeWhile is_digit (basename f) = py_str i"
    using leading_digits [OF not_digit_dot, of i "''before_md.lmps''"] i(2) by simp
  obtain d ds where e: "py_str i = d # ds" using py_str_nonempty [of i] by (cases "py_str i") auto
  have step: "scan_max (f # fs) l = scan_max fs (max l i)"
    using tw e digits_val_py_str [of i] by simp
  have "\<forall>f \<in> set fs. \<exists>i \<le> k. basename f = py_str i @ ''.before_md.lmps''"
    using Cons.prems(1) by simp
  moreover have "max l i \<le> k" using Cons.prems(2) i(1) by simp
  ultimately obtain m where m: "scan_max fs (max l i) = Inr m" "max l i \<le> m" "m \<le> k"
    "(\<exists>f \<in> set fs. basename f = py_str k @ ''.before_md.lmps'') \<longrightarrow> m = k"
    using Cons.IH by blast
  have "(\<exists>g \<in> set (f # fs). basename g = py_str k @ ''.before_md.lmps'') \<longrightarrow> m = k"
  proof
    assume "\<exists>g \<in> set (f # fs). basename g = py_str k @ ''.before_md.lmps''"
    then consider "basename f = py_str k @ ''.before_md.lmps''"
      | "\<exists>g \<in> set fs. basename g = py_str k @ ''.before_md.lmps''"
      by auto
    then show "m = k"
    proof cases
      case 1
      with i(2) have "py_str i = py_str k" by simp
      then have "i = k" by (rule py_str_inj)
      with m(2,3) show ?thesis by simp
    next
      case 2
      with m(4) show ?thesis by simp
    qed
  qed
  with step m show ?case by auto
qed

lemma restart_scan_found:
  assumes bf: "brace_free d" and k1: "1 \<le> k"
    and has: "\<exists>f \<in> set (glob x (path_join d ''*.before_md.lmps'')).
                 basename f = py_str k @ ''.before_md.lmps''"
    and all: "\<forall>f \<in> set (glob x (path_join d ''*.before_md.lmps'')).
                 \<exists>i \<le> k. basename f = py_str i @ ''.before_md.lmps''"
  shows "restart_scan x d = Inr (k, to_purge x d k)"
proof -
  from scan_max_bounded [OF all k1] has
  have "scan_max (glob x (path_join d ''*.before_md.lmps'')) 1 = Inr k" by auto
  then show ?thesis by (simp add: restart_scan_def scan_pattern [OF bf])
qed

lemma restart_scan_none:
  assumes "brace_free d" and "glob x (path_join d ''*.before_md.lmps'') = []"
  shows "restart_scan x d = Inr (1, to_purge x d 1)"
  using assms(2) by (simp add: restart_scan_def scan_pattern [OF assms(1)])

lemma mc_md_restart_run:
  assumes r: "restart a" and s: "restart_scan x (sim_dir a) = Inr (l, purge)"
    and init: "mc_md_init x names a = Inr (c, names1, ev)"
    and ok: "md_settings_ok (mdp c)" and nf: "\<forall>k. \<not> fails x k" and n: "iterations a = int N"
    and bf: "brace_free (sim_dir a)"
  shows "digests (final_trace (mc_md x env names a)) =
           map Deleted purge @
           (if l \<le> N then resumed_iteration (sim_dir a) l @
                            fresh_run (sim_dir a) (Unwrapped (AfterMd l (resynced (sim_dir a) l)))
                              [l + 1..<N + 1]
            else []) \<and>
         outcome_of (mc_md x env names a) =
           Returned (if l \<le> N
                     then last_sim (Some (AfterMd l (resynced (sim_dir a) l)))
                            (Unwrapped (AfterMd l (resynced (sim_dir a) l))) [l + 1..<N + 1]
                     else None)"
proof -
  note cfg = mc_md_init_config [OF init]
  have n': "n_iter c = int N" using cfg n by simp
  have bf': "brace_free (folder c)" using cfg bf by simp
  have fd: "folder c = sim_dir a" using cfg by simp
  let ?tr = "map Remove purge @ ev"
  let ?st0 = "start_state c l True env names1 ?tr"
  have d0: "digests ?tr = map Deleted purge"
    using mc_md_init_digests [OF init] by (simp add: digests_removes)
  show ?thesis
  proof (cases "l \<le> N")
    case True
    have a: "is_restart ?st0" and b: "l_iter ?st0 \<le> N" using True by (simp_all add: start_state_def)
    have l0: "l_iter ?st0 = l" by (simp add: start_state_def)
    from resume_loop [OF nf ok n' bf' a b] obtain st' where
      lp: "mc_md_loop x c ?st0 =
           (Returned (last_sim (Some (AfterMd (l_iter ?st0) (resynced (folder c) (l_iter ?st0))))
                        (Unwrapped (AfterMd (l_iter ?st0) (resynced (folder c) (l_iter ?st0))))
                        [l_iter ?st0 + 1..<N + 1]), st')"
      and dg: "digests (trace st') = digests (trace ?st0) @
          resumed_iteration (folder c) (l_iter ?st0) @
          fresh_run (folder c) (Unwrapped (AfterMd (l_iter ?st0) (resynced (folder c) (l_iter ?st0))))
            [l_iter ?st0 + 1..<N + 1]" by blast
    note eq = mc_md_restart_eq [OF r s init lp]
    have t0: "trace ?st0 = ?tr" by (simp add: start_state_def)
    have "digests (final_trace (mc_md x env names a)) =
           map Deleted purge @ resumed_iteration (sim_dir a) l @
           fresh_run (sim_dir a) (Unwrapped (AfterMd l (resynced (sim_dir a) l))) [l + 1..<N + 1]"
      unfolding eq using dg unfolding l0 fd t0 d0 by simp
    moreover have "outcome_of (mc_md x env names a) =
           Returned (last_sim (Some (AfterMd l (resynced (sim_dir a) l)))
                            (Unwrapped (AfterMd l (resynced (sim_dir a) l))) [l + 1..<N + 1])"
      unfolding eq l0 fd by simp
    ultimately show ?thesis using True by simp
  next
    case False
    then have "\<not> int (l_iter ?st0) < n_iter c + 1" using n' by (simp add: start_state_def)
    from loop_stop [OF this] have lp: "mc_md_loop x c ?st0 = (Returned (sim ?st0), ?st0)" .
    note eq = mc_md_restart_eq [OF r s init lp]
    have "digests (final_trace (mc_md x env names a)) = map Deleted purge"
      using eq d0 by (simp add: start_state_def)
    moreover have "outcome_of (mc_md x env names a) = Returned None"
      using eq by (simp add: start_state_def)
    ultimately show ?thesis using False by simp
  qed
qed

lemma launch_in_fresh: "McLaunch i \<in> set (fresh_iteration d j s) \<longleftrightarrow> i = j"
  by (auto simp add: fresh_iteration_def md_artifacts_def)

lemma launch_in_resumed: "McLaunch i \<notin> set (resumed_iteration d j)"
  by (simp add: resumed_iteration_def md_artifacts_def)

lemma launch_in_fresh_run: "McLaunch i \<in> set (fresh_run d s js) \<longleftrightarrow> i \<in> set js"
  by (induction js arbitrary: s) (auto simp add: launch_in_fresh)

text \<open>
  C1.  Restart with a folder name without braces, when the pre-MD checkpoint files that
  \<^verbatim>\<open>glob\<close> lists in the folder are named \<^verbatim>\<open>i.before_md.lmps\<close> for iterations up to \<open>k\<close>, with \<open>k\<close>
  among them, at least \<open>k\<close> iterations are configured, INIT accepts the arguments and no
  adapter call raises: the scan finds \<open>k\<close>; the files deleted are those that \<^verbatim>\<open>glob\<close> lists
  for \<^verbatim>\<open>(k+1).*\<close> and for \<^verbatim>\<open>k.md*\<close> in the folder; iteration \<open>k\<close> is resumed: the job's state is
  re-read, the checkpoint \<^verbatim>\<open>k.before_md.lmps\<close> is read, the Monte-Carlo engine is not
  launched for iteration \<open>k\<close>, and the system handed to the MD phase of iteration \<open>k\<close> is the
  re-read state with the positions and the box of that checkpoint; the iterations \<open>k+1\<close>
  to \<open>N\<close> follow, each with a launch of the Monte-Carlo engine, the first of them starting
  from the unwrapped result of the MD run of iteration \<open>k\<close>; and the run returns the system
  of the last MD run.
\<close>

theorem resume_after_iteration:
  assumes "restart a" and "brace_free (sim_dir a)" and "1 \<le> k"
    and "\<exists>f \<in> set (checkpoints x a). basename f = py_str k @ ''.before_md.lmps''"
    and "\<forall>f \<in> set (checkpoints x a). \<exists>i \<le> k. basename f = py_str i @ ''.before_md.lmps''"
    and "mc_md_init x names a = Inr (c, names1, ev)" and "md_settings_ok (mdp c)"
    and "\<forall>q. \<not> fails x q" and "iterations a = int N" and "k \<le> N"
  shows "restart_scan x (sim_dir a) = Inr (k, to_purge x (sim_dir a) k) \<and>
     to_purge x (sim_dir a) k =
        glob x (path_join (sim_dir a) (py_str (k + 1) @ ''.*'')) @
        glob x (path_join (sim_dir a) (py_str k @ ''.md*'')) \<and>
     digests (final_trace (mc_md x env names a)) =
        map Deleted (to_purge x (sim_dir a) k) @
        resumed_iteration (sim_dir a) k @
        fresh_run (sim_dir a) (Unwrapped (AfterMd k (resynced (sim_dir a) k))) [k + 1..<N + 1] \<and>
     McLaunch k \<notin> set (digests (final_trace (mc_md x env names a))) \<and>
     (k < N \<longrightarrow> McLaunch (k + 1) \<in> set (digests (final_trace (mc_md x env names a)))) \<and>
     outcome_of (mc_md x env names a) =
        Returned (last_sim (Some (AfterMd k (resynced (sim_dir a) k)))
                    (Unwrapped (AfterMd k (resynced (sim_dir a) k))) [k + 1..<N + 1])"
proof -
  have s: "restart_scan x (sim_dir a) = Inr (k, to_purge x (sim_dir a) k)"
    using restart_scan_found [OF assms(2,3)] assms(4,5) unfolding checkpoints_def by blast
  note run = mc_md_restart_run [OF assms(1) s assms(6,7,8,9,2), of env]
  have d: "digests (final_trace (mc_md x env names a)) =
        map Deleted (to_purge x (sim_dir a) k) @
        resumed_iteration (sim_dir a) k @
        fresh_run (sim_dir a) (Unwrapped (AfterMd k (resynced (sim_dir a) k))) [k + 1..<N + 1]"
    using run assms(10) by simp
  have o: "outcome_of (mc_md x env names a) =
        Returned (last_sim (Some (AfterMd k (resynced (sim_dir a) k)))
                    (Unwrapped (AfterMd k (resynced (sim_dir a) k))) [k + 1..<N + 1])"
    using run assms(10) by simp
  have n1: "McLaunch k \<notin> set (map Deleted (to_purge x (sim_dir a) k))"
    by auto
  have n2: "McLaunch k \<notin> set (fresh_run (sim_dir a)
              (Unwrapped (AfterMd k (resynced (sim_dir a) k))) [k + 1..<N + 1])"
  proof
    assume "McLaunch k \<in> set (fresh_run (sim_dir a)
              (Unwrapped (AfterMd k (resynced (sim_dir a) k))) [k + 1..<N + 1])"
    then have "k \<in> set [k + 1..<N + 1]" by (rule launch_in_fresh_run [THEN iffD1])
    then have "k + 1 \<le> k" unfolding set_upt by (rule atLeastLessThan_iff [THEN iffD1, THEN conjunct1])
    then show False by simp
  qed
  have n: "McLaunch k \<notin> set (digests (final_trace (mc_md x env names a)))"
    unfolding d set_append using n1 n2 launch_in_resumed [of k "sim_dir a" k] by blast
  have m1: "k < N \<longrightarrow>
      McLaunch (k + 1) \<in> set (fresh_run (sim_dir a)
              (Unwrapped (AfterMd k (resynced (sim_dir a) k))) [k + 1..<N + 1])"
  proof
    assume "k < N"
    then have "k + 1 \<in> {k + 1..<N + 1}" by (simp only: atLeastLessThan_iff) arith
    then have "k + 1 \<in> set [k + 1..<N + 1]" unfolding set_upt .
    then show "McLaunch (k + 1) \<in> set (fresh_run (sim_dir a)
              (Unwrapped (AfterMd k (resynced (sim_dir a) k))) [k + 1..<N + 1])"
      by (rule launch_in_fresh_run [THEN iffD2])
  qed
  have m: "k < N \<longrightarrow> McLaunch (k + 1) \<in> set (digests (final_trace (mc_md x env names a)))"
    unfolding d set_append using m1 by blast
  have p: "to_purge x (sim_dir a) k =
        glob x (path_join (sim_dir a) (py_str (k + 1) @ ''.*'')) @
        glob x (path_join (sim_dir a) (py_str k @ ''.md*''))"
    by (simp add: to_purge_def)
  from s p d n m o show ?thesis by blast
qed

lemma init_restart_example:
  "\<exists>c names1 ev. mc_md_init ext_resume names_example (args_example\<lparr>restart := True\<rparr>) =
      Inr (c, names1, ev)"
  by (simp add: mc_md_init_def collect_gases_def ext_resume_def ext_example_def args_example_def
        Let_def)

lemma args_restart_facts:
  "restart (args_example\<lparr>restart := True\<rparr>)"
  "iterations (args_example\<lparr>restart := True\<rparr>) = int 2"
  "sim_dir (args_example\<lparr>restart := True\<rparr>) = ''results''"
  "md_props (args_example\<lparr>restart := True\<rparr>) =
     Some \<lparr>timestep = Seq [1, 2], length_of = Seq [1000, 2000], dump = Some 100\<rparr>"
  "brace_free (sim_dir (args_example\<lparr>restart := True\<rparr>))"
  by (simp_all add: args_example_def iterations_def sim_dir_def brace_free_def)

lemma ext_resume_no_fails: "\<forall>q. \<not> fails ext_resume q"
  by (simp add: ext_resume_def ext_example_def)

lemma checkpoints_resume:
  "checkpoints ext_resume (args_example\<lparr>restart := True\<rparr>) = [''results/1.before_md.lmps'']"
  by (simp add: checkpoints_def args_restart_facts(3) path_join_def ext_resume_def glob_resume_def)

lemma basename_example: "basename ''results/1.before_md.lmps'' = ''1.before_md.lmps''"
  by (simp add: basename_def)

lemma to_purge_resume:
  "to_purge ext_resume ''results'' 1 = [''results/2.gcmc.chk'', ''results/1.md.log'', ''results/1.md_out.xyz'']"
  by (simp add: to_purge_def py_str_Suc_0 py_str_Suc_Suc_0 path_join_def ext_resume_def
        glob_resume_def)

theorem resume_after_iteration_witness:
  "restart_scan ext_resume ''results'' =
     Inr (1, [''results/2.gcmc.chk'', ''results/1.md.log'', ''results/1.md_out.xyz'']) \<and>
   digests (final_trace (mc_md ext_resume Map.empty names_example (args_example\<lparr>restart := True\<rparr>))) =
     [Deleted ''results/2.gcmc.chk'', Deleted ''results/1.md.log'', Deleted ''results/1.md_out.xyz'',
      McRunName ''1.gcmc'', McPropsFile ''1.gcmc_props.inp'', StateReread 1,
      CheckpointRead ''results/1.before_md.lmps'',
      PreMd ''results/1.before_md.lmps'' (Resynced 1 ''results/1.before_md.lmps''),
      MdLog ''results/1.md.log'', MdDump ''results/1.md.dump'',
      PostMd ''results/1.md_out.xyz'' (Unwrapped (AfterMd 1 (Resynced 1 ''results/1.before_md.lmps''))),
      McRunName ''2.gcmc'', McPropsFile ''2.gcmc_props.inp'', McLaunch 2,
      PreMd ''results/2.before_md.lmps''
        (AfterMc 2 (Unwrapped (AfterMd 1 (Resynced 1 ''results/1.before_md.lmps'')))),
      PreMd ''results/2.before_md.lmps''
        (AfterMc 2 (Unwrapped (AfterMd 1 (Resynced 1 ''results/1.before_md.lmps'')))),
      MdLog ''results/2.md.log'', MdDump ''results/2.md.dump'',
      PostMd ''results/2.md_out.xyz''
        (Unwrapped (AfterMd 2 (AfterMc 2
           (Unwrapped (AfterMd 1 (Resynced 1 ''results/1.before_md.lmps''))))))] \<and>
   outcome_of (mc_md ext_resume Map.empty names_example (args_example\<lparr>restart := True\<rparr>)) =
     Returned (Some (AfterMd 2 (AfterMc 2
        (Unwrapped (AfterMd 1 (Resynced 1 ''results/1.before_md.lmps''))))))"
proof -
  from init_restart_example obtain c names1 ev where
    init: "mc_md_init ext_resume names_example (args_example\<lparr>restart := True\<rparr>) =
             Inr (c, names1, ev)" by blast
  have "md_props (args_example\<lparr>restart := True\<rparr>) = Some (mdp c)"
    using mc_md_init_config [OF init] by simp
  then have "mdp c = \<lparr>timestep = Seq [1, 2], length_of = Seq [1000, 2000], dump = Some 100\<rparr>"
    by (simp add: args_restart_facts)
  then have ok: "md_settings_ok (mdp c)" by (simp add: md_settings_ok_def)
  have h1: "(1::nat) \<le> 1" by simp
  have h2: "\<exists>f \<in> set (checkpoints ext_resume (args_example\<lparr>restart := True\<rparr>)).
              basename f = py_str 1 @ ''.before_md.lmps''"
    by (simp add: checkpoints_resume basename_example py_str_Suc_0)
  have h3: "\<forall>f \<in> set (checkpoints ext_resume (args_example\<lparr>restart := True\<rparr>)).
              \<exists>i \<le> 1. basename f = py_str i @ ''.before_md.lmps''"
  proof -
    have "\<exists>i \<le> 1. ''1.before_md.lmps'' = py_str i @ ''.before_md.lmps''"
      by (rule exI [of _ 1]) (simp add: py_str_Suc_0)
    then show ?thesis by (simp add: checkpoints_resume basename_example)
  qed
  have h9: "(1::nat) \<le> 2" by simp
  have e: "map Deleted [''results/2.gcmc.chk'', ''results/1.md.log'', ''results/1.md_out.xyz''] @
        resumed_iteration ''results'' 1 @
        fresh_run ''results'' (Unwrapped (AfterMd 1 (resynced ''results'' 1))) [1 + 1..<2 + 1] =
     [Deleted ''results/2.gcmc.chk'', Deleted ''results/1.md.log'', Deleted ''results/1.md_out.xyz'',
      McRunName ''1.gcmc'', McPropsFile ''1.gcmc_props.inp'', StateReread 1,
      CheckpointRead ''results/1.before_md.lmps'',
      PreMd ''results/1.before_md.lmps'' (Resynced 1 ''results/1.before_md.lmps''),
      MdLog ''results/1.md.log'', MdDump ''results/1.md.dump'',
      PostMd ''results/1.md_out.xyz'' (Unwrapped (AfterMd 1 (Resynced 1 ''results/1.before_md.lmps''))),
      McRunName ''2.gcmc'', McPropsFile ''2.gcmc_props.inp'', McLaunch 2,
      PreMd ''results/2.before_md.lmps''
        (AfterMc 2 (Unwrapped (AfterMd 1 (Resynced 1 ''results/1.before_md.lmps'')))),
      PreMd ''results/2.before_md.lmps''
        (AfterMc 2 (Unwrapped (AfterMd 1 (Resynced 1 ''results/1.before_md.lmps'')))),
      MdLog ''results/2.md.log'', MdDump ''results/2.md.dump'',
      PostMd ''results/2.md_out.xyz''
        (Unwrapped (AfterMd 2 (AfterMc 2
           (Unwrapped (AfterMd 1 (Resynced 1 ''results/1.before_md.lmps''))))))]"
    by code_simp
  have f: "last_sim (Some (AfterMd 1 (resynced ''results'' 1)))
             (Unwrapped (AfterMd 1 (resynced ''results'' 1))) [1 + 1..<2 + 1] =
     Some (AfterMd 2 (AfterMc 2 (Unwrapped (AfterMd 1 (Resynced 1 ''results/1.before_md.lmps'')))))"
    by code_simp
  note th = resume_after_iteration [OF args_restart_facts(1) args_restart_facts(5) h1 h2 h3 init ok
      ext_resume_no_fails args_restart_facts(2) h9, of Map.empty,
      unfolded args_restart_facts(3) to_purge_resume e f]
  from th [THEN conjunct1] th [THEN conjunct2, THEN conjunct2, THEN conjunct1]
    th [THEN conjunct2, THEN conjunct2, THEN conjunct2, THEN conjunct2, THEN conjunct2]
  show ?thesis by simp
qed

lemma ev_ok_later: "ev_ok c nm (Suc l) False e \<Longrightarrow> ev_ok c nm l r e"
  by (cases e) auto

lemma mc_phase_events:
  assumes "mc_phase x c st = (r, st1)"
  shows "\<exists>job rest. trace st1 = trace st @ AddGcmc job # rest \<and>
           (\<forall>e \<in> set (AddGcmc job # rest). ev_ok c (type_names st) (l_iter st) (is_restart st) e) \<and>
           (r = None \<longrightarrow> \<not> is_restart st1) \<and>
           (is_restart st \<longrightarrow> UpdSimulation (l_iter st) \<in> set rest) \<and>
           (\<forall>oc. r = Some oc \<longrightarrow> not_exit oc) \<and>
           type_names st1 = type_names st"
proof (cases "py_format x (lmps_fname (folder c)) (py_str (l_iter st))")
  case (Inl e)
  show ?thesis
  proof (cases "is_restart st")
    case True
    with assms Inl show ?thesis
      by (auto simp add: mc_phase_def Let_def log_def split: if_splits)
  next
    case False
    with assms Inl show ?thesis
      by (auto simp add: mc_phase_def Let_def log_def split: if_splits)
  qed
next
  case (Inr fname)
  show ?thesis
  proof (cases "is_restart st")
    case True
    with assms Inr show ?thesis
      by (auto simp add: mc_phase_def Let_def log_def split: if_splits)
  next
    case False
    with assms Inr show ?thesis
      by (auto simp add: mc_phase_def Let_def log_def split: if_splits)
  qed
qed

lemma md_phase_events:
  assumes "md_phase x c st = (r, st2)"
  shows "\<exists>new. trace st2 = trace st @ new \<and>
           (\<forall>e \<in> set new. ev_ok c nm l rs e) \<and>
           is_restart st2 = is_restart st \<and>
           (\<forall>oc. r = Some oc \<longrightarrow> not_exit oc) \<and>
           type_names st2 = type_names st"
proof (cases "md_script (mdp c) (folder c) (l_iter st) (rigid_mols x (l_iter st))")
  case (Inl e)
  with assms show ?thesis by (auto simp add: md_phase_def Let_def log_def)
next
  case (Inr script)
  show ?thesis
  proof (cases "fails x (CallSimRun (l_iter st))")
    case True
    with assms Inr show ?thesis
      by (auto simp add: md_phase_def Let_def log_def split: option.splits)
  next
    case False
    with assms Inr show ?thesis
      by (auto simp add: md_phase_def Let_def log_def split: option.splits)
  qed
qed

lemma hand_over_events:
  assumes "hand_over x c st = (r, st3)"
  shows "\<exists>new. trace st3 = trace st @ new \<and>
           (\<forall>e \<in> set new. ev_ok c nm l rs e) \<and>
           is_restart st3 = is_restart st \<and>
           (\<forall>oc. r = Some oc \<longrightarrow> not_exit oc) \<and>
           type_names st3 = type_names st"
  using assms
  by (auto simp add: hand_over_def Let_def log_def split: option.splits sum.splits)

lemma iteration_events:
  assumes "iteration x c st = (r, st3)"
  shows "\<exists>job rest. trace st3 = trace st @ AddGcmc job # rest \<and>
           (\<forall>e \<in> set (AddGcmc job # rest). ev_ok c (type_names st) (l_iter st) (is_restart st) e) \<and>
           (r = None \<longrightarrow> \<not> is_restart st3) \<and>
           (is_restart st \<longrightarrow> UpdSimulation (l_iter st) \<in> set rest) \<and>
           (\<forall>oc. r = Some oc \<longrightarrow> not_exit oc) \<and>
           type_names st3 = type_names st"
proof -
  obtain r1 st1 where mc: "mc_phase x c st = (r1, st1)" by (cases "mc_phase x c st") blast
  from mc_phase_events [OF mc] obtain job rest1 where
    t1: "trace st1 = trace st @ AddGcmc job # rest1"
    and ok1: "\<forall>e \<in> set (AddGcmc job # rest1). ev_ok c (type_names st) (l_iter st) (is_restart st) e"
    and nr1: "r1 = None \<longrightarrow> \<not> is_restart st1"
    and u1: "is_restart st \<longrightarrow> UpdSimulation (l_iter st) \<in> set rest1"
    and ne1: "\<forall>oc. r1 = Some oc \<longrightarrow> not_exit oc"
    and nm1: "type_names st1 = type_names st" by blast
  show ?thesis
  proof (cases r1)
    case (Some oc)
    with assms mc have "r = Some oc" "st3 = st1" by (simp_all add: iteration_def)
    with t1 ok1 u1 ne1 nm1 Some show ?thesis by auto
  next
    case None
    note r1 = this
    obtain r2 st2 where md: "md_phase x c st1 = (r2, st2)" by (cases "md_phase x c st1") blast
    from md_phase_events [OF md, of "type_names st" "l_iter st" "is_restart st"] obtain new2 where
      t2: "trace st2 = trace st1 @ new2"
      and ok2: "\<forall>e \<in> set new2. ev_ok c (type_names st) (l_iter st) (is_restart st) e"
      and nr2: "is_restart st2 = is_restart st1"
      and ne2: "\<forall>oc. r2 = Some oc \<longrightarrow> not_exit oc"
      and nm2: "type_names st2 = type_names st1" by blast
    have t12: "trace st2 = trace st @ AddGcmc job # (rest1 @ new2)" using t1 t2 by simp
    have ok12: "\<forall>e \<in> set (AddGcmc job # (rest1 @ new2)).
                  ev_ok c (type_names st) (l_iter st) (is_restart st) e"
      using ok1 ok2 by auto
    have u12: "is_restart st \<longrightarrow> UpdSimulation (l_iter st) \<in> set (rest1 @ new2)"
      using u1 by simp
    show ?thesis
    proof (cases r2)
      case (Some oc)
      with assms mc md r1 have "r = Some oc" "st3 = st2" by (simp_all add: iteration_def)
      with t12 ok12 u12 ne2 nm1 nm2 Some show ?thesis by auto
    next
      case None
      with assms mc md r1 have ho: "hand_over x c st2 = (r, st3)" by (simp add: iteration_def)
      from hand_over_events [OF ho, of "type_names st" "l_iter st" "is_restart st"] obtain new3 where
        t3: "trace st3 = trace st2 @ new3"
        and ok3: "\<forall>e \<in> set new3. ev_ok c (type_names st) (l_iter st) (is_restart st) e"
        and nr3: "is_restart st3 = is_restart st2"
        and ne3: "\<forall>oc. r = Some oc \<longrightarrow> not_exit oc"
        and nm3: "type_names st3 = type_names st2" by blast
      have "trace st3 = trace st @ AddGcmc job # (rest1 @ new2 @ new3)" using t12 t3 by simp
      moreover have "\<forall>e \<in> set (AddGcmc job # (rest1 @ new2 @ new3)).
                  ev_ok c (type_names st) (l_iter st) (is_restart st) e"
        using ok12 ok3 by auto
      moreover have "r = None \<longrightarrow> \<not> is_restart st3" using nr1 nr2 nr3 r1 by simp
      moreover have "is_restart st \<longrightarrow> UpdSimulation (l_iter st) \<in> set (rest1 @ new2 @ new3)"
        using u1 by simp
      moreover have "type_names st3 = type_names st" using nm1 nm2 nm3 by simp
      ultimately show ?thesis using ne3 by blast
    qed
  qed
qed

lemma loop_events:
  "mc_md_loop x c st = (out, st') \<Longrightarrow>
     \<exists>new. trace st' = trace st @ new \<and>
       (\<forall>e \<in> set new. ev_ok c (type_names st) (l_iter st) (is_restart st) e) \<and>
       (is_restart st \<and> int (l_iter st) < n_iter c + 1 \<longrightarrow> UpdSimulation (l_iter st) \<in> set new) \<and>
       (int (l_iter st) < n_iter c + 1 \<longrightarrow> (\<exists>job rest. new = AddGcmc job # rest)) \<and>
       not_exit out \<and> type_names st' = type_names st"
proof (induction x c st rule: mc_md_loop.induct)
  case (1 x c st)
  show ?case
  proof (cases "int (l_iter st) < n_iter c + 1")
    case False
    have "mc_md_loop x c st = (Returned (sim st), st)" by (rule loop_stop [OF False])
    with "1.prems" have "st' = st" "out = Returned (sim st)" by auto
    with False show ?thesis by simp
  next
    case True
    obtain r st1 where it: "iteration x c st = (r, st1)" by (cases "iteration x c st") blast
    from iteration_events [OF it] obtain job rest1 where
      t1: "trace st1 = trace st @ AddGcmc job # rest1"
      and ok1: "\<forall>e \<in> set (AddGcmc job # rest1).
                  ev_ok c (type_names st) (l_iter st) (is_restart st) e"
      and nr1: "r = None \<longrightarrow> \<not> is_restart st1"
      and u1: "is_restart st \<longrightarrow> UpdSimulation (l_iter st) \<in> set rest1"
      and ne1: "\<forall>oc. r = Some oc \<longrightarrow> not_exit oc"
      and nm1: "type_names st1 = type_names st" by blast
    show ?thesis
    proof (cases r)
      case (Some oc)
      with loop_raise [OF True] it "1.prems" have "out = oc" "st' = st1" by simp_all
      with t1 ok1 u1 ne1 nm1 Some show ?thesis by auto
    next
      case None
      with loop_step [OF True] it "1.prems" have lp: "mc_md_loop x c st1 = (out, st')" by simp
      have "(r, st1) = iteration x c st" using it by simp
      from "1.IH" [OF True this None lp] obtain new2 where
        t2: "trace st' = trace st1 @ new2"
        and ok2: "\<forall>e \<in> set new2. ev_ok c (type_names st1) (l_iter st1) (is_restart st1) e"
        and ne: "not_exit out" and nm2: "type_names st' = type_names st1" by blast
      have l1: "l_iter st1 = Suc (l_iter st)" using iteration_l it None by simp
      have "\<forall>e \<in> set new2. ev_ok c (type_names st) (l_iter st) (is_restart st) e"
      proof
        fix e assume "e \<in> set new2"
        with ok2 l1 nr1 nm1 None have "ev_ok c (type_names st) (Suc (l_iter st)) False e" by simp
        then show "ev_ok c (type_names st) (l_iter st) (is_restart st) e" by (rule ev_ok_later)
      qed
      with ok1 have "\<forall>e \<in> set (AddGcmc job # (rest1 @ new2)).
                       ev_ok c (type_names st) (l_iter st) (is_restart st) e" by auto
      moreover have "trace st' = trace st @ AddGcmc job # (rest1 @ new2)" using t1 t2 by simp
      moreover have "is_restart st \<longrightarrow> UpdSimulation (l_iter st) \<in> set (AddGcmc job # (rest1 @ new2))"
        using u1 by simp
      moreover have "type_names st' = type_names st" using nm1 nm2 by simp
      ultimately show ?thesis using ne by blast
    qed
  qed
qed

lemma mc_md_unfold:
  "mc_md x env names a =
     (case scan_of x a of
        Inl e \<Rightarrow> \<lparr>outcome_of = Error e, final_environ = env, final_names = names, final_trace = []\<rparr>
      | Inr (l, purge) \<Rightarrow>
         (case mc_md_init x names a of
            Inl (out, ev) \<Rightarrow>
              \<lparr>outcome_of = out, final_environ = env, final_names = names,
               final_trace = map Remove purge @ ev\<rparr>
          | Inr (c, names1, ev) \<Rightarrow>
             (case mc_md_loop x c (start_state c l (restart a) env names1 (map Remove purge @ ev)) of
                (out, st) \<Rightarrow>
                  \<lparr>outcome_of = out, final_environ = environ st, final_names = type_names st,
                   final_trace = trace st\<rparr>)))"
proof (cases "restart a")
  case True
  then show ?thesis
    by (simp add: mc_md_def scan_of_def sim_dir_def Let_def start_state_def
          split: sum.splits prod.splits)
next
  case False
  then show ?thesis
    by (simp add: mc_md_def scan_of_def sim_dir_def Let_def start_state_def
          split: sum.splits prod.splits)
qed

lemma mc_md_cases:
  "(\<exists>e. scan_of x a = Inl e \<and> final_trace (mc_md x env names a) = [] \<and>
        final_names (mc_md x env names a) = names) \<or>
   (\<exists>l purge out ev. scan_of x a = Inr (l, purge) \<and> mc_md_init x names a = Inl (out, ev) \<and>
       outcome_of (mc_md x env names a) = out \<and>
       final_names (mc_md x env names a) = names \<and>
       final_trace (mc_md x env names a) = map Remove purge @ ev) \<or>
   (\<exists>l purge c names1 ev out st. scan_of x a = Inr (l, purge) \<and>
       mc_md_init x names a = Inr (c, names1, ev) \<and>
       mc_md_loop x c (start_state c l (restart a) env names1 (map Remove purge @ ev)) = (out, st) \<and>
       outcome_of (mc_md x env names a) = out \<and>
       final_names (mc_md x env names a) = type_names st \<and>
       final_trace (mc_md x env names a) = trace st)"
proof (cases "scan_of x a")
  case (Inl e)
  then show ?thesis by (simp add: mc_md_unfold)
next
  case (Inr p)
  obtain l purge where p: "p = (l, purge)" by (cases p) blast
  show ?thesis
  proof (cases "mc_md_init x names a")
    case (Inl q)
    obtain out ev where q: "q = (out, ev)" by (cases q) blast
    from Inr p Inl q show ?thesis by (simp add: mc_md_unfold)
  next
    case (Inr q)
    obtain c names1 ev where q: "q = (c, names1, ev)" by (cases q) auto
    obtain out st where lp:
      "mc_md_loop x c (start_state c l (restart a) env names1 (map Remove purge @ ev)) = (out, st)"
      by (cases "mc_md_loop x c (start_state c l (restart a) env names1 (map Remove purge @ ev))")
         blast
    from \<open>scan_of x a = Inr p\<close> p Inr q lp show ?thesis by (simp add: mc_md_unfold)
  qed
qed

lemma mc_md_init_early_events:
  assumes "mc_md_init x names a = Inl (out, ev)"
  shows "\<forall>e \<in> set ev. e = Wrap \<or> (\<exists>m. e = Print m)"
  using assms
  by (auto simp add: mc_md_init_def Let_def split: sum.splits if_splits option.splits pyval.splits)

lemma mc_md_init_ok_events:
  assumes "mc_md_init x names a = Inr (c, names1, ev)"
  shows "\<forall>e \<in> set ev. e = Wrap \<or> (\<exists>m. e = Print m)"
  using mc_md_init_events [OF assms] by (auto split: pyval.splits)



lemma mc_md_restart_launches:
  assumes r: "restart a" and s: "restart_scan x (sim_dir a) = Inr (l, purge)"
    and m: "CssRun i \<in> set (final_trace (mc_md x env names a))"
  shows "l < i"
proof -
  have sc: "scan_of x a = Inr (l, purge)" using r s by (simp add: scan_of_def)
  from mc_md_cases [of x a env names] show ?thesis
  proof (elim disjE exE conjE)
    fix e assume "final_trace (mc_md x env names a) = []"
    with m show ?thesis by simp
  next
    fix l' purge' out ev
    assume i: "mc_md_init x names a = Inl (out, ev)"
      and t: "final_trace (mc_md x env names a) = map Remove purge' @ ev"
    from m t mc_md_init_early_events [OF i] show ?thesis by auto
  next
    fix l' purge' c names1 ev out st
    assume sc': "scan_of x a = Inr (l', purge')"
      and i: "mc_md_init x names a = Inr (c, names1, ev)"
      and lp: "mc_md_loop x c (start_state c l' (restart a) env names1 (map Remove purge' @ ev)) =
                 (out, st)"
      and t: "final_trace (mc_md x env names a) = trace st"
    from sc sc' have e: "l' = l" by simp
    from loop_events [OF lp] obtain new where
      n: "trace st = (map Remove purge' @ ev) @ new"
      and ok: "\<forall>e \<in> set new. ev_ok c names1 l' (restart a) e"
      by (auto simp add: start_state_def)
    from m t n mc_md_init_ok_events [OF i] have "CssRun i \<in> set new" by auto
    with ok have "ev_ok c names1 l' (restart a) (CssRun i)" by blast
    with r e show ?thesis by simp
  qed
qed

lemma mc_md_restart_rereads:
  assumes r: "restart a" and s: "restart_scan x (sim_dir a) = Inr (l, purge)"
    and i: "mc_md_init x names a = Inr (c, names1, ev)" and le: "int l \<le> iterations a"
  shows "UpdSimulation l \<in> set (final_trace (mc_md x env names a))"
proof -
  have sc: "scan_of x a = Inr (l, purge)" using r s by (simp add: scan_of_def)
  have n: "n_iter c = iterations a" using mc_md_init_config [OF i] by simp
  from mc_md_cases [of x a env names] show ?thesis
  proof (elim disjE exE conjE)
    fix e assume "scan_of x a = Inl e"
    with sc show ?thesis by simp
  next
    fix l' purge' out ev'
    assume "mc_md_init x names a = Inl (out, ev')"
    with i show ?thesis by simp
  next
    fix l' purge' c' names1' ev' out st
    assume sc': "scan_of x a = Inr (l', purge')"
      and i': "mc_md_init x names a = Inr (c', names1', ev')"
      and lp: "mc_md_loop x c' (start_state c' l' (restart a) env names1' (map Remove purge' @ ev')) =
                 (out, st)"
      and t: "final_trace (mc_md x env names a) = trace st"
    from sc sc' have e: "l' = l" by simp
    from i i' have e2: "c' = c" by simp
    from loop_events [OF lp] obtain new where
      tr: "trace st = (map Remove purge' @ ev') @ new"
      and u: "restart a \<and> int l' < n_iter c' + 1 \<longrightarrow> UpdSimulation l' \<in> set new"
      by (auto simp add: start_state_def)
    from u r e e2 n le have "UpdSimulation l \<in> set new" by simp
    with t tr show ?thesis by simp
  qed
qed

lemma init_restart_plain:
  "\<exists>c names1 ev. mc_md_init ext_example names_example (args_example\<lparr>restart := True\<rparr>) =
      Inr (c, names1, ev)"
  by (simp add: mc_md_init_def collect_gases_def ext_example_def args_example_def Let_def)

lemma checkpoints_plain: "checkpoints ext_example a = []"
  by (simp add: checkpoints_def ext_example_def)

lemma to_purge_plain: "to_purge ext_example d l = []"
  by (simp add: to_purge_def ext_example_def)

text \<open>
  C9, as stated, fails: with restart requested and no pre-MD checkpoint file in the
  folder, iteration 1 re-reads the job's state and the checkpoint
  \<^verbatim>\<open>results/1.before_md.lmps\<close>, which does not exist, and hands the re-read state to the MD
  phase; the Monte-Carlo engine is launched in iteration 2 only.
\<close>

theorem restart_without_checkpoint_skips_mc:
  "restart (args_example\<lparr>restart := True\<rparr>) \<and>
   checkpoints ext_example (args_example\<lparr>restart := True\<rparr>) = [] \<and>
   digests (final_trace (mc_md ext_example Map.empty names_example (args_example\<lparr>restart := True\<rparr>))) =
     [McRunName ''1.gcmc'', McPropsFile ''1.gcmc_props.inp'', StateReread 1,
      CheckpointRead ''results/1.before_md.lmps'',
      PreMd ''results/1.before_md.lmps'' (Resynced 1 ''results/1.before_md.lmps''),
      MdLog ''results/1.md.log'', MdDump ''results/1.md.dump'',
      PostMd ''results/1.md_out.xyz'' (Unwrapped (AfterMd 1 (Resynced 1 ''results/1.before_md.lmps''))),
      McRunName ''2.gcmc'', McPropsFile ''2.gcmc_props.inp'', McLaunch 2,
      PreMd ''results/2.before_md.lmps''
        (AfterMc 2 (Unwrapped (AfterMd 1 (Resynced 1 ''results/1.before_md.lmps'')))),
      PreMd ''results/2.before_md.lmps''
        (AfterMc 2 (Unwrapped (AfterMd 1 (Resynced 1 ''results/1.before_md.lmps'')))),
      MdLog ''results/2.md.log'', MdDump ''results/2.md.dump'',
      PostMd ''results/2.md_out.xyz''
        (Unwrapped (AfterMd 2 (AfterMc 2
           (Unwrapped (AfterMd 1 (Resynced 1 ''results/1.before_md.lmps''))))))] \<and>
   McLaunch 1 \<notin> set (digests (final_trace
      (mc_md ext_example Map.empty names_example (args_example\<lparr>restart := True\<rparr>))))"
proof -
  from init_restart_plain obtain c names1 ev where
    init: "mc_md_init ext_example names_example (args_example\<lparr>restart := True\<rparr>) =
             Inr (c, names1, ev)" by blast
  have "md_props (args_example\<lparr>restart := True\<rparr>) = Some (mdp c)"
    using mc_md_init_config [OF init] by simp
  then have "mdp c = \<lparr>timestep = Seq [1, 2], length_of = Seq [1000, 2000], dump = Some 100\<rparr>"
    by (simp add: args_restart_facts)
  then have ok: "md_settings_ok (mdp c)" by (simp add: md_settings_ok_def)
  have s: "restart_scan ext_example (sim_dir (args_example\<lparr>restart := True\<rparr>)) = Inr (1, [])"
    using restart_scan_none [OF args_restart_facts(5), of ext_example]
    by (simp add: ext_example_def to_purge_def)
  have e: "map Deleted [] @
        (if (1::nat) \<le> 2 then resumed_iteration ''results'' 1 @
            fresh_run ''results'' (Unwrapped (AfterMd 1 (resynced ''results'' 1))) [1 + 1..<2 + 1]
         else []) =
     [McRunName ''1.gcmc'', McPropsFile ''1.gcmc_props.inp'', StateReread 1,
      CheckpointRead ''results/1.before_md.lmps'',
      PreMd ''results/1.before_md.lmps'' (Resynced 1 ''results/1.before_md.lmps''),
      MdLog ''results/1.md.log'', MdDump ''results/1.md.dump'',
      PostMd ''results/1.md_out.xyz'' (Unwrapped (AfterMd 1 (Resynced 1 ''results/1.before_md.lmps''))),
      McRunName ''2.gcmc'', McPropsFile ''2.gcmc_props.inp'', McLaunch 2,
      PreMd ''results/2.before_md.lmps''
        (AfterMc 2 (Unwrapped (AfterMd 1 (Resynced 1 ''results/1.before_md.lmps'')))),
      PreMd ''results/2.before_md.lmps''
        (AfterMc 2 (Unwrapped (AfterMd 1 (Resynced 1 ''results/1.before_md.lmps'')))),
      MdLog ''results/2.md.log'', MdDump ''results/2.md.dump'',
      PostMd ''results/2.md_out.xyz''
        (Unwrapped (AfterMd 2 (AfterMc 2
           (Unwrapped (AfterMd 1 (Resynced 1 ''results/1.before_md.lmps''))))))]"
    by code_simp
  note run = mc_md_restart_run [OF args_restart_facts(1) s init ok ext_example_no_fails
      args_restart_facts(2) args_restart_facts(5), of Map.empty, unfolded args_restart_facts(3) e]
  note d = run [THEN conjunct1]
  have "McLaunch 1 \<notin> set (digests (final_trace
      (mc_md ext_example Map.empty names_example (args_example\<lparr>restart := True\<rparr>))))"
    unfolding d by simp
  with d args_restart_facts(1) checkpoints_plain show ?thesis by simp
qed

text \<open>
  C9, amended.  When restart is requested, the folder name holds no brace and \<^verbatim>\<open>glob\<close>
  lists no pre-MD checkpoint file in the folder, the scan leaves the iteration index at 1
  and iteration 1 takes the resume path: the Monte-Carlo engine is never launched for
  iteration 1; if an iteration is configured, the state of the job of iteration 1 is
  re-read; and when the calls into the adapters return, the run consists of the removals
  of the scan, iteration 1 resumed from the checkpoint \<^verbatim>\<open>1.before_md.lmps\<close>, and the
  iterations 2 to \<open>N\<close> with their Monte-Carlo launches.
\<close>

theorem restart_without_checkpoint:
  assumes "restart a" and "brace_free (sim_dir a)" and "checkpoints x a = []"
    and "mc_md_init x names a = Inr (c, names1, ev)"
  shows "restart_scan x (sim_dir a) = Inr (1, to_purge x (sim_dir a) 1) \<and>
     CssRun 1 \<notin> set (final_trace (mc_md x env names a)) \<and>
     (1 \<le> iterations a \<longrightarrow> UpdSimulation 1 \<in> set (final_trace (mc_md x env names a))) \<and>
     (md_settings_ok (mdp c) \<and> (\<forall>q. \<not> fails x q) \<and> iterations a = int N \<and> 1 \<le> N \<longrightarrow>
        digests (final_trace (mc_md x env names a)) =
          map Deleted (to_purge x (sim_dir a) 1) @
          resumed_iteration (sim_dir a) 1 @
          fresh_run (sim_dir a) (Unwrapped (AfterMd 1 (resynced (sim_dir a) 1))) [1 + 1..<N + 1])"
proof -
  have s: "restart_scan x (sim_dir a) = Inr (1, to_purge x (sim_dir a) 1)"
    using restart_scan_none [OF assms(2), of x] assms(3) by (simp add: checkpoints_def)
  have a: "CssRun 1 \<notin> set (final_trace (mc_md x env names a))"
  proof
    assume "CssRun 1 \<in> set (final_trace (mc_md x env names a))"
    from mc_md_restart_launches [OF assms(1) s this] show False by simp
  qed
  have b: "1 \<le> iterations a \<longrightarrow> UpdSimulation 1 \<in> set (final_trace (mc_md x env names a))"
  proof
    assume "1 \<le> iterations a"
    then have "int 1 \<le> iterations a" by simp
    from mc_md_restart_rereads [OF assms(1) s assms(4) this]
    show "UpdSimulation 1 \<in> set (final_trace (mc_md x env names a))" .
  qed
  have c: "md_settings_ok (mdp c) \<and> (\<forall>q. \<not> fails x q) \<and> iterations a = int N \<and> 1 \<le> N \<longrightarrow>
        digests (final_trace (mc_md x env names a)) =
          map Deleted (to_purge x (sim_dir a) 1) @
          resumed_iteration (sim_dir a) 1 @
          fresh_run (sim_dir a) (Unwrapped (AfterMd 1 (resynced (sim_dir a) 1))) [1 + 1..<N + 1]"
  proof
    assume h: "md_settings_ok (mdp c) \<and> (\<forall>q. \<not> fails x q) \<and> iterations a = int N \<and> 1 \<le> N"
    then have h1: "md_settings_ok (mdp c)" and h2: "\<forall>q. \<not> fails x q"
      and h3: "iterations a = int N" and h4: "1 \<le> N" by simp_all
    from mc_md_restart_run [OF assms(1) s assms(4) h1 h2 h3 assms(2), of env, THEN conjunct1] h4
    show "digests (final_trace (mc_md x env names a)) =
          map Deleted (to_purge x (sim_dir a) 1) @
          resumed_iteration (sim_dir a) 1 @
          fresh_run (sim_dir a) (Unwrapped (AfterMd 1 (resynced (sim_dir a) 1))) [1 + 1..<N + 1]"
      by simp
  qed
  from s a b c show ?thesis by blast
qed

theorem restart_without_checkpoint_witness:
  "restart_scan ext_example ''results'' = Inr (1, []) \<and>
   CssRun 1 \<notin> set (final_trace (mc_md ext_example Map.empty names_example
                                   (args_example\<lparr>restart := True\<rparr>))) \<and>
   UpdSimulation 1 \<in> set (final_trace (mc_md ext_example Map.empty names_example
                                   (args_example\<lparr>restart := True\<rparr>))) \<and>
   digests (final_trace (mc_md ext_example Map.empty names_example (args_example\<lparr>restart := True\<rparr>))) =
     resumed_iteration ''results'' 1 @
     fresh_run ''results'' (Unwrapped (AfterMd 1 (Resynced 1 ''results/1.before_md.lmps''))) [2]"
proof -
  from init_restart_plain obtain c names1 ev where
    init: "mc_md_init ext_example names_example (args_example\<lparr>restart := True\<rparr>) =
             Inr (c, names1, ev)" by blast
  have "md_props (args_example\<lparr>restart := True\<rparr>) = Some (mdp c)"
    using mc_md_init_config [OF init] by simp
  then have "mdp c = \<lparr>timestep = Seq [1, 2], length_of = Seq [1000, 2000], dump = Some 100\<rparr>"
    by (simp add: args_restart_facts)
  then have ok: "md_settings_ok (mdp c)" by (simp add: md_settings_ok_def)
  have r: "resynced ''results'' 1 = Resynced 1 ''results/1.before_md.lmps''"
    by (simp add: resynced_def path_join_def py_str_Suc_0)
  have u: "[1 + 1..<2 + 1] = [2::nat]" by code_simp
  note th = restart_without_checkpoint [OF args_restart_facts(1) args_restart_facts(5)
      checkpoints_plain init, of Map.empty 2,
      unfolded to_purge_plain args_restart_facts(2) args_restart_facts(3) r u]
  have "md_settings_ok (mdp c) \<and> (\<forall>q. \<not> fails ext_example q) \<and> int 2 = int 2 \<and> (1::nat) \<le> 2"
    using ok ext_example_no_fails by simp
  with th [THEN conjunct2, THEN conjunct2, THEN conjunct2]
  have d: "digests (final_trace (mc_md ext_example Map.empty names_example
                      (args_example\<lparr>restart := True\<rparr>))) =
     map Deleted [] @ resumed_iteration ''results'' 1 @
     fresh_run ''results'' (Unwrapped (AfterMd 1 (Resynced 1 ''results/1.before_md.lmps''))) [2]"
    by blast
  from th [THEN conjunct1] th [THEN conjunct2, THEN conjunct1]
    th [THEN conjunct2, THEN conjunct2, THEN conjunct1] d
  show ?thesis by simp
qed













lemma braces_in_folder_raise:
  "py_format x (lmps_fname ''run{}'') ''*'' = Inl IndexError"
  "py_format x (xyz_fname ''a}b'') ''1'' = Inl ValueError"
  by (simp_all add: py_format_def lmps_fname_def xyz_fname_def path_join_def puts_def)

text \<open>
  C4.  A non-empty list of gas systems is not accepted: whatever the other arguments
  are, INIT ends with AttributeError at the test of line 70, with no diagnostic message
  and no exit, and no particle type is renamed.  For the list that holds the one gas
  system of the example, with complete Monte-Carlo and MD settings, the only event of the
  run is the wrapping of the fixed system.
\<close>

theorem gas_list_raises_attribute_error:
  "outcome_of (mc_md x env names (a\<lparr>gas_sst := PList (g # gs), restart := False\<rparr>)) =
     Error AttributeError \<and>
   final_names (mc_md x env names (a\<lparr>gas_sst := PList (g # gs), restart := False\<rparr>)) = names \<and>
   outcome_of (mc_md ext_example Map.empty names_example
                 (args_example\<lparr>gas_sst := PList [PSys [0, 1]]\<rparr>)) = Error AttributeError \<and>
   final_trace (mc_md ext_example Map.empty names_example
                 (args_example\<lparr>gas_sst := PList [PSys [0, 1]]\<rparr>)) = [Wrap]"
proof -
  let ?a = "a\<lparr>gas_sst := PList (g # gs), restart := False\<rparr>"
  have "\<exists>ev. mc_md_init x names ?a = Inl (Error AttributeError, ev)"
    by (simp add: mc_md_init_def collect_gases_def Let_def)
  then obtain ev where i: "mc_md_init x names ?a = Inl (Error AttributeError, ev)" by blast
  have s: "scan_of x ?a = Inr (1, [])" by (simp add: scan_of_def)
  from i s have a: "outcome_of (mc_md x env names ?a) = Error AttributeError"
    and b: "final_names (mc_md x env names ?a) = names"
    by (simp_all add: mc_md_unfold)
  let ?e = "args_example\<lparr>gas_sst := PList [PSys [0, 1]]\<rparr>"
  have "mc_md_init ext_example names_example ?e = Inl (Error AttributeError, [Wrap])"
    by (simp add: mc_md_init_def collect_gases_def Let_def args_example_def)
  moreover have "scan_of ext_example ?e = Inr (1, [])"
    by (simp add: scan_of_def args_example_def)
  ultimately have c: "outcome_of (mc_md ext_example Map.empty names_example ?e) = Error AttributeError"
    and d: "final_trace (mc_md ext_example Map.empty names_example ?e) = [Wrap]"
    by (simp_all add: mc_md_unfold)
  from a b c d show ?thesis by blast
qed

end
